(* ===== verification/Prelude.thy ===== *)
theory Prelude
  imports Main "HOL-Library.AList" "HOL-Library.State_Monad"
begin

text \<open>
  Shared base of the development: the Go values every component uses (string maps, errors,
  the reconcile result), the collections of lemmas the component proofs rely on, and the
  generic facts about them. A Go \<open>map[string]string\<close> is an association list, so that ranging
  over it and looking a key up both compute; a nil map is told apart from an empty one only
  where the code can write to it (see \<open>KubeTypes\<close>).
\<close>

named_theorems yields_intro \<comment> \<open>rules that run a handler path by path (theory \<open>Env\<close>)\<close>
named_theorems emits_intro \<comment> \<open>syntax-directed rules of the event calculus of theory \<open>Env\<close>\<close>

section \<open>Go maps from strings to strings\<close>

type_synonym smap = "(string \<times> string) list"

definition sm_put :: "string \<Rightarrow> string \<Rightarrow> smap \<Rightarrow> smap" where
  "sm_put k v m = AList.update k v m"

definition sm_del :: "string \<Rightarrow> smap \<Rightarrow> smap" where
  "sm_del k m = AList.delete k m"

lemma sm_put_get [simp]: "map_of (sm_put k v m) k' = (if k' = k then Some v else map_of m k')"
  by (simp add: sm_put_def update_conv')

lemma sm_del_get [simp]: "map_of (sm_del k m) k' = (if k' = k then None else map_of m k')"
  by (simp add: sm_del_def delete_conv')

lemma sm_put_Nil [simp]: "sm_put k v [] = [(k, v)]"
  by (simp add: sm_put_def)

lemma sm_put_Cons [simp]:
  "sm_put k v ((k', v') # m) = (if k' = k then (k, v) # m else (k', v') # sm_put k v m)"
  by (simp add: sm_put_def)

lemma sm_del_Nil [simp]: "sm_del k [] = []"
  by (simp add: sm_del_def)

lemma sm_del_Cons [simp]:
  "sm_del k ((k', v') # m) = (if k' = k then sm_del k m else (k', v') # sm_del k m)"
  by (simp add: sm_del_def)

lemma sm_del_put_same [simp]: "map_of m k = None \<Longrightarrow> sm_del k (sm_put k v m) = m"
  by (induction m) (auto simp: map_of_eq_None_iff split: if_splits)

section \<open>Errors\<close>

text \<open>
  \<open>ApiError\<close> is an error of the Kubernetes client with its status reason (only the two
  reasons the code tests for are told apart) and its text; \<open>Wrapped\<close> is
  \<open>fmt.Errorf("msg: %w", err)\<close>. \<open>NilMapPanic\<close> is the run-time panic of a write to a nil map,
  which the controller runtime recovers and reports as the error of the reconcile.
  \<open>OutOfFuel\<close> is not an error of the code: it is the value of a loop of the model that has
  used up its fuel.
\<close>

datatype api_reason = NotFound | AlreadyExists | OtherReason

datatype go_error =
    ApiError api_reason string
  | ErrorString string
  | Wrapped string go_error
  | NilMapPanic
  | OutOfFuel

fun err_text :: "go_error \<Rightarrow> string" where
  "err_text (ApiError _ s) = s"
| "err_text (ErrorString s) = s"
| "err_text (Wrapped s e) = s @ '': '' @ err_text e"
| "err_text NilMapPanic = ''panic: assignment to entry in nil map [recovered]''"
| "err_text OutOfFuel = ''''"

text \<open>\<open>errors.IsNotFound\<close> and \<open>errors.IsAlreadyExists\<close> look through wrapping.\<close>

fun api_reason_of :: "go_error \<Rightarrow> api_reason option" where
  "api_reason_of (ApiError r _) = Some r"
| "api_reason_of (Wrapped _ e) = api_reason_of e"
| "api_reason_of _ = None"

definition is_not_found :: "go_error \<Rightarrow> bool" where
  "is_not_found e \<longleftrightarrow> api_reason_of e = Some NotFound"

definition is_already_exists :: "go_error \<Rightarrow> bool" where
  "is_already_exists e \<longleftrightarrow> api_reason_of e = Some AlreadyExists"

text \<open>\<open>client.IgnoreNotFound\<close>.\<close>

definition ignore_not_found :: "go_error \<Rightarrow> go_error option" where
  "ignore_not_found e = (if is_not_found e then None else Some e)"

lemma is_not_found_simps [simp]:
  "is_not_found (ApiError r s) \<longleftrightarrow> r = NotFound"
  "is_not_found (Wrapped s e) \<longleftrightarrow> is_not_found e"
  "\<not> is_not_found (ErrorString s)" "\<not> is_not_found NilMapPanic" "\<not> is_not_found OutOfFuel"
  by (auto simp: is_not_found_def)

lemma is_already_exists_simps [simp]:
  "is_already_exists (ApiError r s) \<longleftrightarrow> r = AlreadyExists"
  "is_already_exists (Wrapped s e) \<longleftrightarrow> is_already_exists e"
  "\<not> is_already_exists (ErrorString s)"
  "\<not> is_already_exists NilMapPanic" "\<not> is_already_exists OutOfFuel"
  by (auto simp: is_already_exists_def)

section \<open>The result of a reconcile\<close>

text \<open>\<open>ctrl.Result\<close>: durations are \<open>time.Duration\<close> values, integers counting nanoseconds.\<close>

record ctrl_result =
  requeue :: bool
  requeue_after :: int

type_synonym reply = "ctrl_result \<times> go_error option"

definition second :: int where
  "second = 1000000000"

definition millisecond :: int where
  "millisecond = 1000000"

abbreviation res_done :: ctrl_result where
  "res_done \<equiv> \<lparr>requeue = False, requeue_after = 0\<rparr>"

abbreviation res_requeue :: ctrl_result where
  "res_requeue \<equiv> \<lparr>requeue = True, requeue_after = 0\<rparr>"

abbreviation res_after :: "int \<Rightarrow> ctrl_result" where
  "res_after d \<equiv> \<lparr>requeue = False, requeue_after = d\<rparr>"

lemma second_pos [simp]: "0 < second"
  by (simp add: second_def)

end
