(* ===== verification/GoText.thy ===== *)
theory GoText
  imports Prelude
begin

text \<open>
  The text conversions of the Go standard library that the controller stores in the status
  of a migration: \<open>fmt.Sprintf("%d")\<close> and \<open>fmt.Sscanf("%d")\<close> for queue depths, \<open>%q\<close> in
  failure messages, and \<open>time.Duration\<close> with its \<open>Round\<close> and \<open>String\<close>.
  Strings are byte strings, as in Go.
\<close>

section \<open>Decimal numbers\<close>

definition digit_char :: "int \<Rightarrow> char" where
  "digit_char d =
     (if d = 9 then CHR ''9'' else if d = 8 then CHR ''8'' else if d = 7 then CHR ''7''
      else if d = 6 then CHR ''6'' else if d = 5 then CHR ''5'' else if d = 4 then CHR ''4''
      else if d = 3 then CHR ''3'' else if d = 2 then CHR ''2'' else if d = 1 then CHR ''1''
      else CHR ''0'')"

definition is_digit :: "char \<Rightarrow> bool" where
  "is_digit c \<longleftrightarrow> c \<in> set ''0123456789''"

definition digit_val :: "char \<Rightarrow> int" where
  "digit_val c =
     (if c = CHR ''9'' then 9 else if c = CHR ''8'' then 8 else if c = CHR ''7'' then 7
      else if c = CHR ''6'' then 6 else if c = CHR ''5'' then 5 else if c = CHR ''4'' then 4
      else if c = CHR ''3'' then 3 else if c = CHR ''2'' then 2 else if c = CHR ''1'' then 1
      else 0)"

function int_digits :: "int \<Rightarrow> string" where
  "int_digits n = (if n < 10 then [digit_char n] else int_digits (n div 10) @ [digit_char (n mod 10)])"
  by pat_completeness auto
termination
  by (relation "measure nat") auto

declare int_digits.simps [simp del]

text \<open>\<open>fmt.Sprintf("%d", i)\<close>.\<close>

definition show_int :: "int \<Rightarrow> string" where
  "show_int i = (if i < 0 then CHR ''-'' # int_digits (- i) else int_digits i)"

definition digits_val :: "string \<Rightarrow> int" where
  "digits_val ds = foldl (\<lambda>n c. 10 * n + digit_val c) 0 ds"

text \<open>
  \<open>fmt.Sscanf(s, "%d", &v)\<close>: leading blanks are skipped, an optional sign and a run of digits
  are read, the rest of the text is ignored; without a digit, or when the value does not fit
  an \<open>int\<close> of 64 bits, the variable keeps its old value.
\<close>

definition int64_ok :: "int \<Rightarrow> bool" where
  "int64_ok i \<longleftrightarrow> - (2 ^ 63) \<le> i \<and> i < 2 ^ 63"

definition sscanf_d :: "string \<Rightarrow> int \<Rightarrow> int" where
  "sscanf_d s old =
     (let t = dropWhile (\<lambda>c. c = CHR '' '') s;
          (neg, u) = (case t of [] \<Rightarrow> (False, [])
                      | c # r \<Rightarrow> if c = CHR ''-'' then (True, r)
                                 else if c = CHR ''+'' then (False, r) else (False, t));
          ds = takeWhile is_digit u;
          v = (if neg then - digits_val ds else digits_val ds)
      in if ds \<noteq> [] \<and> int64_ok v then v else old)"

lemma digit_range_cases: "0 \<le> d \<Longrightarrow> d < (10::int) \<Longrightarrow> d \<in> {0, 1, 2, 3, 4, 5, 6, 7, 8, 9}"
  by (simp only: insert_iff empty_iff) presburger

lemma is_digit_digit_char [simp]: "is_digit (digit_char d)"
  by (simp add: is_digit_def digit_char_def)

lemma digit_val_digit_char [simp]: "0 \<le> d \<Longrightarrow> d < 10 \<Longrightarrow> digit_val (digit_char d) = d"
  using digit_range_cases [of d] by (auto simp: digit_val_def digit_char_def)

lemma int_digits_all_digits: "list_all is_digit (int_digits n)"
proof (induction n rule: int_digits.induct)
  case (1 n)
  then show ?case by (subst int_digits.simps) simp
qed

lemma int_digits_not_Nil [simp]: "int_digits n \<noteq> []"
  by (subst int_digits.simps) simp

lemma digits_val_snoc: "digits_val (ds @ [c]) = 10 * digits_val ds + digit_val c"
  by (simp add: digits_val_def)

lemma digits_val_int_digits [simp]: "0 \<le> n \<Longrightarrow> digits_val (int_digits n) = n"
proof (induction n rule: int_digits.induct)
  case (1 n)
  show ?case
  proof (cases "n < 10")
    case True
    with "1.prems" show ?thesis by (subst int_digits.simps) (simp add: digits_val_def)
  next
    case False
    with 1 have "digits_val (int_digits (n div 10)) = n div 10" by simp
    with False show ?thesis by (subst int_digits.simps) (simp add: digits_val_snoc)
  qed
qed

lemma takeWhile_int_digits [simp]: "takeWhile is_digit (int_digits n) = int_digits n"
  using int_digits_all_digits [of n] by (simp add: takeWhile_eq_all_conv list_all_iff)

lemma int_digits_Cons: "\<exists>c cs. int_digits n = c # cs \<and> is_digit c"
  using int_digits_all_digits [of n] by (cases "int_digits n") (simp_all add: list_all_iff)

lemma not_digit_chars [simp]:
  "\<not> is_digit (CHR '' '')" "\<not> is_digit (CHR ''-'')" "\<not> is_digit (CHR ''+'')"
  "\<not> is_digit (CHR '':'')" "\<not> is_digit (CHR ''T'')" "\<not> is_digit (CHR ''Z'')"
  by (simp_all add: is_digit_def)

lemma sscanf_int_digits:
  assumes "0 \<le> n" and ok: "int64_ok n"
  shows "sscanf_d (int_digits n) old = n"
proof -
  obtain c cs where d: "int_digits n = c # cs" "is_digit c"
    using int_digits_Cons by blast
  have c: "c \<noteq> CHR '' ''" "c \<noteq> CHR ''-''" "c \<noteq> CHR ''+''"
    using d(2) by auto
  have "takeWhile is_digit (c # cs) = c # cs"
    using takeWhile_int_digits [of n] by (simp only: d(1))
  moreover have "digits_val (c # cs) = n"
    using digits_val_int_digits [of n] assms(1) by (simp only: d(1))
  ultimately show ?thesis
    using ok c by (simp add: sscanf_d_def d(1) Let_def)
qed

text \<open>What is written with \<open>%d\<close> is read back by \<open>%d\<close>, whatever the variable held before.\<close>

lemma sscanf_show_int: "int64_ok i \<Longrightarrow> sscanf_d (show_int i) old = i"
  by (cases "i < 0") (simp_all add: show_int_def sscanf_int_digits, simp add: sscanf_d_def)

section \<open>Quoting\<close>

text \<open>
  \<open>%q\<close> for byte strings of ASCII characters: printable characters stand for themselves, the
  quote and the backslash are escaped, control characters use their short escape or \<open>\x\<close> with two hex digits.
\<close>

definition hex_digit :: "int \<Rightarrow> char" where
  "hex_digit d =
     (if d < 10 then digit_char d else if d = 10 then CHR ''a'' else if d = 11 then CHR ''b''
      else if d = 12 then CHR ''c'' else if d = 13 then CHR ''d'' else if d = 14 then CHR ''e''
      else CHR ''f'')"

definition quote_char :: "char \<Rightarrow> string" where
  "quote_char c =
     (if c = CHR 0x22 then [CHR 0x5C, CHR 0x22]
      else if c = CHR 0x5C then [CHR 0x5C, CHR 0x5C]
      else if c = CHR 0x07 then [CHR 0x5C, CHR ''a'']
      else if c = CHR 0x08 then [CHR 0x5C, CHR ''b'']
      else if c = CHR 0x0C then [CHR 0x5C, CHR ''f'']
      else if c = CHR 0x0A then [CHR 0x5C, CHR ''n'']
      else if c = CHR 0x0D then [CHR 0x5C, CHR ''r'']
      else if c = CHR 0x09 then [CHR 0x5C, CHR ''t'']
      else if c = CHR 0x0B then [CHR 0x5C, CHR ''v'']
      else let n = (of_char c :: int) in
        if 32 \<le> n \<and> n < 127 then [c]
        else [CHR 0x5C, CHR ''x'', hex_digit (n div 16), hex_digit (n mod 16)])"

definition quote :: "string \<Rightarrow> string" where
  "quote s = [CHR 0x22] @ concat (map quote_char s) @ [CHR 0x22]"

section \<open>Durations\<close>

text \<open>\<open>time.Duration.Round\<close>: to the nearest multiple of \<open>m\<close>, halves away from zero.\<close>

definition duration_round :: "int \<Rightarrow> int \<Rightarrow> int" where
  "duration_round d m =
     (if m \<le> 0 then d
      else let r = \<bar>d\<bar> mod m in
        if d < 0 then (if r + r < m then d + r else d - m + r)
        else (if r + r < m then d - r else d + m - r))"

lemma duration_round_dvd: "0 < m \<Longrightarrow> m dvd duration_round d m"
proof -
  assume m: "0 < m"
  have a: "m dvd \<bar>d\<bar> - \<bar>d\<bar> mod m" by (rule dvd_minus_mod)
  show ?thesis
  proof (cases "d < 0")
    case True
    then have "d + \<bar>d\<bar> mod m = - (\<bar>d\<bar> - \<bar>d\<bar> mod m)" by simp
    with a have "m dvd d + \<bar>d\<bar> mod m" by (simp only: dvd_minus_iff)
    moreover from this have "m dvd d - m + \<bar>d\<bar> mod m"
      by (metis dvd_diff dvd_refl add_diff_eq diff_add_eq)
    ultimately show ?thesis using m True by (simp add: duration_round_def Let_def add.commute)
  next
    case False
    then have "m dvd d - \<bar>d\<bar> mod m" using a by simp
    moreover from this have "m dvd d + m - \<bar>d\<bar> mod m"
      by (metis dvd_add dvd_refl add_diff_eq add.commute)
    ultimately show ?thesis using m False by (simp add: duration_round_def Let_def)
  qed
qed

lemma duration_round_error: "0 < m \<Longrightarrow> 2 * \<bar>duration_round d m - d\<bar> \<le> m"
proof -
  assume m: "0 < m"
  define r where "r = \<bar>d\<bar> mod m"
  have "0 \<le> r" "r < m" using m by (simp_all add: r_def)
  then show ?thesis
    using m by (simp add: duration_round_def Let_def r_def [symmetric])
qed

text \<open>
  \<open>time.Duration.String\<close>: below a second the largest unit that leaves a digit before the
  point, otherwise hours, minutes and seconds. \<open>fmt_frac\<close> prints the last \<open>prec\<close> decimal
  digits as a fraction without its trailing zeros.
\<close>

fun frac_digits :: "int \<Rightarrow> nat \<Rightarrow> string" where
  "frac_digits v 0 = []"
| "frac_digits v (Suc p) = frac_digits (v div 10) p @ [digit_char (v mod 10)]"

definition drop_zeros :: "string \<Rightarrow> string" where
  "drop_zeros s = rev (dropWhile (\<lambda>c. c = CHR ''0'') (rev s))"

definition fmt_frac :: "int \<Rightarrow> nat \<Rightarrow> string" where
  "fmt_frac v prec = (let s = drop_zeros (frac_digits v prec) in if s = [] then [] else CHR ''.'' # s)"

definition sub_second_string :: "int \<Rightarrow> string" where
  "sub_second_string u =
     (if u = 0 then ''0s''
      else if u < 1000 then int_digits u @ ''ns''
      else if u < 1000000 then int_digits (u div 1000) @ fmt_frac u 3 @ [CHR 0xC2, CHR 0xB5, CHR ''s'']
      else int_digits (u div 1000000) @ fmt_frac u 6 @ ''ms'')"

definition second_string :: "int \<Rightarrow> string" where
  "second_string u =
     (let s = u div 1000000000;
          secs = int_digits (s mod 60) @ fmt_frac u 9 @ ''s'';
          mins = s div 60
      in if mins = 0 then secs
         else let ms = int_digits (mins mod 60) @ ''m'' @ secs; hours = mins div 60
              in if hours = 0 then ms else int_digits hours @ ''h'' @ ms)"

definition duration_string :: "int \<Rightarrow> string" where
  "duration_string d =
     (let u = \<bar>d\<bar>; s = (if u < 1000000000 then sub_second_string u else second_string u)
      in if d < 0 then CHR ''-'' # s else s)"

end
