(* ===== verification/GoTime.thy ===== *)
theory GoTime
  imports GoText
begin

text \<open>
  Wall-clock times as the controller keeps them in the status: \<open>time.Now().Format(time.RFC3339)\<close>
  writes a time stamp with the resolution of a second and \<open>time.Parse(time.RFC3339, s)\<close> reads
  it back. A \<open>time.Time\<close> is its number of nanoseconds since the Unix epoch. The process runs in
  UTC, so the zone is always printed as \<open>Z\<close>; \<open>rfc3339_parse\<close> reads that form with the range
  checks of the library, and fails on every other text.
\<close>

section \<open>The calendar\<close>

definition leap_year :: "int \<Rightarrow> bool" where
  "leap_year y \<longleftrightarrow> y mod 4 = 0 \<and> (y mod 100 \<noteq> 0 \<or> y mod 400 = 0)"

text \<open>Days from 0000-01-01 to the first of January of the year \<open>y\<close>.\<close>

definition days_before_year :: "int \<Rightarrow> int" where
  "days_before_year y = 365 * y + (y + 3) div 4 - (y + 99) div 100 + (y + 399) div 400"

definition month_lengths :: "int \<Rightarrow> int list" where
  "month_lengths y =
     [31, if leap_year y then 29 else 28, 31, 30, 31, 30, 31, 31, 30, 31, 30, 31]"

definition year_of_day :: "int \<Rightarrow> int" where
  "year_of_day d = (let q = (400 * d) div 146097 in
     if d < days_before_year q then q - 1
     else if days_before_year (q + 1) \<le> d then q + 1 else q)"

fun find_month :: "int list \<Rightarrow> int \<Rightarrow> int \<Rightarrow> int \<times> int" where
  "find_month [] m d = (m, d + 1)"
| "find_month (l # ls) m d = (if d < l then (m, d + 1) else find_month ls (m + 1) (d - l))"

definition days_in_month :: "int \<Rightarrow> int \<Rightarrow> int" where
  "days_in_month y m = month_lengths y ! nat (m - 1)"

definition day_of_date :: "int \<Rightarrow> int \<Rightarrow> int \<Rightarrow> int" where
  "day_of_date y m d =
     days_before_year y + sum_list (take (nat (m - 1)) (month_lengths y)) + d - 1"

lemma div_bounds:
  assumes "0 < n"
  shows "n * (x div n) \<le> (x::int)" "x < n * (x div n) + n"
proof -
  have "x = n * (x div n) + x mod n" by simp
  moreover have "0 \<le> x mod n" "x mod n < n" using assms by simp_all
  ultimately show "n * (x div n) \<le> x" "x < n * (x div n) + n"
    by linarith+
qed

lemmas div_bounds_num = div_bounds [OF zero_less_numeral]

lemma days_before_year_bounds:
  shows "146097 * y - 396 \<le> 400 * days_before_year y"
    and "400 * days_before_year y \<le> 146097 * y + 699"
proof -
  have "4 * ((y + 3) div 4) \<le> y + 3" "y + 3 < 4 * ((y + 3) div 4) + 4"
    "100 * ((y + 99) div 100) \<le> y + 99" "y + 99 < 100 * ((y + 99) div 100) + 100"
    "400 * ((y + 399) div 400) \<le> y + 399" "y + 399 < 400 * ((y + 399) div 400) + 400"
    by (rule div_bounds_num)+
  then show "146097 * y - 396 \<le> 400 * days_before_year y" "400 * days_before_year y \<le> 146097 * y + 699"
    by (simp_all add: days_before_year_def algebra_simps)
qed

lemma year_of_day_bounds:
  "days_before_year (year_of_day d) \<le> d" "d < days_before_year (year_of_day d + 1)"
proof -
  define q where "q = (400 * d) div 146097"
  have q: "146097 * q \<le> 400 * d" "400 * d < 146097 * (q + 1)"
    using div_bounds_num [where x = "400 * d"] by (simp_all add: q_def)
  have "days_before_year (q - 1) \<le> d"
    using q days_before_year_bounds(2) [of "q - 1"] by (simp add: algebra_simps)
  moreover have "d < days_before_year (q + 2)"
    using q days_before_year_bounds(1) [of "q + 2"] by (simp add: algebra_simps)
  ultimately show "days_before_year (year_of_day d) \<le> d" "d < days_before_year (year_of_day d + 1)"
    by (auto simp: year_of_day_def Let_def q_def [symmetric] add.commute [of 2 q])
qed

lemma div_step:
  assumes "0 < (k::int)" "j = k - 1"
  shows "y div k + 1 = (y + j) div k + (if y mod k = 0 then 1 else 0)"
proof -
  define q where "q = y div k"
  define r where "r = y mod k"
  have y: "y = k * q + r" "0 \<le> r" "r < k" using assms(1) by (simp_all add: q_def r_def)
  have "(y + j) div k = (if r = 0 then q else q + 1)"
  proof (cases "r = 0")
    case True
    have "(y + j) div k = q"
      using y assms True by (intro int_div_pos_eq [of _ _ _ "k - 1"]) (simp_all add: algebra_simps)
    with True show ?thesis by simp
  next
    case False
    have "(y + j) div k = q + 1"
      using y assms False by (intro int_div_pos_eq [of _ _ _ "r - 1"]) (simp_all add: algebra_simps)
    with False show ?thesis by simp
  qed
  then show ?thesis by (simp add: q_def r_def)
qed

lemma leap_count:
  assumes "p100 \<Longrightarrow> p4" "p400 \<Longrightarrow> p100"
  shows "365 * (y + 1) + (b4 + (if p4 then 1 else 0)) - (b100 + (if p100 then 1 else 0)) +
      (b400 + (if p400 then 1 else 0)) =
    365 * y + b4 - b100 + b400 + (if p4 \<and> (\<not> p100 \<or> p400) then 366 else (365::int))"
  using assms by (cases p4; cases p100; cases p400) simp_all

lemma days_before_year_Suc:
  "days_before_year (y + 1) = days_before_year y + (if leap_year y then 366 else 365)"
proof -
  have "y mod 100 = 0 \<Longrightarrow> y mod 4 = 0" "y mod 400 = 0 \<Longrightarrow> y mod 100 = 0"
    using dvd_trans [of 4 100 y] dvd_trans [of 100 400 y] by (simp_all add: mod_eq_0_iff_dvd)
  moreover have "y div 4 + 1 = (y + 3) div 4 + (if y mod 4 = 0 then 1 else 0)"
    "y div 100 + 1 = (y + 99) div 100 + (if y mod 100 = 0 then 1 else 0)"
    "y div 400 + 1 = (y + 399) div 400 + (if y mod 400 = 0 then 1 else 0)"
    by (rule div_step; simp)+
  moreover have "y + 1 + 3 = y + 4" "y + 1 + 99 = y + 100" "y + 1 + 399 = y + 400" by simp_all
  moreover have "(y + 4) div 4 = y div 4 + 1" "(y + 100) div 100 = y div 100 + 1"
    "(y + 400) div 400 = y div 400 + 1"
    by (rule div_add_self2, simp)+
  ultimately show ?thesis
    unfolding days_before_year_def leap_year_def
    by (simp only:) (intro leap_count)
qed

lemma find_month_correct:
  assumes "0 \<le> n" "n < (if leap_year y then 366 else 365)"
    and "find_month (month_lengths y) 1 n = (m, d)"
  shows "1 \<le> m \<and> m \<le> 12 \<and> 1 \<le> d \<and> d \<le> days_in_month y m \<and>
         sum_list (take (nat (m - 1)) (month_lengths y)) + d - 1 = n"
  using assms
  by (auto simp: month_lengths_def days_in_month_def nth_Cons' take_Cons' split: if_splits)

section \<open>Formatting and parsing\<close>

definition pad2 :: "int \<Rightarrow> string" where
  "pad2 n = [digit_char (n div 10), digit_char (n mod 10)]"

definition pad4 :: "int \<Rightarrow> string" where
  "pad4 n = [digit_char (n div 1000), digit_char (n div 100 mod 10),
             digit_char (n div 10 mod 10), digit_char (n mod 10)]"

definition year_string :: "int \<Rightarrow> string" where
  "year_string y =
     (let s = (if \<bar>y\<bar> < 10000 then pad4 \<bar>y\<bar> else int_digits \<bar>y\<bar>) in if y < 0 then CHR ''-'' # s else s)"

text \<open>Days from 0000-01-01 to 1970-01-01.\<close>

definition unix_epoch_day :: int where
  "unix_epoch_day = 719528"

definition rfc3339_format :: "int \<Rightarrow> string" where
  "rfc3339_format t =
     (let s = t div 1000000000;
          day = s div 86400 + unix_epoch_day;
          sod = s mod 86400;
          y = year_of_day day;
          (m, d) = find_month (month_lengths y) 1 (day - days_before_year y)
      in year_string y @ ''-'' @ pad2 m @ ''-'' @ pad2 d @ ''T'' @
         pad2 (sod div 3600) @ '':'' @ pad2 (sod div 60 mod 60) @ '':'' @ pad2 (sod mod 60) @ ''Z'')"

text \<open>The part \<open>s[a:b]\<close> of a text, read as an unsigned number of digits.\<close>

definition substr :: "nat \<Rightarrow> nat \<Rightarrow> string \<Rightarrow> string" where
  "substr a b s = take (b - a) (drop a s)"

definition rfc3339_parse :: "string \<Rightarrow> int option" where
  "rfc3339_parse t =
     (if length t = 20 then
        let y = digits_val (substr 0 4 t); m = digits_val (substr 5 7 t); d = digits_val (substr 8 10 t);
            h = digits_val (substr 11 13 t); i = digits_val (substr 14 16 t); s = digits_val (substr 17 19 t)
        in if list_all is_digit (substr 0 4 t) \<and> list_all is_digit (substr 5 7 t) \<and>
              list_all is_digit (substr 8 10 t) \<and> list_all is_digit (substr 11 13 t) \<and>
              list_all is_digit (substr 14 16 t) \<and> list_all is_digit (substr 17 19 t) \<and>
              t ! 4 = CHR ''-'' \<and> t ! 7 = CHR ''-'' \<and> t ! 10 = CHR ''T'' \<and>
              t ! 13 = CHR '':'' \<and> t ! 16 = CHR '':'' \<and> t ! 19 = CHR ''Z'' \<and>
              1 \<le> m \<and> m \<le> 12 \<and> 1 \<le> d \<and> d \<le> days_in_month y m \<and> h \<le> 23 \<and> i \<le> 59 \<and> s \<le> 59
           then Some (((day_of_date y m d - unix_epoch_day) * 86400 + h * 3600 + i * 60 + s) * 1000000000)
           else None
      else None)"

lemma rfc3339_parse_explicit:
  "rfc3339_parse [y1, y2, y3, y4, p1, m1, m2, p2, d1, d2, p3, h1, h2, p4, i1, i2, p5, s1, s2, z] =
     (let y = digits_val [y1, y2, y3, y4]; m = digits_val [m1, m2]; d = digits_val [d1, d2];
          h = digits_val [h1, h2]; i = digits_val [i1, i2]; s = digits_val [s1, s2]
      in if list_all is_digit [y1, y2, y3, y4] \<and> list_all is_digit [m1, m2] \<and>
            list_all is_digit [d1, d2] \<and> list_all is_digit [h1, h2] \<and>
            list_all is_digit [i1, i2] \<and> list_all is_digit [s1, s2] \<and>
            p1 = CHR ''-'' \<and> p2 = CHR ''-'' \<and> p3 = CHR ''T'' \<and>
            p4 = CHR '':'' \<and> p5 = CHR '':'' \<and> z = CHR ''Z'' \<and>
            1 \<le> m \<and> m \<le> 12 \<and> 1 \<le> d \<and> d \<le> days_in_month y m \<and> h \<le> 23 \<and> i \<le> 59 \<and> s \<le> 59
         then Some (((day_of_date y m d - unix_epoch_day) * 86400 + h * 3600 + i * 60 + s) * 1000000000)
         else None)"
  by (simp only: rfc3339_parse_def substr_def) (simp only: list.size nth_Cons_numeral take_Cons_numeral
      drop_Cons_numeral drop_0 take_0 nth_Cons_0 pred_numeral_simps numeral_eq_iff diff_numeral_simps, simp)

text \<open>The times whose year has four digits.\<close>

definition time_ok :: "int \<Rightarrow> bool" where
  "time_ok t \<longleftrightarrow> 0 \<le> t div 1000000000 div 86400 + unix_epoch_day \<and>
     t div 1000000000 div 86400 + unix_epoch_day < days_before_year 10000"

lemma digits_val_pad2: "0 \<le> n \<Longrightarrow> n < 100 \<Longrightarrow>
    digits_val [digit_char (n div 10), digit_char (n mod 10)] = n"
  by (simp add: digits_val_def)

lemma digits_val_pad4:
  assumes "0 \<le> n" "n < 10000"
  shows "digits_val [digit_char (n div 1000), digit_char (n div 100 mod 10),
           digit_char (n div 10 mod 10), digit_char (n mod 10)] = n"
proof -
  have e: "n div 100 = n div 10 div 10" "n div 1000 = n div 10 div 10 div 10"
    by simp_all
  have "n = 10 * (n div 10) + n mod 10" "n div 10 = 10 * (n div 10 div 10) + n div 10 mod 10"
    "n div 10 div 10 = 10 * (n div 10 div 10 div 10) + n div 10 div 10 mod 10"
    by simp_all
  then have "1000 * (n div 1000) + 100 * (n div 100 mod 10) + 10 * (n div 10 mod 10) + n mod 10 = n"
    unfolding e by linarith
  moreover have "0 \<le> n div 1000" "n div 1000 < 10" using assms by simp_all
  then have "digits_val [digit_char (n div 1000), digit_char (n div 100 mod 10),
      digit_char (n div 10 mod 10), digit_char (n mod 10)] =
    10 * (10 * (10 * (n div 1000) + n div 100 mod 10) + n div 10 mod 10) + n mod 10"
    by (simp add: digits_val_def)
  ultimately show ?thesis by (simp only: distrib_left)
qed

lemma days_before_year_mono_step: "y \<le> z \<Longrightarrow> days_before_year y \<le> days_before_year z"
proof (induction z rule: int_ge_induct)
  case base
  then show ?case by simp
next
  case (step z)
  then show ?case by (simp add: days_before_year_Suc)
qed

lemma year_of_day_range:
  assumes "0 \<le> d" "d < days_before_year 10000"
  shows "0 \<le> year_of_day d" "year_of_day d < 10000"
proof -
  show "0 \<le> year_of_day d"
  proof (rule ccontr)
    assume "\<not> 0 \<le> year_of_day d"
    then have "days_before_year (year_of_day d + 1) \<le> days_before_year 0"
      by (intro days_before_year_mono_step) simp
    then show False
      using year_of_day_bounds(2) [of d] assms(1) by (simp add: days_before_year_def)
  qed
  show "year_of_day d < 10000"
    using days_before_year_mono_step [of 10000 "year_of_day d"] year_of_day_bounds(1) [of d] assms(2)
    by linarith
qed

text \<open>
  A time stamp written with \<open>Format\<close> is read back by \<open>Parse\<close> as the same time, cut to the second.
\<close>

lemma rfc3339_roundtrip:
  assumes "time_ok t"
  shows "rfc3339_parse (rfc3339_format t) = Some (t div 1000000000 * 1000000000)"
proof -
  define s where "s = t div 1000000000"
  define day where "day = s div 86400 + unix_epoch_day"
  define sod where "sod = s mod 86400"
  define y where "y = year_of_day day"
  obtain m d where md: "find_month (month_lengths y) 1 (day - days_before_year y) = (m, d)"
    by fastforce
  have "0 \<le> day" "day < days_before_year 10000"
    using assms by (simp_all add: time_ok_def day_def s_def)
  then have y: "0 \<le> y" "y < 10000" unfolding y_def by (rule year_of_day_range)+
  have "0 \<le> day - days_before_year y" "day - days_before_year y < (if leap_year y then 366 else 365)"
    using year_of_day_bounds [of day] by (simp_all add: y_def [symmetric] days_before_year_Suc)
  from find_month_correct [OF this md]
  have fm: "1 \<le> m" "m \<le> 12" "1 \<le> d" "d \<le> days_in_month y m" "day_of_date y m d = day"
    by (simp_all add: day_of_date_def)
  have "d \<le> 31"
  proof -
    have "nat (m - 1) < length (month_lengths y)" using fm(1,2) by (simp add: month_lengths_def)
    then have "days_in_month y m \<in> set (month_lengths y)" unfolding days_in_month_def by (rule nth_mem)
    then have "days_in_month y m \<le> 31" by (auto simp: month_lengths_def split: if_splits)
    then show ?thesis using fm(4) by linarith
  qed
  have sod: "0 \<le> sod" "sod < 86400" by (simp_all add: sod_def)
  have parts: "0 \<le> sod div 3600" "sod div 3600 \<le> 23" "0 \<le> sod div 60 mod 60" "sod div 60 mod 60 \<le> 59"
    "0 \<le> sod mod 60" "sod mod 60 \<le> 59" using sod by simp_all
  have "sod div 3600 = sod div 60 div 60" by simp
  moreover have "sod = 60 * (sod div 60) + sod mod 60" by simp
  moreover have "sod div 60 = 60 * (sod div 60 div 60) + sod div 60 mod 60" by simp
  ultimately have "sod div 3600 * 3600 + sod div 60 mod 60 * 60 + sod mod 60 = sod" by linarith
  moreover have "(day - unix_epoch_day) * 86400 + sod = s"
    by (simp add: day_def sod_def)
  ultimately have total: "(day - unix_epoch_day) * 86400 + sod div 3600 * 3600 + sod div 60 mod 60 * 60 + sod mod 60 = s"
    by linarith
  have fmt: "rfc3339_format t = pad4 y @ ''-'' @ pad2 m @ ''-'' @ pad2 d @ ''T'' @
      pad2 (sod div 3600) @ '':'' @ pad2 (sod div 60 mod 60) @ '':'' @ pad2 (sod mod 60) @ ''Z''"
    unfolding rfc3339_format_def
    using md y by (simp add: Let_def s_def [symmetric] day_def [symmetric] sod_def [symmetric]
        y_def [symmetric] year_string_def)
  note vals = digits_val_pad4 [OF y] digits_val_pad2 [of m] digits_val_pad2 [of d]
    digits_val_pad2 [OF parts(1)] digits_val_pad2 [OF parts(3)] digits_val_pad2 [OF parts(5)]
  have small: "0 \<le> m" "m < 100" "0 \<le> d" "d < 100" "sod div 3600 < 100"
    "sod div 60 mod 60 < 100" "sod mod 60 < 100"
    using fm(1-3) \<open>d \<le> 31\<close> parts by linarith+
  have "rfc3339_parse (rfc3339_format t) =
      Some (((day_of_date y m d - unix_epoch_day) * 86400 + sod div 3600 * 3600 +
        sod div 60 mod 60 * 60 + sod mod 60) * 1000000000)"
    unfolding fmt pad2_def pad4_def append.simps rfc3339_parse_explicit Let_def
    by (simp only: vals small fm(1-4) parts list.pred_inject is_digit_digit_char simp_thms if_True)
  then show ?thesis by (simp only: fm(5) total s_def)
qed

lemma time_ok_mono: "time_ok a \<Longrightarrow> time_ok b \<Longrightarrow> a \<le> t \<Longrightarrow> t \<le> b \<Longrightarrow> time_ok t"
  unfolding time_ok_def by (meson order_trans le_less_trans zdiv_mono1 add_right_mono zero_less_numeral)

end
