(* ===== verification/KubeTypes.thy ===== *)
theory KubeTypes
  imports GoTime
begin

text \<open>
  The data of the program: the custom resource of \<open>api/v1alpha1/types.go\<close>, field by field,
  and of the Kubernetes objects the controller touches the fields it reads or writes.
  Phases, sub-phases and modes are strings, as in the code, so that values the code does not
  know are values of the model. A pointer that may be nil is an option. The map
  \<open>PhaseTimings\<close> may be nil (\<open>None\<close>): reading and deleting are harmless then, writing panics.
\<close>

section \<open>Phases\<close>

abbreviation PhasePending :: string where "PhasePending \<equiv> ''Pending''"
abbreviation PhaseCheckpointing :: string where "PhaseCheckpointing \<equiv> ''Checkpointing''"
abbreviation PhaseTransferring :: string where "PhaseTransferring \<equiv> ''Transferring''"
abbreviation PhaseRestoring :: string where "PhaseRestoring \<equiv> ''Restoring''"
abbreviation PhaseReplaying :: string where "PhaseReplaying \<equiv> ''Replaying''"
abbreviation PhaseFinalizing :: string where "PhaseFinalizing \<equiv> ''Finalizing''"
abbreviation PhaseCompleted :: string where "PhaseCompleted \<equiv> ''Completed''"
abbreviation PhaseFailed :: string where "PhaseFailed \<equiv> ''Failed''"

section \<open>Kubernetes objects\<close>

record owner_ref =
  ref_apiVersion :: string
  ref_kind :: string
  ref_name :: string
  ref_uid :: string
  ref_controller :: bool

record env_var =
  env_name :: string
  env_value :: string

record volume_mount =
  vm_name :: string
  vm_mountPath :: string
  vm_readOnly :: bool

record security_context =
  sc_privileged :: "bool option"
  sc_runAsUser :: "int option"
  sc_runAsGroup :: "int option"

text \<open>A container port is kept as its name and number; the code only copies ports.\<close>

record container =
  c_name :: string
  c_image :: string
  c_imagePullPolicy :: string
  c_ports :: "(string \<times> int) list"
  c_env :: "env_var list"
  c_args :: "string list"
  c_volumeMounts :: "volume_mount list"
  c_securityContext :: "security_context option"

record pod =
  pod_name :: string
  pod_namespace :: string
  pod_labels :: smap
  pod_annotations :: smap
  pod_ownerReferences :: "owner_ref list"
  pod_deletionTimestamp :: "int option"
  pod_nodeName :: string
  pod_containers :: "container list"
  pod_phase :: string
  pod_podIP :: string

text \<open>A volume backed by a host path: its name and the path.\<close>

record job =
  job_name :: string
  job_namespace :: string
  job_labels :: smap
  job_ownerReferences :: "owner_ref list"
  job_restartPolicy :: string
  job_nodeSelector :: smap
  job_containers :: "container list"
  job_volumes :: "(string \<times> string) list"
  job_succeeded :: int
  job_failed :: int

record statefulset =
  sts_name :: string
  sts_namespace :: string
  sts_replicas :: "int option"
  sts_nodeSelector :: smap
  sts_updateRevision :: string

record replicaset =
  rs_name :: string
  rs_namespace :: string
  rs_ownerReferences :: "owner_ref list"

text \<open>A required node-affinity term: its requirements as key, operator and values.\<close>

type_synonym node_affinity = "(string \<times> string \<times> string list) list list"

text \<open>The affinity of a pod template; the pod (anti-)affinities are carried along unread.\<close>

record affinity =
  aff_nodeAffinity :: "node_affinity option"
  aff_podAffinity :: string
  aff_podAntiAffinity :: string

record deployment =
  dep_name :: string
  dep_namespace :: string
  dep_affinity :: "affinity option"

record condition =
  cond_type :: string
  cond_status :: string
  cond_reason :: string
  cond_message :: string
  cond_lastTransitionTime :: int

section \<open>The custom resource\<close>

record MessageQueueConfig =
  queueName :: string
  brokerURL :: string
  exchangeName :: string
  routingKey :: string

record StatefulMigrationSpec =
  spec_sourcePod :: string
  spec_containerName :: string
  spec_targetNode :: string
  spec_checkpointImageRepository :: string
  spec_replayCutoffSeconds :: int
  spec_replayMode :: string
  spec_messageQueueConfig :: MessageQueueConfig
  spec_migrationStrategy :: string
  spec_transferMode :: string
  spec_identitySwapMode :: string

record StatefulMigrationStatus =
  st_phase :: string
  st_sourceNode :: string
  st_checkpointID :: string
  st_targetPod :: string
  st_containerName :: string
  st_conditions :: "condition list"
  st_startTime :: "int option"
  st_phaseTimings :: "smap option"
  st_statefulSetName :: string
  st_deploymentName :: string
  st_originalReplicas :: int
  st_sourcePodLabels :: smap
  st_sourceContainers :: "container list"
  st_swapSubPhase :: string
  st_replacementPod :: string

record StatefulMigration =
  mig_name :: string
  mig_namespace :: string
  mig_uid :: string
  mig_spec :: StatefulMigrationSpec
  mig_status :: StatefulMigrationStatus

text \<open>Short names for the fields the handlers read through \<open>m.Spec\<close> and \<open>m.Status\<close>.\<close>

abbreviation phase :: "StatefulMigration \<Rightarrow> string" where
  "phase m \<equiv> st_phase (mig_status m)"

abbreviation subPhase :: "StatefulMigration \<Rightarrow> string" where
  "subPhase m \<equiv> st_swapSubPhase (mig_status m)"

abbreviation sourcePod :: "StatefulMigration \<Rightarrow> string" where
  "sourcePod m \<equiv> spec_sourcePod (mig_spec m)"

abbreviation targetNode :: "StatefulMigration \<Rightarrow> string" where
  "targetNode m \<equiv> spec_targetNode (mig_spec m)"

abbreviation strategy :: "StatefulMigration \<Rightarrow> string" where
  "strategy m \<equiv> spec_migrationStrategy (mig_spec m)"

abbreviation mqCfg :: "StatefulMigration \<Rightarrow> MessageQueueConfig" where
  "mqCfg m \<equiv> spec_messageQueueConfig (mig_spec m)"

text \<open>Assignments to a field of the in-memory status or spec.\<close>

abbreviation set_status :: "(StatefulMigrationStatus \<Rightarrow> StatefulMigrationStatus) \<Rightarrow>
    StatefulMigration \<Rightarrow> StatefulMigration" where
  "set_status f m \<equiv> mig_status_update f m"

abbreviation set_phase :: "string \<Rightarrow> StatefulMigration \<Rightarrow> StatefulMigration" where
  "set_phase p m \<equiv> mig_status_update (st_phase_update (\<lambda>_. p)) m"

abbreviation set_subPhase :: "string \<Rightarrow> StatefulMigration \<Rightarrow> StatefulMigration" where
  "set_subPhase p m \<equiv> mig_status_update (st_swapSubPhase_update (\<lambda>_. p)) m"

section \<open>The phase timings\<close>

definition timing_get :: "string \<Rightarrow> StatefulMigration \<Rightarrow> string option" where
  "timing_get k m = (case st_phaseTimings (mig_status m) of None \<Rightarrow> None | Some t \<Rightarrow> map_of t k)"

text \<open>\<open>m.Status.PhaseTimings[k] = v\<close>: no result when the map is nil, as the code panics.\<close>

definition timing_put :: "string \<Rightarrow> string \<Rightarrow> StatefulMigration \<Rightarrow> StatefulMigration option" where
  "timing_put k v m = (case st_phaseTimings (mig_status m) of None \<Rightarrow> None
     | Some t \<Rightarrow> Some (set_status (st_phaseTimings_update (\<lambda>_. Some (sm_put k v t))) m))"

text \<open>\<open>delete(m.Status.PhaseTimings, k)\<close>.\<close>

definition timing_del :: "string \<Rightarrow> StatefulMigration \<Rightarrow> StatefulMigration" where
  "timing_del k m = set_status (st_phaseTimings_update (map_option (sm_del k))) m"

definition ensurePhaseTimings :: "StatefulMigration \<Rightarrow> StatefulMigration" where
  "ensurePhaseTimings m = (case st_phaseTimings (mig_status m) of
     None \<Rightarrow> set_status (st_phaseTimings_update (\<lambda>_. Some [])) m | Some _ \<Rightarrow> m)"

text \<open>
  \<open>same_but_timings a b\<close>: the two objects agree on everything but the phase timings. All
  timing operations keep to it, which is how the component proofs see them.
\<close>

definition same_but_timings :: "StatefulMigration \<Rightarrow> StatefulMigration \<Rightarrow> bool" where
  "same_but_timings a b \<longleftrightarrow>
     set_status (st_phaseTimings_update (\<lambda>_. None)) a = set_status (st_phaseTimings_update (\<lambda>_. None)) b"

lemma same_but_timingsD:
  assumes "same_but_timings a b"
  shows "phase a = phase b" "subPhase a = subPhase b" "mig_spec a = mig_spec b"
    "mig_name a = mig_name b" "mig_namespace a = mig_namespace b"
    "st_originalReplicas (mig_status a) = st_originalReplicas (mig_status b)"
    "st_targetPod (mig_status a) = st_targetPod (mig_status b)"
    "st_replacementPod (mig_status a) = st_replacementPod (mig_status b)"
    "st_statefulSetName (mig_status a) = st_statefulSetName (mig_status b)"
  using assms unfolding same_but_timings_def
  by (cases a; cases b; simp; cases "mig_status a"; cases "mig_status b"; simp)+

lemma timing_put_same: "timing_put k v m = Some m' \<Longrightarrow> same_but_timings m' m"
  by (auto simp: timing_put_def same_but_timings_def comp_def split: option.splits)

lemma timing_del_same: "same_but_timings (timing_del k m) m"
  by (simp add: timing_del_def same_but_timings_def comp_def)

lemma ensure_same: "same_but_timings (ensurePhaseTimings m) m"
  by (auto simp: ensurePhaseTimings_def same_but_timings_def comp_def split: option.splits)

lemma timing_del_simps [simp]:
  "phase (timing_del k m) = phase m" "subPhase (timing_del k m) = subPhase m"
  "mig_spec (timing_del k m) = mig_spec m" "mig_name (timing_del k m) = mig_name m"
  "mig_namespace (timing_del k m) = mig_namespace m"
  by (simp_all add: timing_del_def)

lemma ensure_simps [simp]:
  "phase (ensurePhaseTimings m) = phase m" "subPhase (ensurePhaseTimings m) = subPhase m"
  "mig_spec (ensurePhaseTimings m) = mig_spec m" "mig_name (ensurePhaseTimings m) = mig_name m"
  "mig_namespace (ensurePhaseTimings m) = mig_namespace m"
  by (simp_all add: ensurePhaseTimings_def split: option.splits)

lemma timing_put_simps:
  assumes "timing_put k v m = Some m'"
  shows "phase m' = phase m" "subPhase m' = subPhase m" "mig_spec m' = mig_spec m"
    "mig_name m' = mig_name m" "mig_namespace m' = mig_namespace m"
  using assms by (auto simp: timing_put_def split: option.splits)

lemma timing_put_ensure: "\<exists>m'. timing_put k v (ensurePhaseTimings m) = Some m'"
  by (auto simp: timing_put_def ensurePhaseTimings_def split: option.splits)

lemma timing_get_put: "timing_put k v m = Some m' \<Longrightarrow>
    timing_get k' m' = (if k' = k then Some v else timing_get k' m)"
  by (auto simp: timing_put_def timing_get_def split: option.splits)

lemma timing_get_del [simp]: "timing_get k' (timing_del k m) = (if k' = k then None else timing_get k' m)"
  by (auto simp: timing_del_def timing_get_def split: option.splits)

lemma timing_get_ensure [simp]: "timing_get k (ensurePhaseTimings m) = timing_get k m"
  by (auto simp: ensurePhaseTimings_def timing_get_def split: option.splits)

end
