(* ===== verification/Broker.thy ===== *)
theory Broker
  imports KubeTypes
begin

text \<open>
  The broker interface of \<open>internal/messaging/client.go\<close>: a record with one operation per
  method of \<open>BrokerClient\<close>, each a function on the state of the client. The locale
  \<open>broker_contract\<close> states what every implementation promises and what the controller
  silently uses; the two implementations of the repository are models of it
  (theories \<open>MockBroker\<close> and \<open>RabbitMQ\<close>).
\<close>

datatype ControlMessageType = ControlStartReplay | ControlEndReplay

fun control_type_string :: "ControlMessageType \<Rightarrow> string" where
  "control_type_string ControlStartReplay = ''START_REPLAY''"
| "control_type_string ControlEndReplay = ''END_REPLAY''"

text \<open>A control payload is a map with string values, or nil.\<close>

type_synonym payload = "smap option"

record 'b broker_client =
  br_connect :: "string \<Rightarrow> 'b \<Rightarrow> go_error option \<times> 'b"
  br_close :: "'b \<Rightarrow> go_error option \<times> 'b"
  br_createSecondaryQueue :: "string \<Rightarrow> string \<Rightarrow> string \<Rightarrow> 'b \<Rightarrow> (go_error + string) \<times> 'b"
  br_unbindQueue :: "string \<Rightarrow> string \<Rightarrow> 'b \<Rightarrow> go_error option \<times> 'b"
  br_deleteSecondaryQueue :: "string \<Rightarrow> string \<Rightarrow> string \<Rightarrow> 'b \<Rightarrow> go_error option \<times> 'b"
  br_getQueueDepth :: "string \<Rightarrow> 'b \<Rightarrow> (go_error + int) \<times> 'b"
  br_sendControlMessage :: "string \<Rightarrow> ControlMessageType \<Rightarrow> payload \<Rightarrow> 'b \<Rightarrow> go_error option \<times> 'b"
  br_bindQueue :: "string \<Rightarrow> string \<Rightarrow> string \<Rightarrow> 'b \<Rightarrow> go_error option \<times> 'b"
  br_purgeQueue :: "string \<Rightarrow> 'b \<Rightarrow> go_error option \<times> 'b"
  br_getQueueStats :: "string \<Rightarrow> 'b \<Rightarrow> (go_error + int \<times> int) \<times> 'b"
  br_declareAndBindQueue :: "string \<Rightarrow> string \<Rightarrow> 'b \<Rightarrow> go_error option \<times> 'b"
  br_deleteQueue :: "string \<Rightarrow> 'b \<Rightarrow> go_error option \<times> 'b"

definition replay_queue :: "string \<Rightarrow> string" where
  "replay_queue q = q @ ''.ms2m-replay''"

definition fence_buffer_queue :: "string \<Rightarrow> string" where
  "fence_buffer_queue q = q @ ''.ms2m-fence-buffer''"

text \<open>The queues of one migration are pairwise different, whatever the primary queue is called.\<close>

lemma migration_queues_distinct:
  "replay_queue q \<noteq> q" "fence_buffer_queue q \<noteq> q" "replay_queue q \<noteq> fence_buffer_queue q"
  by (simp_all add: replay_queue_def fence_buffer_queue_def)

lemmas queue_distinct = migration_queues_distinct migration_queues_distinct [symmetric]

section \<open>The contract\<close>

text \<open>
  \<open>connected\<close> tells whether the client holds a connection. The laws: the secondary queue gets
  the name the controller computes for itself; the depth and the statistics of a queue are the
  same reading; a successful connect connects, close disconnects, even when it reports an error;
  reading a depth does not drop the connection.
\<close>

locale broker_contract =
  fixes B :: "'b broker_client"
    and connected :: "'b \<Rightarrow> bool"
  assumes create_name: "fst (br_createSecondaryQueue B q ex rk s) = Inr n \<Longrightarrow> n = replay_queue q"
    and stats_of_depth: "fst (br_getQueueStats B q s) =
      (case fst (br_getQueueDepth B q s) of Inl e \<Rightarrow> Inl e | Inr d \<Rightarrow> Inr (d, 0))"
    and connect_ok: "fst (br_connect B url s) = None \<Longrightarrow> connected (snd (br_connect B url s))"
    and close_drops: "\<not> connected (snd (br_close B s))"
    and depth_keeps: "connected s \<Longrightarrow> connected (snd (br_getQueueDepth B q s))"
begin

text \<open>The controller's drain test on ready and unacknowledged messages is the test on the depth.\<close>

lemma drained_iff:
  assumes "fst (br_getQueueStats B q s) = Inr (ready, unacked)"
  shows "ready + unacked = 0 \<longleftrightarrow> fst (br_getQueueDepth B q s) = Inr 0"
  using assms by (auto simp: stats_of_depth split: sum.splits)

lemma stats_error_iff:
  "(\<exists>e. fst (br_getQueueStats B q s) = Inl e) \<longleftrightarrow> (\<exists>e. fst (br_getQueueDepth B q s) = Inl e)"
  by (auto simp: stats_of_depth split: sum.splits)

lemma stats_unacked_zero: "fst (br_getQueueStats B q s) = Inr (r, u) \<Longrightarrow> u = 0"
  by (auto simp: stats_of_depth split: sum.splits)

text \<open>Connect, then read a depth, then close: connected in between, never afterwards.\<close>

lemma session_bracket:
  assumes "br_connect B url s = (None, s1)" and "br_getQueueDepth B q s1 = (r, s2)"
    and "br_close B s2 = (e, s3)"
  shows "connected s1 \<and> connected s2 \<and> \<not> connected s3"
  using connect_ok [of url s] depth_keeps [of s1 q] close_drops [of s2] assms by simp

end

end
