(* ===== verification/Env.thy ===== *)
theory Env
  imports Broker
begin

text \<open>
  Everything outside the controller is a parameter: the record \<open>env\<close> holds the operations of
  the API server's client, of the message broker (theory \<open>Broker\<close>), of the kubelet client, of
  HTTP and of the clock, each a function on an unknown state \<open>'w\<close> of the outside world. A handler is a
  computation of the library's state monad over \<open>'w world\<close>, which pairs that state with the
  trace of the calls made so far; the trace is for stating properties only, no handler reads it.

  The calculus at the end shows what a handler may put on the trace: \<open>emits P f\<close> says that
  every call made by \<open>f\<close>, from any state of any outside world, satisfies \<open>P\<close>.
\<close>

section \<open>The outside world\<close>

datatype json_val = JString string | JBool bool

record 'w env =
  api_getMigration :: "string \<Rightarrow> string \<Rightarrow> 'w \<Rightarrow> (go_error + StatefulMigration) \<times> 'w"
  api_getPod :: "string \<Rightarrow> string \<Rightarrow> 'w \<Rightarrow> (go_error + pod) \<times> 'w"
  api_getJob :: "string \<Rightarrow> string \<Rightarrow> 'w \<Rightarrow> (go_error + job) \<times> 'w"
  api_getSts :: "string \<Rightarrow> string \<Rightarrow> 'w \<Rightarrow> (go_error + statefulset) \<times> 'w"
  api_getRs :: "string \<Rightarrow> string \<Rightarrow> 'w \<Rightarrow> (go_error + replicaset) \<times> 'w"
  api_getDeployment :: "string \<Rightarrow> string \<Rightarrow> 'w \<Rightarrow> (go_error + deployment) \<times> 'w"
  api_listPods :: "string \<Rightarrow> smap \<Rightarrow> 'w \<Rightarrow> (go_error + pod list) \<times> 'w"
  api_updateMigration :: "StatefulMigration \<Rightarrow> 'w \<Rightarrow> (go_error + StatefulMigration) \<times> 'w"
  api_patchStatus :: "StatefulMigration \<Rightarrow> StatefulMigration \<Rightarrow> 'w \<Rightarrow> (go_error + StatefulMigration) \<times> 'w"
  api_patchPod :: "pod \<Rightarrow> pod \<Rightarrow> 'w \<Rightarrow> go_error option \<times> 'w"
  api_patchSts :: "statefulset \<Rightarrow> statefulset \<Rightarrow> 'w \<Rightarrow> go_error option \<times> 'w"
  api_patchDeployment :: "deployment \<Rightarrow> deployment \<Rightarrow> 'w \<Rightarrow> go_error option \<times> 'w"
  api_createJob :: "job \<Rightarrow> 'w \<Rightarrow> go_error option \<times> 'w"
  api_createPod :: "pod \<Rightarrow> 'w \<Rightarrow> go_error option \<times> 'w"
  api_deletePod :: "pod \<Rightarrow> int option \<Rightarrow> 'w \<Rightarrow> go_error option \<times> 'w"
  broker :: "'w broker_client"
  kubelet_checkpoint :: "(string \<Rightarrow> string \<Rightarrow> string \<Rightarrow> string \<Rightarrow> 'w \<Rightarrow> (go_error + string list) \<times> 'w) option"
  http_newRequestErr :: "string \<Rightarrow> go_error option"
  http_post :: "string \<Rightarrow> (string \<times> json_val) list \<Rightarrow> 'w \<Rightarrow> (go_error + int \<times> string) \<times> 'w"
  clock_now :: "'w \<Rightarrow> int \<times> 'w"
  setStatusCondition :: "condition list \<Rightarrow> condition \<Rightarrow> condition list"
  newControllerRef :: "StatefulMigration \<Rightarrow> owner_ref"

text \<open>
  The calls that change something or talk to the broker, with their outcome. A patch carries the
  base and the modified object, whose difference is what the server merges.
\<close>

datatype event =
    EvPatchStatus StatefulMigration StatefulMigration bool
  | EvUpdateMigration StatefulMigration bool
  | EvPatchPod pod pod bool
  | EvPatchSts statefulset statefulset bool
  | EvPatchDeployment deployment deployment bool
  | EvCreateJob job bool
  | EvCreatePod pod bool
  | EvDeletePod pod "int option" bool
  | EvConnect string bool
  | EvClose bool
  | EvCreateSecondary string string string bool
  | EvUnbind string string bool
  | EvDeleteSecondary string string string bool
  | EvDepth string "int option"
  | EvStats string "(int \<times> int) option"
  | EvSend string ControlMessageType payload bool
  | EvBind string string bool
  | EvDeclareBind string string bool
  | EvDeleteQueue string bool
  | EvCheckpoint string string string string bool
  | EvHttp string "(string \<times> json_val) list" bool

record 'w world =
  ext :: 'w
  trace :: "event list"

type_synonym ('w, 'a) go = "('w world, 'a) state"

definition ext_call :: "('w \<Rightarrow> 'r \<times> 'w) \<Rightarrow> ('r \<Rightarrow> event list) \<Rightarrow> ('w, 'r) go" where
  "ext_call f ev = State (\<lambda>w. case f (ext w) of (r, x) \<Rightarrow> (r, w\<lparr>ext := x, trace := trace w @ ev r\<rparr>))"

abbreviation go_return :: "'a \<Rightarrow> ('w, 'a) go" where
  "go_return \<equiv> State_Monad.return"

definition ok_sum :: "'e + 'a \<Rightarrow> bool" where
  "ok_sum r = (case r of Inl _ \<Rightarrow> False | Inr _ \<Rightarrow> True)"

definition some_sum :: "'e + 'a \<Rightarrow> 'a option" where
  "some_sum r = (case r of Inl _ \<Rightarrow> None | Inr a \<Rightarrow> Some a)"

lemma ok_sum_simps [simp]: "\<not> ok_sum (Inl e)" "ok_sum (Inr a)"
  "some_sum (Inl e) = None" "some_sum (Inr a) = Some a"
  by (simp_all add: ok_sum_def some_sum_def)

section \<open>The calls\<close>

definition getMigration ::
    "'w env \<Rightarrow> string \<Rightarrow> string \<Rightarrow> ('w, go_error + StatefulMigration) go" where
  "getMigration E ns n = ext_call (api_getMigration E ns n) (\<lambda>_. [])"

definition getPod ::
    "'w env \<Rightarrow> string \<Rightarrow> string \<Rightarrow> ('w, go_error + pod) go" where
  "getPod E ns n = ext_call (api_getPod E ns n) (\<lambda>_. [])"

definition getJob ::
    "'w env \<Rightarrow> string \<Rightarrow> string \<Rightarrow> ('w, go_error + job) go" where
  "getJob E ns n = ext_call (api_getJob E ns n) (\<lambda>_. [])"

definition getSts ::
    "'w env \<Rightarrow> string \<Rightarrow> string \<Rightarrow> ('w, go_error + statefulset) go" where
  "getSts E ns n = ext_call (api_getSts E ns n) (\<lambda>_. [])"

definition getRs ::
    "'w env \<Rightarrow> string \<Rightarrow> string \<Rightarrow> ('w, go_error + replicaset) go" where
  "getRs E ns n = ext_call (api_getRs E ns n) (\<lambda>_. [])"

definition getDeployment ::
    "'w env \<Rightarrow> string \<Rightarrow> string \<Rightarrow> ('w, go_error + deployment) go" where
  "getDeployment E ns n = ext_call (api_getDeployment E ns n) (\<lambda>_. [])"

definition listPods ::
    "'w env \<Rightarrow> string \<Rightarrow> smap \<Rightarrow> ('w, go_error + pod list) go" where
  "listPods E ns l = ext_call (api_listPods E ns l) (\<lambda>_. [])"

definition updateMigration ::
    "'w env \<Rightarrow> StatefulMigration \<Rightarrow> ('w, go_error + StatefulMigration) go" where
  "updateMigration E m = ext_call (api_updateMigration E m) (\<lambda>r. [EvUpdateMigration m (ok_sum r)])"

definition patchStatus ::
    "'w env \<Rightarrow> StatefulMigration \<Rightarrow> StatefulMigration \<Rightarrow> ('w, go_error + StatefulMigration) go" where
  "patchStatus E base m = ext_call (api_patchStatus E base m) (\<lambda>r. [EvPatchStatus base m (ok_sum r)])"

definition patchPod ::
    "'w env \<Rightarrow> pod \<Rightarrow> pod \<Rightarrow> ('w, go_error option) go" where
  "patchPod E base p = ext_call (api_patchPod E base p) (\<lambda>r. [EvPatchPod base p (r = None)])"

definition patchSts ::
    "'w env \<Rightarrow> statefulset \<Rightarrow> statefulset \<Rightarrow> ('w, go_error option) go" where
  "patchSts E base s = ext_call (api_patchSts E base s) (\<lambda>r. [EvPatchSts base s (r = None)])"

definition patchDeployment ::
    "'w env \<Rightarrow> deployment \<Rightarrow> deployment \<Rightarrow> ('w, go_error option) go" where
  "patchDeployment E base d =
     ext_call (api_patchDeployment E base d) (\<lambda>r. [EvPatchDeployment base d (r = None)])"

definition createJob ::
    "'w env \<Rightarrow> job \<Rightarrow> ('w, go_error option) go" where
  "createJob E j = ext_call (api_createJob E j) (\<lambda>r. [EvCreateJob j (r = None)])"

definition createPod ::
    "'w env \<Rightarrow> pod \<Rightarrow> ('w, go_error option) go" where
  "createPod E p = ext_call (api_createPod E p) (\<lambda>r. [EvCreatePod p (r = None)])"

definition deletePod ::
    "'w env \<Rightarrow> pod \<Rightarrow> int option \<Rightarrow> ('w, go_error option) go" where
  "deletePod E p grace = ext_call (api_deletePod E p grace) (\<lambda>r. [EvDeletePod p grace (r = None)])"

definition brokerConnect ::
    "'w env \<Rightarrow> string \<Rightarrow> ('w, go_error option) go" where
  "brokerConnect E url = ext_call (br_connect (broker E) url) (\<lambda>r. [EvConnect url (r = None)])"

definition brokerClose :: "'w env \<Rightarrow> ('w, go_error option) go" where
  "brokerClose E = ext_call (br_close (broker E)) (\<lambda>r. [EvClose (r = None)])"

definition createSecondaryQueue ::
    "'w env \<Rightarrow> string \<Rightarrow> string \<Rightarrow> string \<Rightarrow> ('w, go_error + string) go" where
  "createSecondaryQueue E q ex rk =
     ext_call (br_createSecondaryQueue (broker E) q ex rk) (\<lambda>r. [EvCreateSecondary q ex rk (ok_sum r)])"

definition unbindQueue ::
    "'w env \<Rightarrow> string \<Rightarrow> string \<Rightarrow> ('w, go_error option) go" where
  "unbindQueue E q ex = ext_call (br_unbindQueue (broker E) q ex) (\<lambda>r. [EvUnbind q ex (r = None)])"

definition deleteSecondaryQueue ::
    "'w env \<Rightarrow> string \<Rightarrow> string \<Rightarrow> string \<Rightarrow> ('w, go_error option) go" where
  "deleteSecondaryQueue E sec prim ex = ext_call (br_deleteSecondaryQueue (broker E) sec prim ex)
     (\<lambda>r. [EvDeleteSecondary sec prim ex (r = None)])"

definition getQueueDepth ::
    "'w env \<Rightarrow> string \<Rightarrow> ('w, go_error + int) go" where
  "getQueueDepth E q = ext_call (br_getQueueDepth (broker E) q) (\<lambda>r. [EvDepth q (some_sum r)])"

definition getQueueStats ::
    "'w env \<Rightarrow> string \<Rightarrow> ('w, go_error + int \<times> int) go" where
  "getQueueStats E q = ext_call (br_getQueueStats (broker E) q) (\<lambda>r. [EvStats q (some_sum r)])"

definition sendControlMessage ::
    "'w env \<Rightarrow> string \<Rightarrow> ControlMessageType \<Rightarrow> payload \<Rightarrow> ('w, go_error option) go" where
  "sendControlMessage E p ty pl =
     ext_call (br_sendControlMessage (broker E) p ty pl) (\<lambda>r. [EvSend p ty pl (r = None)])"

definition bindQueue ::
    "'w env \<Rightarrow> string \<Rightarrow> string \<Rightarrow> string \<Rightarrow> ('w, go_error option) go" where
  "bindQueue E q ex rk = ext_call (br_bindQueue (broker E) q ex rk) (\<lambda>r. [EvBind q ex (r = None)])"

definition declareAndBindQueue ::
    "'w env \<Rightarrow> string \<Rightarrow> string \<Rightarrow> ('w, go_error option) go" where
  "declareAndBindQueue E q ex =
     ext_call (br_declareAndBindQueue (broker E) q ex) (\<lambda>r. [EvDeclareBind q ex (r = None)])"

definition deleteQueue ::
    "'w env \<Rightarrow> string \<Rightarrow> ('w, go_error option) go" where
  "deleteQueue E q = ext_call (br_deleteQueue (broker E) q) (\<lambda>r. [EvDeleteQueue q (r = None)])"

definition checkpointContainer ::
    "(string \<Rightarrow> string \<Rightarrow> string \<Rightarrow> string \<Rightarrow> 'w \<Rightarrow> (go_error + string list) \<times> 'w) \<Rightarrow>
    string \<Rightarrow> string \<Rightarrow> string \<Rightarrow> string \<Rightarrow> ('w, go_error + string list) go" where
  "checkpointContainer ck node ns p c = ext_call (ck node ns p c) (\<lambda>r. [EvCheckpoint node ns p c (ok_sum r)])"

definition httpPost ::
    "'w env \<Rightarrow> string \<Rightarrow> (string \<times> json_val) list \<Rightarrow> ('w, go_error + int \<times> string) go" where
  "httpPost E url body = ext_call (http_post E url body) (\<lambda>r. [EvHttp url body (ok_sum r)])"

definition now :: "'w env \<Rightarrow> ('w, int) go" where
  "now E = ext_call (clock_now E) (\<lambda>_. [])"

text \<open>\<open>time.Since(t)\<close>.\<close>

definition since :: "'w env \<Rightarrow> int \<Rightarrow> ('w, int) go" where
  "since E t = do { n \<leftarrow> now E; go_return (n - t) }"

lemmas call_defs = getMigration_def getPod_def getJob_def getSts_def getRs_def getDeployment_def
  listPods_def updateMigration_def patchStatus_def patchPod_def patchSts_def patchDeployment_def
  createJob_def createPod_def deletePod_def brokerConnect_def brokerClose_def
  createSecondaryQueue_def unbindQueue_def deleteSecondaryQueue_def getQueueDepth_def
  getQueueStats_def sendControlMessage_def bindQueue_def declareAndBindQueue_def deleteQueue_def
  checkpointContainer_def httpPost_def now_def

lemma run_ext_call:
  "run_state (ext_call f ev) w =
     (fst (f (ext w)), w\<lparr>ext := snd (f (ext w)), trace := trace w @ ev (fst (f (ext w)))\<rparr>)"
  by (simp add: ext_call_def split: prod.split)

text \<open>
  \<open>_ = r.Status().Patch(ctx, m, client.MergeFrom(base))\<close>: the error is dropped; the in-memory object
  becomes the server's answer, or stays as it is on an error.
\<close>

definition patchStatusIgnore :: "'w env \<Rightarrow> StatefulMigration \<Rightarrow> StatefulMigration \<Rightarrow> ('w, StatefulMigration) go" where
  "patchStatusIgnore E base m = do {
     r \<leftarrow> patchStatus E base m;
     go_return (case r of Inl _ \<Rightarrow> m | Inr m' \<Rightarrow> m')
   }"

section \<open>What a computation puts on the trace\<close>

text \<open>
  \<open>yields f Q\<close>: from every state of the world, the result of \<open>f\<close> and the events it adds
  satisfy \<open>Q\<close>. The rules \<open>yields_intro\<close> run a computation symbolically and leave one goal per path, with
  the events of that path as a list.
\<close>

definition yields :: "('w, 'a) go \<Rightarrow> ('a \<Rightarrow> event list \<Rightarrow> bool) \<Rightarrow> bool" where
  "yields f Q \<longleftrightarrow> (\<forall>w. \<exists>es. trace (snd (run_state f w)) = trace w @ es \<and> Q (fst (run_state f w)) es)"

lemma yieldsD:
  assumes "yields f Q" and "run_state f w = (a, w')"
  obtains es where "trace w' = trace w @ es" and "Q a es"
  using assms by (auto simp: yields_def dest: spec [of _ w])

lemma yields_return [yields_intro]: "Q a [] \<Longrightarrow> yields (go_return a) Q"
  by (simp add: yields_def)

lemma yields_bind:
  assumes "yields f R" and "\<And>a es. R a es \<Longrightarrow> yields (g a) (\<lambda>b es'. Q b (es @ es'))"
  shows "yields (State_Monad.bind f g) Q"
proof -
  have "\<exists>es. trace (snd (run_state (State_Monad.bind f g) w)) = trace w @ es \<and>
      Q (fst (run_state (State_Monad.bind f g) w)) es" for w
  proof -
    obtain a w1 where r1: "run_state f w = (a, w1)" by fastforce
    obtain b w2 where r2: "run_state (g a) w1 = (b, w2)" by fastforce
    from assms(1) r1 obtain e1 where e1: "trace w1 = trace w @ e1" "R a e1" by (rule yieldsD)
    from assms(2) [OF e1(2)] r2 obtain e2 where e2: "trace w2 = trace w1 @ e2" "Q b (e1 @ e2)"
      by (rule yieldsD)
    show ?thesis using r1 r2 e1 e2 by (intro exI [of _ "e1 @ e2"]) simp
  qed
  then show ?thesis by (simp add: yields_def)
qed

lemma yields_mono: "yields f R \<Longrightarrow> (\<And>a es. R a es \<Longrightarrow> Q a es) \<Longrightarrow> yields f Q"
  by (fastforce simp: yields_def)

lemma yields_conj: "yields f Q \<Longrightarrow> yields f R \<Longrightarrow> yields f (\<lambda>a es. Q a es \<and> R a es)"
  unfolding yields_def by (metis same_append_eq)

lemma yields_if [yields_intro]:
  "(b \<Longrightarrow> yields f Q) \<Longrightarrow> (\<not> b \<Longrightarrow> yields g Q) \<Longrightarrow> yields (if b then f else g) Q"
  by simp

lemma yields_sum [yields_intro]:
  "(\<And>a. x = Inl a \<Longrightarrow> yields (f a) Q) \<Longrightarrow> (\<And>a. x = Inr a \<Longrightarrow> yields (g a) Q) \<Longrightarrow> yields (case_sum f g x) Q"
  by (cases x) simp_all

lemma yields_option [yields_intro]:
  "(x = None \<Longrightarrow> yields f Q) \<Longrightarrow> (\<And>a. x = Some a \<Longrightarrow> yields (g a) Q) \<Longrightarrow> yields (case_option f g x) Q"
  by (cases x) simp_all

lemma yields_prod [yields_intro]:
  "(\<And>a b. x = (a, b) \<Longrightarrow> yields (f a b) Q) \<Longrightarrow> yields (case_prod f x) Q"
  by (cases x) simp

lemma yields_list [yields_intro]:
  "(x = [] \<Longrightarrow> yields f Q) \<Longrightarrow> (\<And>a as. x = a # as \<Longrightarrow> yields (g a as) Q) \<Longrightarrow> yields (case_list f g x) Q"
  by (cases x) simp_all

lemma yields_Let [yields_intro]: "(\<And>x. x = a \<Longrightarrow> yields (f x) Q) \<Longrightarrow> yields (Let a f) Q"
  by simp

lemma yields_ext_call: "yields (ext_call f ev) (\<lambda>r es. es = ev r)"
  by (simp add: yields_def run_ext_call)

lemma yields_ext_bind:
  "(\<And>r. yields (g r) (\<lambda>b es. Q b (ev r @ es))) \<Longrightarrow> yields (State_Monad.bind (ext_call f ev) g) Q"
  by (rule yields_bind [OF yields_ext_call]) simp

text \<open>A lookup with what is known of its answer.\<close>

lemma yields_lookup:
  "(\<And>r x. r = fst (api_getPod E ns n x) \<Longrightarrow> yields (g r) Q) \<Longrightarrow> yields (State_Monad.bind (getPod E ns n) g) Q"
proof -
  assume g: "\<And>r x. r = fst (api_getPod E ns n x) \<Longrightarrow> yields (g r) Q"
  have "yields (getPod E ns n) (\<lambda>r es. es = [] \<and> (\<exists>x. r = fst (api_getPod E ns n x)))"
    by (auto simp: call_defs yields_def run_ext_call)
  then show ?thesis by (rule yields_bind) (use g in auto)
qed

lemma yields_quiet [yields_intro]:
  "(\<And>r. yields (g1 r) Q) \<Longrightarrow> yields (State_Monad.bind (getMigration E ns n) g1) Q"
  "(\<And>r. yields (g2 r) Q) \<Longrightarrow> yields (State_Monad.bind (getPod E ns n) g2) Q"
  "(\<And>r. yields (g3 r) Q) \<Longrightarrow> yields (State_Monad.bind (getJob E ns n) g3) Q"
  "(\<And>r. yields (g4 r) Q) \<Longrightarrow> yields (State_Monad.bind (getSts E ns n) g4) Q"
  "(\<And>r. yields (g5 r) Q) \<Longrightarrow> yields (State_Monad.bind (getRs E ns n) g5) Q"
  "(\<And>r. yields (g6 r) Q) \<Longrightarrow> yields (State_Monad.bind (getDeployment E ns n) g6) Q"
  "(\<And>r. yields (g7 r) Q) \<Longrightarrow> yields (State_Monad.bind (listPods E ns l) g7) Q"
  "(\<And>r. yields (g8 r) Q) \<Longrightarrow> yields (State_Monad.bind (now E) g8) Q"
  by (auto simp: call_defs intro!: yields_ext_bind)

lemma yields_api [yields_intro]:
  "(\<And>r. yields (g1 r) (\<lambda>b es. Q b (EvUpdateMigration m (ok_sum r) # es))) \<Longrightarrow>
     yields (State_Monad.bind (updateMigration E m) g1) Q"
  "(\<And>r. yields (g2 r) (\<lambda>b es. Q b (EvPatchStatus base m (ok_sum r) # es))) \<Longrightarrow>
     yields (State_Monad.bind (patchStatus E base m) g2) Q"
  "(\<And>r. yields (g3 r) (\<lambda>b es. Q b (EvPatchPod pb p (r = None) # es))) \<Longrightarrow>
     yields (State_Monad.bind (patchPod E pb p) g3) Q"
  "(\<And>r. yields (g4 r) (\<lambda>b es. Q b (EvPatchSts sb s (r = None) # es))) \<Longrightarrow>
     yields (State_Monad.bind (patchSts E sb s) g4) Q"
  "(\<And>r. yields (g5 r) (\<lambda>b es. Q b (EvPatchDeployment db d (r = None) # es))) \<Longrightarrow>
     yields (State_Monad.bind (patchDeployment E db d) g5) Q"
  "(\<And>r. yields (g6 r) (\<lambda>b es. Q b (EvCreateJob j (r = None) # es))) \<Longrightarrow>
     yields (State_Monad.bind (createJob E j) g6) Q"
  "(\<And>r. yields (g7 r) (\<lambda>b es. Q b (EvCreatePod p (r = None) # es))) \<Longrightarrow>
     yields (State_Monad.bind (createPod E p) g7) Q"
  "(\<And>r. yields (g8 r) (\<lambda>b es. Q b (EvDeletePod p gr (r = None) # es))) \<Longrightarrow>
     yields (State_Monad.bind (deletePod E p gr) g8) Q"
  by (auto simp: call_defs intro!: yields_ext_bind)

lemma yields_broker [yields_intro]:
  "(\<And>r. yields (g1 r) (\<lambda>b es. Q b (EvConnect url (r = None) # es))) \<Longrightarrow>
     yields (State_Monad.bind (brokerConnect E url) g1) Q"
  "(\<And>r. yields (g2 r) (\<lambda>b es. Q b (EvClose (r = None) # es))) \<Longrightarrow>
     yields (State_Monad.bind (brokerClose E) g2) Q"
  "(\<And>r. yields (g3 r) (\<lambda>b es. Q b (EvCreateSecondary q ex rk (ok_sum r) # es))) \<Longrightarrow>
     yields (State_Monad.bind (createSecondaryQueue E q ex rk) g3) Q"
  "(\<And>r. yields (g4 r) (\<lambda>b es. Q b (EvUnbind q ex (r = None) # es))) \<Longrightarrow>
     yields (State_Monad.bind (unbindQueue E q ex) g4) Q"
  "(\<And>r. yields (g5 r) (\<lambda>b es. Q b (EvDeleteSecondary q q' ex (r = None) # es))) \<Longrightarrow>
     yields (State_Monad.bind (deleteSecondaryQueue E q q' ex) g5) Q"
  "(\<And>r. yields (g6 r) (\<lambda>b es. Q b (EvDepth q (some_sum r) # es))) \<Longrightarrow>
     yields (State_Monad.bind (getQueueDepth E q) g6) Q"
  "(\<And>r. yields (g7 r) (\<lambda>b es. Q b (EvStats q (some_sum r) # es))) \<Longrightarrow>
     yields (State_Monad.bind (getQueueStats E q) g7) Q"
  "(\<And>r. yields (g8 r) (\<lambda>b es. Q b (EvSend p' ty pl (r = None) # es))) \<Longrightarrow>
     yields (State_Monad.bind (sendControlMessage E p' ty pl) g8) Q"
  "(\<And>r. yields (g9 r) (\<lambda>b es. Q b (EvBind q ex (r = None) # es))) \<Longrightarrow>
     yields (State_Monad.bind (bindQueue E q ex rk) g9) Q"
  "(\<And>r. yields (g10 r) (\<lambda>b es. Q b (EvDeclareBind q ex (r = None) # es))) \<Longrightarrow>
     yields (State_Monad.bind (declareAndBindQueue E q ex) g10) Q"
  "(\<And>r. yields (g11 r) (\<lambda>b es. Q b (EvDeleteQueue q (r = None) # es))) \<Longrightarrow>
     yields (State_Monad.bind (deleteQueue E q) g11) Q"
  by (auto simp: call_defs intro!: yields_ext_bind)

lemma yields_other [yields_intro]:
  "(\<And>r. yields (g1 r) (\<lambda>b es. Q b (EvCheckpoint node ns p' c (ok_sum r) # es))) \<Longrightarrow>
     yields (State_Monad.bind (checkpointContainer ck node ns p' c) g1) Q"
  "(\<And>r. yields (g2 r) (\<lambda>b es. Q b (EvHttp url body (ok_sum r) # es))) \<Longrightarrow>
     yields (State_Monad.bind (httpPost E url body) g2) Q"
  by (auto simp: call_defs intro!: yields_ext_bind)

lemma yields_since [yields_intro]:
  "(\<And>d. yields (g d) Q) \<Longrightarrow> yields (State_Monad.bind (since E t) g) Q"
  by (simp add: since_def) (intro yields_intro)

lemma yields_patchStatusIgnore [yields_intro]:
  assumes "\<And>m' ok. (\<not> ok \<Longrightarrow> m' = m) \<Longrightarrow> yields (g m') (\<lambda>b es. Q b (EvPatchStatus base m ok # es))"
  shows "yields (State_Monad.bind (patchStatusIgnore E base m) g) Q"
proof -
  have "yields (g (case r of Inl _ \<Rightarrow> m | Inr m' \<Rightarrow> m')) (\<lambda>b es. Q b (EvPatchStatus base m (ok_sum r) # es))" for r
    by (cases r) (auto intro: assms)
  then show ?thesis by (simp add: patchStatusIgnore_def) (intro yields_intro)
qed

subsection \<open>Every event\<close>

text \<open>\<open>emits P f\<close>: every event of \<open>f\<close> satisfies \<open>P\<close>. Its rules follow the syntax and do not split paths.\<close>

definition emits :: "(event \<Rightarrow> bool) \<Rightarrow> ('w, 'a) go \<Rightarrow> bool" where
  "emits P f \<longleftrightarrow> yields f (\<lambda>_. list_all P)"

lemma emitsD: "emits P f \<Longrightarrow> run_state f w = (a, w') \<Longrightarrow> \<exists>es. trace w' = trace w @ es \<and> list_all P es"
  unfolding emits_def by (erule (1) yieldsD) blast

lemma emits_return [emits_intro]: "emits P (go_return a)"
  by (simp add: emits_def yields_return)

lemma emits_bind [emits_intro]:
  "emits P f \<Longrightarrow> (\<And>a. emits P (g a)) \<Longrightarrow> emits P (State_Monad.bind f g)"
  unfolding emits_def by (erule yields_bind) (auto elim: yields_mono)

lemma emits_if [emits_intro]:
  "(b \<Longrightarrow> emits P f) \<Longrightarrow> (\<not> b \<Longrightarrow> emits P g) \<Longrightarrow> emits P (if b then f else g)"
  by simp

lemma emits_sum [emits_intro]:
  "(\<And>a. x = Inl a \<Longrightarrow> emits P (f a)) \<Longrightarrow> (\<And>a. x = Inr a \<Longrightarrow> emits P (g a)) \<Longrightarrow> emits P (case_sum f g x)"
  by (cases x) simp_all

lemma emits_option [emits_intro]:
  "(x = None \<Longrightarrow> emits P f) \<Longrightarrow> (\<And>a. x = Some a \<Longrightarrow> emits P (g a)) \<Longrightarrow> emits P (case_option f g x)"
  by (cases x) simp_all

lemma emits_prod [emits_intro]:
  "(\<And>a b. x = (a, b) \<Longrightarrow> emits P (f a b)) \<Longrightarrow> emits P (case_prod f x)"
  by (cases x) simp

lemma emits_list [emits_intro]:
  "(x = [] \<Longrightarrow> emits P f) \<Longrightarrow> (\<And>a as. x = a # as \<Longrightarrow> emits P (g a as)) \<Longrightarrow> emits P (case_list f g x)"
  by (cases x) simp_all

lemma emits_Let [emits_intro]: "(\<And>x. x = a \<Longrightarrow> emits P (f x)) \<Longrightarrow> emits P (Let a f)"
  by simp

lemma emits_ext_call: "(\<And>r. list_all P (ev r)) \<Longrightarrow> emits P (ext_call f ev)"
  unfolding emits_def by (rule yields_mono [OF yields_ext_call]) simp

lemma emits_mono: "emits P f \<Longrightarrow> (\<And>e. P e \<Longrightarrow> Q e) \<Longrightarrow> emits Q f"
  unfolding emits_def by (erule yields_mono) (simp add: list_all_iff)

lemma emits_quiet [emits_intro]:
  "emits P (getMigration E ns n)" "emits P (getPod E ns n)" "emits P (getJob E ns n)"
  "emits P (getSts E ns n)" "emits P (getRs E ns n)" "emits P (getDeployment E ns n)"
  "emits P (listPods E ns l)" "emits P (now E)"
  by (simp_all add: call_defs emits_ext_call)

lemma emits_since [emits_intro]: "emits P (since E t)"
  unfolding since_def by (intro emits_intro)

lemma emits_api [emits_intro]:
  "(\<And>ok. P (EvUpdateMigration m ok)) \<Longrightarrow> emits P (updateMigration E m)"
  "(\<And>ok. P (EvPatchStatus base m ok)) \<Longrightarrow> emits P (patchStatus E base m)"
  "(\<And>ok. P (EvPatchPod pb p ok)) \<Longrightarrow> emits P (patchPod E pb p)"
  "(\<And>ok. P (EvPatchSts sb s ok)) \<Longrightarrow> emits P (patchSts E sb s)"
  "(\<And>ok. P (EvPatchDeployment db d ok)) \<Longrightarrow> emits P (patchDeployment E db d)"
  "(\<And>ok. P (EvCreateJob j ok)) \<Longrightarrow> emits P (createJob E j)"
  "(\<And>ok. P (EvCreatePod p ok)) \<Longrightarrow> emits P (createPod E p)"
  "(\<And>ok. P (EvDeletePod p g ok)) \<Longrightarrow> emits P (deletePod E p g)"
  by (simp_all add: call_defs emits_ext_call)

lemma emits_broker [emits_intro]:
  "(\<And>ok. P (EvConnect url ok)) \<Longrightarrow> emits P (brokerConnect E url)"
  "(\<And>ok. P (EvClose ok)) \<Longrightarrow> emits P (brokerClose E)"
  "(\<And>ok. P (EvCreateSecondary q ex rk ok)) \<Longrightarrow> emits P (createSecondaryQueue E q ex rk)"
  "(\<And>ok. P (EvUnbind q ex ok)) \<Longrightarrow> emits P (unbindQueue E q ex)"
  "(\<And>ok. P (EvDeleteSecondary q q' ex ok)) \<Longrightarrow> emits P (deleteSecondaryQueue E q q' ex)"
  "(\<And>r. P (EvDepth q r)) \<Longrightarrow> emits P (getQueueDepth E q)"
  "(\<And>r. P (EvStats q r)) \<Longrightarrow> emits P (getQueueStats E q)"
  "(\<And>ok. P (EvSend p ty pl ok)) \<Longrightarrow> emits P (sendControlMessage E p ty pl)"
  "(\<And>ok. P (EvBind q ex ok)) \<Longrightarrow> emits P (bindQueue E q ex rk)"
  "(\<And>ok. P (EvDeclareBind q ex ok)) \<Longrightarrow> emits P (declareAndBindQueue E q ex)"
  "(\<And>ok. P (EvDeleteQueue q ok)) \<Longrightarrow> emits P (deleteQueue E q)"
  by (simp_all add: call_defs emits_ext_call)

lemma emits_other [emits_intro]:
  "(\<And>ok. P (EvCheckpoint node ns p c ok)) \<Longrightarrow> emits P (checkpointContainer ck node ns p c)"
  "(\<And>ok. P (EvHttp url body ok)) \<Longrightarrow> emits P (httpPost E url body)"
  by (simp_all add: call_defs emits_ext_call)

lemma emits_patchStatusIgnore [emits_intro]:
  "(\<And>ok. P (EvPatchStatus base m ok)) \<Longrightarrow> emits P (patchStatusIgnore E base m)"
  unfolding patchStatusIgnore_def by (intro emits_intro)

end
