(* ===== verification/Helpers.thy ===== *)
theory Helpers
  imports Env Complex_Main
begin

text \<open>
  The helpers of \<open>statefulmigration_controller.go\<close> that every phase uses: phase timings and their
  clocks, the status transition and the failure transition, the polling interval, and the
  calls to the node agent.
\<close>

section \<open>Protocol constants\<close>

definition preFenceObservationWindow :: int where "preFenceObservationWindow = 3 * second"
definition fenceTimeThreshold :: rat where "fenceTimeThreshold = 60"
definition parallelDrainStallTimeout :: int where "parallelDrainStallTimeout = 30 * second"
definition parallelDrainMaxTimeout :: int where "parallelDrainMaxTimeout = 120 * second"
definition parallelDrainPollInterval :: int where "parallelDrainPollInterval = 2 * second"

section \<open>Timings\<close>

definition recordPhaseTiming :: "string \<Rightarrow> int \<Rightarrow> StatefulMigration \<Rightarrow> StatefulMigration" where
  "recordPhaseTiming name d m =
     (let m1 = ensurePhaseTimings m in
      case timing_put name (duration_string (duration_round d millisecond)) m1 of
        None \<Rightarrow> m1 | Some m2 \<Rightarrow> m2)"

text \<open>
  \<open>m.Status.PhaseTimings[k] = time.Now().Format(time.RFC3339)\<close>.
\<close>

definition stampTiming :: "'w env \<Rightarrow> string \<Rightarrow> StatefulMigration \<Rightarrow> ('w, StatefulMigration option) go" where
  "stampTiming E k m = do {
     t \<leftarrow> now E;
     go_return (timing_put k (rfc3339_format t) m)
   }"

text \<open>The pattern of a key that is looked up, parsed and measured against the clock.\<close>

definition elapsedSince :: "'w env \<Rightarrow> string \<Rightarrow> StatefulMigration \<Rightarrow> ('w, int option) go" where
  "elapsedSince E k m = (case timing_get k m of
      None \<Rightarrow> go_return None
    | Some s \<Rightarrow> (case rfc3339_parse s of
          None \<Rightarrow> go_return None
        | Some t \<Rightarrow> do { d \<leftarrow> since E t; go_return (Some d) }))"

definition duration_or_zero :: "int option \<Rightarrow> int" where
  "duration_or_zero d = (case d of None \<Rightarrow> 0 | Some x \<Rightarrow> x)"

section \<open>Transitions\<close>

definition transitionPhase :: "'w env \<Rightarrow> StatefulMigration \<Rightarrow> StatefulMigration \<Rightarrow> string \<Rightarrow> ('w, reply) go" where
  "transitionPhase E m base newPhase = do {
     r \<leftarrow> patchStatus E base (set_phase newPhase m);
     case r of Inl err \<Rightarrow> go_return (res_done, Some err)
     | Inr _ \<Rightarrow> go_return (res_requeue, None)
   }"

definition failed_condition :: "string \<Rightarrow> int \<Rightarrow> condition" where
  "failed_condition reason t = \<lparr>cond_type = ''Failed'', cond_status = ''True'',
     cond_reason = ''MigrationFailed'', cond_message = reason, cond_lastTransitionTime = t\<rparr>"

definition failMigration :: "'w env \<Rightarrow> StatefulMigration \<Rightarrow> string \<Rightarrow> ('w, reply) go" where
  "failMigration E m reason = do {
     let base = m;
     let m1 = set_phase PhaseFailed m;
     t \<leftarrow> now E;
     let m2 = set_status (st_conditions_update (\<lambda>cs. setStatusCondition E cs (failed_condition reason t))) m1;
     r \<leftarrow> patchStatus E base m2;
     case r of Inl err \<Rightarrow> go_return (res_done, Some err)
     | Inr _ \<Rightarrow> go_return (res_done, None)
   }"

text \<open>The interval of the polling back-off for a given elapsed time, and the method around it.\<close>

definition backoff_interval :: "int \<Rightarrow> int" where
  "backoff_interval elapsed =
     (if elapsed < 10 * second then 1 * second
      else if elapsed < 30 * second then 2 * second
      else 5 * second)"

definition pollingBackoff :: "'w env \<Rightarrow> StatefulMigration \<Rightarrow> string \<Rightarrow> ('w, int) go" where
  "pollingBackoff E m startKey = do {
     d \<leftarrow> elapsedSince E startKey m;
     go_return (case d of None \<Rightarrow> 1 * second | Some e \<Rightarrow> backoff_interval e)
   }"

section \<open>The node agent\<close>

definition agent_usable :: "string \<Rightarrow> pod \<Rightarrow> bool" where
  "agent_usable nodeName p \<longleftrightarrow> pod_nodeName p = nodeName \<and> pod_phase p = ''Running'' \<and> pod_podIP p \<noteq> ''''"

definition findAgentPodIP :: "'w env \<Rightarrow> string \<Rightarrow> ('w, go_error + string) go" where
  "findAgentPodIP E nodeName = do {
     r \<leftarrow> listPods E ''ms2m-system'' [(''app'', ''ms2m-agent'')];
     go_return (case r of
         Inl err \<Rightarrow> Inl (Wrapped ''list agent pods'' err)
       | Inr ps \<Rightarrow> (case find (agent_usable nodeName) ps of
             Some p \<Rightarrow> Inr (pod_podIP p)
           | None \<Rightarrow> Inl (ErrorString (''no running ms2m-agent found on node '' @ nodeName))))
   }"

text \<open>
  The request body is the JSON object of the marshalled map: its members in key order. The
  reply is the status code with the body; anything but 200 is an error. The 60-second deadline
  of the request shows up as an error of the HTTP call.
\<close>

definition callAgent :: "'w env \<Rightarrow> string \<Rightarrow> string \<Rightarrow> (string \<times> json_val) list \<Rightarrow> ('w, go_error option) go" where
  "callAgent E agentIP path body = (
     let url = ''http://'' @ agentIP @ '':9443'' @ path in
     case http_newRequestErr E url of
       Some err \<Rightarrow> go_return (Some (Wrapped ''create request'' err))
     | None \<Rightarrow> do {
         r \<leftarrow> httpPost E url body;
         go_return (case r of
             Inl err \<Rightarrow> Some (Wrapped (''HTTP call to agent '' @ url) err)
           | Inr (code, respBody) \<Rightarrow>
               if code \<noteq> 200 then Some (ErrorString (''agent returned '' @ show_int code @ '': '' @ respBody))
               else None)
       })"

definition callAgentRegistryPush ::
    "'w env \<Rightarrow> string \<Rightarrow> string \<Rightarrow> string \<Rightarrow> string \<Rightarrow> ('w, go_error option) go" where
  "callAgentRegistryPush E agentIP tarPath containerName imageRef =
     callAgent E agentIP ''/registry-push''
       [(''containerName'', JString containerName), (''imageRef'', JString imageRef),
        (''insecure'', JBool True), (''tarPath'', JString tarPath)]"

definition callAgentLocalLoad ::
    "'w env \<Rightarrow> string \<Rightarrow> string \<Rightarrow> string \<Rightarrow> string \<Rightarrow> ('w, go_error option) go" where
  "callAgentLocalLoad E agentIP tarPath containerName imageTag =
     callAgent E agentIP ''/local-load''
       [(''containerName'', JString containerName), (''imageTag'', JString imageTag),
        (''tarPath'', JString tarPath)]"

section \<open>Facts about the helpers\<close>

lemma recordPhaseTiming_same: "same_but_timings (recordPhaseTiming n d m) m"
proof -
  obtain m2 where "timing_put n (duration_string (duration_round d millisecond)) (ensurePhaseTimings m) = Some m2"
    using timing_put_ensure by blast
  then show ?thesis
    using timing_put_same ensure_same [of m]
    by (fastforce simp: recordPhaseTiming_def Let_def same_but_timings_def)
qed

lemma recordPhaseTiming_simps [simp]:
  "phase (recordPhaseTiming n d m) = phase m" "subPhase (recordPhaseTiming n d m) = subPhase m"
  "mig_spec (recordPhaseTiming n d m) = mig_spec m" "mig_name (recordPhaseTiming n d m) = mig_name m"
  "mig_namespace (recordPhaseTiming n d m) = mig_namespace m"
  using same_but_timingsD [OF recordPhaseTiming_same [of n d m]] by simp_all

lemma timing_get_record [simp]:
  "timing_get k (recordPhaseTiming n d m) =
     (if k = n then Some (duration_string (duration_round d millisecond)) else timing_get k m)"
proof -
  obtain m2 where "timing_put n (duration_string (duration_round d millisecond)) (ensurePhaseTimings m) = Some m2"
    using timing_put_ensure by blast
  then show ?thesis by (auto simp: recordPhaseTiming_def Let_def timing_get_put)
qed

lemma emits_stampTiming [emits_intro]: "emits P (stampTiming E k m)"
  unfolding stampTiming_def by (intro emits_intro)

lemma emits_stamp_bind:
  "(\<And>t. emits P (g (timing_put k (rfc3339_format t) m))) \<Longrightarrow>
     emits P (State_Monad.bind (stampTiming E k m) g)"
  by (simp add: stampTiming_def) (intro emits_intro)

lemma emits_elapsedSince [emits_intro]: "emits P (elapsedSince E k m)"
  unfolding elapsedSince_def by (intro emits_intro)

lemma emits_pollingBackoff [emits_intro]: "emits P (pollingBackoff E m k)"
  unfolding pollingBackoff_def by (intro emits_intro)

lemma emits_findAgentPodIP [emits_intro]: "emits P (findAgentPodIP E n)"
  unfolding findAgentPodIP_def by (intro emits_intro)

lemma emits_transitionPhase [emits_intro]:
  "(\<And>ok. P (EvPatchStatus base (set_phase p m) ok)) \<Longrightarrow> emits P (transitionPhase E m base p)"
  unfolding transitionPhase_def by (intro emits_intro)

lemma emits_failMigration [emits_intro]:
  "(\<And>cs ok. P (EvPatchStatus m (set_status (st_conditions_update cs) (set_phase PhaseFailed m)) ok)) \<Longrightarrow>
     emits P (failMigration E m reason)"
  unfolding failMigration_def Let_def by (intro emits_intro)

lemma emits_callAgent [emits_intro]:
  "(\<And>u ok. P (EvHttp u body ok)) \<Longrightarrow> emits P (callAgent E ip path body)"
  unfolding callAgent_def Let_def by (intro emits_intro)

lemma emits_agent_calls [emits_intro]:
  "(\<And>u b ok. P (EvHttp u b ok)) \<Longrightarrow> emits P (callAgentRegistryPush E ip t c i)"
  "(\<And>u b ok. P (EvHttp u b ok)) \<Longrightarrow> emits P (callAgentLocalLoad E ip t c i)"
  by (simp_all add: callAgentRegistryPush_def callAgentLocalLoad_def emits_callAgent)

text \<open>The corresponding rules of the path-by-path calculus.\<close>

lemma yields_emits_bind:
  assumes "emits P f" and "\<And>r es'. list_all P es' \<Longrightarrow> yields (g r) (\<lambda>b es. Q b (es' @ es))"
  shows "yields (State_Monad.bind f g) Q"
  by (rule yields_bind [OF assms(1) [unfolded emits_def]]) (rule assms(2))

lemma yields_quiet_bind:
  assumes "emits (\<lambda>_. False) f" and "\<And>r. yields (g r) Q"
  shows "yields (State_Monad.bind f g) Q"
proof (rule yields_bind)
  show "yields f (\<lambda>_. list_all (\<lambda>_. False))" using assms(1) by (simp add: emits_def)
next
  fix a es assume "list_all (\<lambda>_. False) (es :: event list)"
  then have "es = []" by (cases es) simp_all
  then show "yields (g a) (\<lambda>b es'. Q b (es @ es'))" using assms(2) by simp
qed

lemma yields_helpers [yields_intro]:
  "(\<And>r. yields (g2 r) Q) \<Longrightarrow> yields (State_Monad.bind (elapsedSince E k m) g2) Q"
  "(\<And>r. yields (g3 r) Q) \<Longrightarrow> yields (State_Monad.bind (pollingBackoff E m k) g3) Q"
  "(\<And>r. yields (g4 r) Q) \<Longrightarrow> yields (State_Monad.bind (findAgentPodIP E n) g4) Q"
  by (rule yields_quiet_bind, rule emits_intro, blast)+

lemma yields_stampTiming [yields_intro]:
  assumes "\<And>t. yields (g (timing_put k (rfc3339_format t) m)) Q"
  shows "yields (State_Monad.bind (stampTiming E k m) g) Q"
  by (simp add: stampTiming_def) (intro yields_intro assms)

text \<open>A transition patches the new phase once; it asks for a requeue exactly when the patch went through.\<close>

lemma yields_transitionPhase:
  "yields (transitionPhase E m base p) (\<lambda>r es. \<exists>ok. es = [EvPatchStatus base (set_phase p m) ok] \<and>
     (if ok then r = (res_requeue, None) else fst r = res_done \<and> snd r \<noteq> None))"
  unfolding transitionPhase_def
  by (intro yields_intro) (auto split: sum.split)

lemma yields_failMigration:
  "yields (failMigration E m reason) (\<lambda>r es. \<exists>ok t. es = [EvPatchStatus m
       (set_status (st_conditions_update (\<lambda>cs. setStatusCondition E cs (failed_condition reason t)))
          (set_phase PhaseFailed m)) ok] \<and>
     (if ok then r = (res_done, None) else fst r = res_done \<and> snd r \<noteq> None))"
  unfolding failMigration_def Let_def
  by (intro yields_intro) auto

lemma yields_polling: "yields (pollingBackoff E m k) (\<lambda>d es. es = [] \<and> d \<in> {1 * second, 2 * second, 5 * second})"
proof -
  have pure: "emits (\<lambda>_. False) (elapsedSince E k m)" by (intro emits_intro)
  show ?thesis
    unfolding pollingBackoff_def
    by (intro yields_quiet_bind [OF pure] yields_return) (simp add: backoff_interval_def split: option.split)
qed

section \<open>The properties\<close>

text \<open>
  The polling interval is one, two or five seconds, it is computed without a call that changes anything, and it
  never gets shorter as time goes by: a later reading of the clock gives at least the interval of an earlier one.
\<close>

lemma polling_backoff_bounds:
  "yields (pollingBackoff E m k) (\<lambda>d es. es = [] \<and> d \<in> {1 * second, 2 * second, 5 * second}) \<and>
   backoff_interval (min e1 e2) \<le> backoff_interval (max e1 e2)"
  using yields_polling [of E m k] by (auto simp: backoff_interval_def second_def min_def max_def)

text \<open>
  A duration recorded in the status is the measured one to the nearest millisecond, whatever was there before, and
  nothing else of the object changes.
\<close>

lemma recorded_duration_error:
  "\<exists>d'. timing_get n (recordPhaseTiming n d m) = Some (duration_string d') \<and>
     millisecond dvd d' \<and> 2 * \<bar>d' - d\<bar> \<le> millisecond \<and> same_but_timings (recordPhaseTiming n d m) m"
  using duration_round_dvd [of millisecond d] duration_round_error [of millisecond d] recordPhaseTiming_same [of n d m]
  by (intro exI [of _ "duration_round d millisecond"]) (simp add: millisecond_def)

text \<open>
  C40: What \<open>stampTiming\<close> writes at time \<open>t\<close>, \<open>elapsedSince\<close> reads back at time \<open>t'\<close>: the elapsed time is
  exact but for the second that RFC 3339 cuts off, so it is at least \<open>t' - t\<close> and less than a second more. This holds for
  every time whose year has four digits and any map of timings.
\<close>

theorem stamp_elapsed_roundtrip:
  assumes "st_phaseTimings (mig_status m) \<noteq> None" "time_ok (fst (clock_now E (ext w)))"
    and "run_state (stampTiming E k m) w = (s, w1)"
  shows "\<exists>m1 d. s = Some m1 \<and> fst (run_state (elapsedSince E k m1) w2) = Some d \<and>
    fst (clock_now E (ext w2)) - fst (clock_now E (ext w)) \<le> d \<and>
    d < fst (clock_now E (ext w2)) - fst (clock_now E (ext w)) + second"
proof -
  let ?t = "fst (clock_now E (ext w))" and ?u = "fst (clock_now E (ext w2))"
  obtain m1 where m1: "timing_put k (rfc3339_format ?t) m = Some m1"
    using assms(1) by (auto simp: timing_put_def)
  then have s: "s = Some m1" using assms(3) by (simp add: stampTiming_def now_def run_ext_call)
  have "timing_get k m1 = Some (rfc3339_format ?t)" using timing_get_put [OF m1] by simp
  then have "fst (run_state (elapsedSince E k m1) w2) = Some (?u - ?t div 1000000000 * 1000000000)"
    by (simp add: elapsedSince_def rfc3339_roundtrip [OF assms(2)] since_def now_def run_ext_call)
  moreover have "?t div 1000000000 * 1000000000 \<le> ?t" "?t < ?t div 1000000000 * 1000000000 + 1000000000"
    using div_bounds [of 1000000000 ?t] by (simp_all add: mult.commute)
  ultimately show ?thesis using s by (intro exI [of _ m1] exI conjI) (auto simp: second_def)
qed

end
