(* ===== verification/Contracts.thy ===== *)
theory Contracts
  imports Helpers
begin

text \<open>
  The contract of a phase handler: which phases its status patches may name, and that a request to go on at
  once comes only after a patch of the next phase that went through. \<open>ends P f Q\<close> is a Hoare triple on the
  state of the outside world, and \<open>single_writer\<close> describes an API server whose copy of the phase and
  the sub-phase is changed by this controller only.
\<close>

section \<open>How a computation ends\<close>

named_theorems ends_intro \<comment> \<open>syntax-directed rules for \<open>ends\<close>\<close>
named_theorems steady_intro \<comment> \<open>syntax-directed rules for \<open>steady\<close>\<close>

definition ends :: "('w \<Rightarrow> bool) \<Rightarrow> ('w, 'a) go \<Rightarrow> ('a \<Rightarrow> 'w \<Rightarrow> bool) \<Rightarrow> bool" where
  "ends P f Q \<longleftrightarrow> (\<forall>w. P (ext w) \<longrightarrow> Q (fst (run_state f w)) (ext (snd (run_state f w))))"

definition steady :: "('w \<Rightarrow> bool) \<Rightarrow> ('w, 'a) go \<Rightarrow> bool" where
  "steady P f \<longleftrightarrow> ends P f (\<lambda>_. P)"

lemma endsD: "ends P f Q \<Longrightarrow> P (ext w) \<Longrightarrow> run_state f w = (a, w') \<Longrightarrow> Q a (ext w')"
  by (metis ends_def fst_conv snd_conv)

lemma endsI: "(\<And>w a w'. P (ext w) \<Longrightarrow> run_state f w = (a, w') \<Longrightarrow> Q a (ext w')) \<Longrightarrow> ends P f Q"
  unfolding ends_def by (metis prod.collapse)

lemma ends_return: "(\<And>x. P x \<Longrightarrow> Q a x) \<Longrightarrow> ends P (go_return a) Q"
  by (simp add: ends_def)

lemma ends_seq:
  fixes f :: "('w, 'a) go" and g :: "'a \<Rightarrow> ('w, 'b) go"
  assumes "ends P f R" and "\<And>a. ends (R a) (g a) Q"
  shows "ends P (State_Monad.bind f g) Q"
  unfolding ends_def
proof (intro allI impI)
  fix w :: "'w world" assume "P (ext w)"
  obtain a w1 where r: "run_state f w = (a, w1)" by fastforce
  then have "R a (ext w1)" using endsD [OF assms(1) \<open>P (ext w)\<close>] by simp
  then show "Q (fst (run_state (State_Monad.bind f g) w)) (ext (snd (run_state (State_Monad.bind f g) w)))"
    using assms(2) [of a] r by (simp add: ends_def)
qed

lemma ends_bind: "steady P f \<Longrightarrow> (\<And>a. ends P (g a) Q) \<Longrightarrow> ends P (State_Monad.bind f g) Q"
  unfolding steady_def by (rule ends_seq)

lemma ends_if [ends_intro]: "(b \<Longrightarrow> ends P f Q) \<Longrightarrow> (\<not> b \<Longrightarrow> ends P g Q) \<Longrightarrow> ends P (if b then f else g) Q"
  by simp

lemma ends_sum [ends_intro]:
  "(\<And>a. x = Inl a \<Longrightarrow> ends P (f a) Q) \<Longrightarrow> (\<And>a. x = Inr a \<Longrightarrow> ends P (g a) Q) \<Longrightarrow> ends P (case_sum f g x) Q"
  by (cases x) simp_all

lemma ends_option [ends_intro]:
  "(x = None \<Longrightarrow> ends P f Q) \<Longrightarrow> (\<And>a. x = Some a \<Longrightarrow> ends P (g a) Q) \<Longrightarrow> ends P (case_option f g x) Q"
  by (cases x) simp_all

lemma ends_prod [ends_intro]: "(\<And>a b. x = (a, b) \<Longrightarrow> ends P (f a b) Q) \<Longrightarrow> ends P (case_prod f x) Q"
  by (cases x) simp

lemma ends_list [ends_intro]:
  "(x = [] \<Longrightarrow> ends P f Q) \<Longrightarrow> (\<And>a as. x = a # as \<Longrightarrow> ends P (g a as) Q) \<Longrightarrow> ends P (case_list f g x) Q"
  by (cases x) simp_all

lemma ends_mono: "ends P f R \<Longrightarrow> (\<And>a x. R a x \<Longrightarrow> Q a x) \<Longrightarrow> ends P f Q"
  by (simp add: ends_def)

lemma ends_pre: "ends P f Q \<Longrightarrow> (\<And>x. P' x \<Longrightarrow> P x) \<Longrightarrow> ends P' f Q"
  by (simp add: ends_def)

lemma steady_rules [steady_intro]:
  "steady P (go_return a)"
  "steady P f \<Longrightarrow> (\<And>a. steady P (g a)) \<Longrightarrow> steady P (State_Monad.bind f g)"
  "(b \<Longrightarrow> steady P f) \<Longrightarrow> (\<not> b \<Longrightarrow> steady P f') \<Longrightarrow> steady P (if b then f else f')"
  "(\<And>a. steady P (h a)) \<Longrightarrow> (\<And>a. steady P (h' a)) \<Longrightarrow> steady P (case_sum h h' s)"
  "steady P f \<Longrightarrow> (\<And>a. steady P (k a)) \<Longrightarrow> steady P (case_option f k x)"
  "(\<And>a b. steady P (l a b)) \<Longrightarrow> steady P (case_prod l y)"
  by (auto simp: steady_def intro: ends_return ends_bind [unfolded steady_def] ends_sum ends_option ends_prod)

text \<open>Two continuations that agree where the first part ends give the same run.\<close>

lemma run_bind_cong:
  assumes "ends P f R" "P (ext w)" and "\<And>a w1. R a (ext w1) \<Longrightarrow> run_state (g a) w1 = run_state (h a) w1"
  shows "run_state (State_Monad.bind f g) w = run_state (State_Monad.bind f h) w"
proof -
  obtain a w1 where r: "run_state f w = (a, w1)" by fastforce
  then show ?thesis using assms(3) [OF endsD [OF assms(1, 2) r]] by simp
qed

section \<open>The server's copy\<close>

text \<open>
  \<open>V\<close> reads the phase and the sub-phase the server holds. A merge patch that goes through carries a field
  exactly when it differs from that of its base; the answers of the server show what it holds; no other call, and
  nobody else, changes the two fields.
\<close>

definition merged_view :: "StatefulMigration \<Rightarrow> StatefulMigration \<Rightarrow> string \<times> string \<Rightarrow> string \<times> string" where
  "merged_view base obj v = (if phase obj = phase base then fst v else phase obj,
     if subPhase obj = subPhase base then snd v else subPhase obj)"

definition view_of :: "StatefulMigration \<Rightarrow> string \<times> string" where
  "view_of m = (phase m, subPhase m)"

definition shows_view :: "('w \<Rightarrow> string \<times> string) \<Rightarrow> ('w \<Rightarrow> (go_error + StatefulMigration) \<times> 'w) \<Rightarrow> bool" where
  "shows_view V f \<longleftrightarrow> (\<forall>w. V (snd (f w)) = V w \<and> (\<forall>m. fst (f w) = Inr m \<longrightarrow> view_of m = V w))"

definition leaves_view :: "('w \<Rightarrow> string \<times> string) \<Rightarrow> ('w \<Rightarrow> 'r \<times> 'w) \<Rightarrow> bool" where
  "leaves_view V f \<longleftrightarrow> (\<forall>w. V (snd (f w)) = V w)"

definition patches_view :: "'w env \<Rightarrow> ('w \<Rightarrow> string \<times> string) \<Rightarrow> bool" where
  "patches_view E V \<longleftrightarrow> (\<forall>base obj w. let (r, x) = api_patchStatus E base obj w in
     V x = (if ok_sum r then merged_view base obj (V w) else V w) \<and> (\<forall>m'. r = Inr m' \<longrightarrow> view_of m' = V x))"

definition single_writer :: "'w env \<Rightarrow> ('w \<Rightarrow> string \<times> string) \<Rightarrow> bool" where
  "single_writer E V \<longleftrightarrow> patches_view E V \<and>
     (\<forall>ns n. shows_view V (api_getMigration E ns n)) \<and> (\<forall>m. shows_view V (api_updateMigration E m)) \<and>
     (\<forall>ns n. leaves_view V (api_getPod E ns n)) \<and> (\<forall>ns n. leaves_view V (api_getJob E ns n)) \<and>
     (\<forall>ns n. leaves_view V (api_getSts E ns n)) \<and> (\<forall>ns n. leaves_view V (api_getRs E ns n)) \<and>
     (\<forall>ns n. leaves_view V (api_getDeployment E ns n)) \<and> (\<forall>ns l. leaves_view V (api_listPods E ns l)) \<and>
     (\<forall>b p. leaves_view V (api_patchPod E b p)) \<and> (\<forall>b s. leaves_view V (api_patchSts E b s)) \<and>
     (\<forall>b d. leaves_view V (api_patchDeployment E b d)) \<and> (\<forall>j. leaves_view V (api_createJob E j)) \<and>
     (\<forall>p. leaves_view V (api_createPod E p)) \<and> (\<forall>p g. leaves_view V (api_deletePod E p g)) \<and>
     (\<forall>u. leaves_view V (br_connect (broker E) u)) \<and> leaves_view V (br_close (broker E)) \<and>
     (\<forall>q x k. leaves_view V (br_createSecondaryQueue (broker E) q x k)) \<and>
     (\<forall>q x. leaves_view V (br_unbindQueue (broker E) q x)) \<and>
     (\<forall>q p x. leaves_view V (br_deleteSecondaryQueue (broker E) q p x)) \<and>
     (\<forall>q. leaves_view V (br_getQueueDepth (broker E) q)) \<and> (\<forall>q. leaves_view V (br_getQueueStats (broker E) q)) \<and>
     (\<forall>p t l. leaves_view V (br_sendControlMessage (broker E) p t l)) \<and>
     (\<forall>q x k. leaves_view V (br_bindQueue (broker E) q x k)) \<and>
     (\<forall>q x. leaves_view V (br_declareAndBindQueue (broker E) q x)) \<and>
     (\<forall>q. leaves_view V (br_deleteQueue (broker E) q)) \<and>
     (\<forall>ck a b c d. kubelet_checkpoint E = Some ck \<longrightarrow> leaves_view V (ck a b c d)) \<and>
     (\<forall>u b. leaves_view V (http_post E u b)) \<and> leaves_view V (clock_now E)"

text \<open>The precondition of every step of a handler: the server holds phase \<open>p\<close> and sub-phase \<open>s\<close>.\<close>

definition holds :: "('w \<Rightarrow> string \<times> string) \<Rightarrow> string \<Rightarrow> string \<Rightarrow> 'w \<Rightarrow> bool" where
  "holds V p s x \<longleftrightarrow> V x = (p, s)"

lemma steady_ext_call: "leaves_view V f \<Longrightarrow> steady (holds V p s) (ext_call f ev)"
  by (simp add: steady_def ends_def run_ext_call leaves_view_def holds_def)

lemma steady_calls [steady_intro]:
  assumes "single_writer E V"
  shows "steady (holds V p s) (getPod E ns n)" "steady (holds V p s) (getJob E ns n)" "steady (holds V p s) (getSts E ns n)"
    "steady (holds V p s) (getRs E ns n)" "steady (holds V p s) (getDeployment E ns n)" "steady (holds V p s) (listPods E ns l)"
    "steady (holds V p s) (patchPod E pb pp)" "steady (holds V p s) (patchSts E sb ss)"
    "steady (holds V p s) (patchDeployment E db dd)" "steady (holds V p s) (createJob E j)"
    "steady (holds V p s) (createPod E pp)" "steady (holds V p s) (deletePod E pp g)" "steady (holds V p s) (now E)"
  using assms by (simp_all add: call_defs steady_ext_call single_writer_def)

lemma steady_broker_calls [steady_intro]:
  assumes "single_writer E V"
  shows "steady (holds V p s) (brokerConnect E u)" "steady (holds V p s) (brokerClose E)"
    "steady (holds V p s) (createSecondaryQueue E q x k)" "steady (holds V p s) (unbindQueue E q x)"
    "steady (holds V p s) (deleteSecondaryQueue E q q' x)" "steady (holds V p s) (getQueueDepth E q)"
    "steady (holds V p s) (getQueueStats E q)" "steady (holds V p s) (sendControlMessage E c t l)"
    "steady (holds V p s) (bindQueue E q x k)" "steady (holds V p s) (declareAndBindQueue E q x)"
    "steady (holds V p s) (deleteQueue E q)" "steady (holds V p s) (httpPost E url body)"
  using assms by (simp_all add: call_defs steady_ext_call single_writer_def)

lemma steady_checkpoint [steady_intro]:
  assumes "single_writer E V" "kubelet_checkpoint E = Some ck"
  shows "steady (holds V p s) (checkpointContainer ck a b c d)"
  using assms by (simp add: call_defs steady_ext_call single_writer_def)

lemma steady_helpers [steady_intro]:
  assumes "single_writer E V"
  shows "steady (holds V p s) (since E t)" "steady (holds V p s) (stampTiming E k m)"
    "steady (holds V p s) (elapsedSince E k m)" "steady (holds V p s) (pollingBackoff E m k)"
    "steady (holds V p s) (findAgentPodIP E n)" "steady (holds V p s) (callAgent E ip path body)"
  unfolding since_def stampTiming_def elapsedSince_def pollingBackoff_def findAgentPodIP_def callAgent_def Let_def
  by (intro steady_intro assms)+

lemma steady_agent_calls [steady_intro]:
  assumes "single_writer E V"
  shows "steady (holds V p s) (callAgentRegistryPush E ip t c i)" "steady (holds V p s) (callAgentLocalLoad E ip t c i)"
  unfolding callAgentRegistryPush_def callAgentLocalLoad_def by (intro steady_intro assms)+

text \<open>Reads and answers show the view, so that the object in memory keeps agreeing with the server.\<close>

definition agrees :: "string \<Rightarrow> string \<Rightarrow> StatefulMigration \<Rightarrow> bool" where
  "agrees p s m \<longleftrightarrow> phase m = p \<and> subPhase m = s"

lemma ends_shows:
  assumes "shows_view V f"
  shows "ends (holds V p s) (ext_call f ev) (\<lambda>r x. holds V p s x \<and> (\<forall>m. r = Inr m \<longrightarrow> agrees p s m))"
proof -
  have "V (snd (f w)) = V w" "fst (f w) = Inr m \<Longrightarrow> (phase m, subPhase m) = V w" for w m
    using assms by (simp_all add: shows_view_def view_of_def)
  then show ?thesis by (auto simp: ends_def run_ext_call holds_def agrees_def) (metis prod.inject)+
qed

lemma ends_getMigration:
  "single_writer E V \<Longrightarrow>
     ends (holds V p s) (getMigration E ns n) (\<lambda>r x. holds V p s x \<and> (\<forall>m. r = Inr m \<longrightarrow> agrees p s m))"
  by (simp add: getMigration_def single_writer_def ends_shows)

text \<open>A read that succeeds shows what the server holds.\<close>

lemma getMigration_shows:
  assumes "single_writer E V" "run_state (getMigration E ns name) w = (Inr m', w')"
  shows "V (ext w') = V (ext w)" "V (ext w') = view_of m'" "phase m' = fst (V (ext w))" "subPhase m' = snd (V (ext w))"
proof -
  have "shows_view V (api_getMigration E ns name)" using assms(1) by (simp add: single_writer_def)
  then show *: "V (ext w') = V (ext w)" "V (ext w') = view_of m'"
    using assms(2) by (auto simp: getMigration_def run_ext_call shows_view_def)
  show "phase m' = fst (V (ext w))" "subPhase m' = snd (V (ext w))" unfolding *(1) [symmetric] *(2) by (simp_all add: view_of_def)
qed

lemma ends_updateMigration:
  "single_writer E V \<Longrightarrow>
     ends (holds V p s) (updateMigration E m) (\<lambda>r x. holds V p s x \<and> (\<forall>m. r = Inr m \<longrightarrow> agrees p s m))"
  by (simp add: updateMigration_def single_writer_def ends_shows)

text \<open>After a patch whose base agrees with the server, the server holds the phase and sub-phase patched.\<close>

lemma patches_viewD:
  assumes "patches_view E V" "api_patchStatus E base obj w = (r, x)"
  shows "V x = (if ok_sum r then merged_view base obj (V w) else V w)" "r = Inr m' \<Longrightarrow> view_of m' = V x"
  using assms(1) [unfolded patches_view_def, THEN spec [of _ base], THEN spec [of _ obj], THEN spec [of _ w]]
  by (simp_all add: assms(2) Let_def)

lemma ends_patchStatus:
  fixes E :: "'w env"
  assumes "single_writer E V" "agrees p s base"
  shows "ends (holds V p s) (patchStatus E base obj) (\<lambda>r x. case r of Inl _ \<Rightarrow> holds V p s x
    | Inr m' \<Rightarrow> holds V (phase obj) (subPhase obj) x \<and> agrees (phase obj) (subPhase obj) m')"
  unfolding ends_def
proof (intro allI impI)
  fix w :: "'w world" assume w: "holds V p s (ext w)"
  obtain r x where r: "api_patchStatus E base obj (ext w) = (r, x)" by fastforce
  have "patches_view E V" using assms(1) by (simp add: single_writer_def)
  note patches_viewD [OF this r]
  then show "case fst (run_state (patchStatus E base obj) w) of
      Inl _ \<Rightarrow> holds V p s (ext (snd (run_state (patchStatus E base obj) w)))
    | Inr m' \<Rightarrow> holds V (phase obj) (subPhase obj) (ext (snd (run_state (patchStatus E base obj) w))) \<and>
        agrees (phase obj) (subPhase obj) m'"
    using w assms(2) r
    by (auto simp: patchStatus_def run_ext_call holds_def agrees_def merged_view_def view_of_def split: sum.splits if_splits)
qed

lemma ends_conj_pre: "(R \<Longrightarrow> ends P f Q) \<Longrightarrow> ends (\<lambda>x. P x \<and> R) f Q"
  by (auto simp: ends_def)

lemma ends_fact_bind:
  assumes "ends P f (\<lambda>a x. P x \<and> R a)" and "\<And>a. R a \<Longrightarrow> ends P (g a) Q"
  shows "ends P (State_Monad.bind f g) Q"
  by (rule ends_seq [OF assms(1)], rule ends_conj_pre, rule assms(2))

lemma ends_any: "ends P f (\<lambda>_ _. True)"
  by (simp add: ends_def)

text \<open>A fact about the result alone, whatever the state.\<close>

lemma ends_result_bind:
  assumes "ends P f (\<lambda>a _. R a)" and "\<And>a. R a \<Longrightarrow> ends (\<lambda>_. True) (g a) Q"
  shows "ends P (State_Monad.bind f g) Q"
  by (rule ends_seq [OF assms(1)]) (use assms(2) in \<open>auto simp: ends_def\<close>)

lemma ends_patchStatusIgnore_result:
  assumes "single_writer E V" "agrees p s base" "agrees p s m"
  shows "ends (holds V p s) (patchStatusIgnore E base m) (\<lambda>m' x. holds V p s x \<and> agrees p s m')"
  unfolding patchStatusIgnore_def
  by (rule ends_seq [OF ends_patchStatus [OF assms(1, 2)]], rule ends_return)
    (use assms(3) in \<open>auto simp: agrees_def split: sum.splits\<close>)

lemmas ends_patchStatusIgnore = ends_fact_bind [OF ends_patchStatusIgnore_result]

section \<open>The contract of a phase handler\<close>

text \<open>The loop of \<open>Reconcile\<close> goes on exactly on these results; an error or a delay ends it, too.\<close>

definition reply_continues :: "reply \<Rightarrow> bool" where
  "reply_continues r \<longleftrightarrow> \<not> (snd r \<noteq> None \<or> 0 < requeue_after (fst r)) \<and> requeue (fst r)"

lemma reply_continues_simps [simp]:
  "\<not> reply_continues (x, Some e)" "\<not> reply_continues (res_done, e')" "\<not> reply_continues (res_after d, e')"
  "reply_continues (res_requeue, None)"
  by (simp_all add: reply_continues_def)

text \<open>A status patch leaves the phase of its base or sets one of \<open>targets\<close>.\<close>

definition phase_legal :: "string list \<Rightarrow> event \<Rightarrow> bool" where
  "phase_legal targets e = (case e of
     EvPatchStatus base obj ok \<Rightarrow> phase obj = phase base \<or> phase obj \<in> set targets
   | _ \<Rightarrow> True)"

lemma phase_legal_simps [simp]:
  "phase_legal ts (EvPatchStatus b m ok) \<longleftrightarrow> phase m = phase b \<or> phase m \<in> set ts"
  "phase_legal ts (EvUpdateMigration m ok)" "phase_legal ts (EvPatchPod pb p ok)"
  "phase_legal ts (EvPatchSts sb s ok)" "phase_legal ts (EvPatchDeployment db d ok)"
  "phase_legal ts (EvCreateJob j ok)" "phase_legal ts (EvCreatePod p ok)" "phase_legal ts (EvDeletePod p g ok)"
  "phase_legal ts (EvConnect url ok)" "phase_legal ts (EvClose ok)" "phase_legal ts (EvCreateSecondary q q' rk ok)"
  "phase_legal ts (EvUnbind q q' ok)" "phase_legal ts (EvDeleteSecondary q q' ex ok)"
  "phase_legal ts (EvDepth q r)" "phase_legal ts (EvStats q r')" "phase_legal ts (EvSend p' ty pl ok)"
  "phase_legal ts (EvBind q ex ok)" "phase_legal ts (EvDeclareBind q ex ok)" "phase_legal ts (EvDeleteQueue q ok)"
  "phase_legal ts (EvCheckpoint n ns p' c ok)" "phase_legal ts (EvHttp url body ok)"
  by (simp_all add: phase_legal_def)

lemma phase_legal_mono: "phase_legal ts e \<Longrightarrow> set ts \<subseteq> set ts' \<Longrightarrow> phase_legal ts' e"
  by (cases e) auto

text \<open>
  The phase the server holds after a sequence of calls, from the one it held before: a merge patch that went
  through carries the phase exactly when it differs from that of its base.
\<close>

fun merged_phase :: "string \<Rightarrow> event list \<Rightarrow> string" where
  "merged_phase p [] = p"
| "merged_phase p (EvPatchStatus base obj True # es) =
     merged_phase (if phase obj = phase base then p else phase obj) es"
| "merged_phase p (_ # es) = merged_phase p es"

lemma merged_phase_legal:
  "list_all (phase_legal ts) es \<Longrightarrow> p \<in> S \<Longrightarrow> set ts \<subseteq> S \<Longrightarrow> merged_phase p es \<in> S"
  by (induction p es rule: merged_phase.induct) (auto split: if_splits)

definition advances :: "('w \<Rightarrow> string \<times> string) \<Rightarrow> string list \<Rightarrow> reply \<Rightarrow> 'w \<Rightarrow> bool" where
  "advances V targets r x \<longleftrightarrow> (reply_continues r \<longrightarrow> fst (V x) \<in> set targets)"

lemma advances_simps [simp]:
  "advances V ts (x, Some e) y" "advances V ts (res_done, e') y" "advances V ts (res_after d, e') y"
  by (simp_all add: advances_def)

locale phase_handler =
  fixes H :: "'w env \<Rightarrow> StatefulMigration \<Rightarrow> ('w, reply) go"
    and targets :: "string list"
  assumes legal: "emits (phase_legal targets) (H E m)"
    and progress: "single_writer E V \<Longrightarrow> ends (holds V (phase m) (subPhase m)) (H E m) (advances V targets)"
begin

text \<open>After the handler the server holds the phase it held before or one of the targets.\<close>

lemma merged: "yields (H E m) (\<lambda>_ es. merged_phase p es \<in> set (p # targets))"
  by (rule yields_mono [OF legal [unfolded emits_def]])
    (rule merged_phase_legal, assumption, auto)

text \<open>When the handler asks to go on, the server holds one of its targets.\<close>

lemma next_phase:
  assumes "single_writer E V" "V (ext w) = view_of m" "run_state (H E m) w = (r, w1)" "reply_continues r"
  shows "fst (V (ext w1)) \<in> set targets"
  using endsD [OF progress [OF assms(1)] _ assms(3)] assms by (simp add: holds_def view_of_def advances_def)

end

text \<open>The rules for the two ways the handlers end.\<close>

lemma ends_transitionPhase:
  assumes "single_writer E V" "agrees p s base" "t \<in> set ts"
  shows "ends (holds V p s) (transitionPhase E m base t) (advances V ts)"
  unfolding transitionPhase_def
  by (rule ends_seq [OF ends_patchStatus [OF assms(1, 2)]], rule ends_sum)
    (auto simp: advances_def holds_def assms(3) intro!: ends_return)

lemma ends_failMigration_any: "ends P (failMigration E m reason) (\<lambda>r _. \<not> reply_continues r)"
  unfolding failMigration_def Let_def ends_def by (auto split: sum.splits prod.splits)

lemma yields_failed:
  "yields (failMigration E m reason) (\<lambda>r es. \<exists>cs ok.
     es = [EvPatchStatus m (set_status (st_conditions_update cs) (set_phase PhaseFailed m)) ok] \<and> \<not> reply_continues r)"
proof (rule yields_mono [OF yields_failMigration], elim exE conjE)
  fix r :: reply and es ok t
  assume es: "es = [EvPatchStatus m
       (set_status (st_conditions_update (\<lambda>cs. setStatusCondition E cs (failed_condition reason t)))
          (set_phase PhaseFailed m)) ok]"
    and "if ok then r = (res_done, None) else fst r = res_done \<and> snd r \<noteq> None"
  then have "\<not> reply_continues r" by (cases ok) (auto simp: reply_continues_def)
  with es show "\<exists>cs ok. es = [EvPatchStatus m (set_status (st_conditions_update cs) (set_phase PhaseFailed m)) ok] \<and>
      \<not> reply_continues r" by blast
qed

lemma ends_failMigration: "ends P (failMigration E m reason) (advances V ts)"
  by (rule ends_mono [OF ends_failMigration_any]) (simp add: advances_def)

lemma ends_reply: "\<not> reply_continues r \<Longrightarrow> ends P (go_return r) (advances V ts)"
  by (rule ends_return) (simp add: advances_def)

text \<open>A stamp is a write of some value to the timings.\<close>

lemma ends_stamp:
  assumes "single_writer E V" and "\<And>v. ends (holds V p s) (g (timing_put k v m)) Q"
  shows "ends (holds V p s) (State_Monad.bind (stampTiming E k m) g) Q"
  unfolding stampTiming_def by (simp, intro ends_bind steady_intro assms)

lemmas ends_rules = ends_transitionPhase ends_failMigration ends_reply ends_patchStatusIgnore ends_stamp

lemma agrees_simps [simp]:
  "agrees p s (ensurePhaseTimings m) \<longleftrightarrow> agrees p s m" "agrees p s (timing_del k m) \<longleftrightarrow> agrees p s m"
  "agrees p s (recordPhaseTiming k d m) \<longleftrightarrow> agrees p s m" "agrees (phase m) (subPhase m) m"
  by (simp_all add: agrees_def)

lemma agrees_put: "timing_put k v m = Some m' \<Longrightarrow> agrees p s m' \<longleftrightarrow> agrees p s m"
  by (simp add: agrees_def timing_put_simps)

end
