(* ===== verification/Pending.thy ===== *)
theory Pending
  imports Contracts
begin

text \<open>
  The first phase, \<open>handlePending\<close>: look the source pod up, wait until it runs, resolve the
  container and the strategy, and record in the status what later phases need. The two loops over
  owner references are functions of their own.
\<close>

section \<open>Operations\<close>

definition resolveContainerName :: "StatefulMigration \<Rightarrow> pod \<Rightarrow> string" where
  "resolveContainerName m p =
     (if spec_containerName (mig_spec m) = '''' \<and> pod_containers p \<noteq> []
      then c_name (hd (pod_containers p)) else spec_containerName (mig_spec m))"

fun detectStrategy :: "owner_ref list \<Rightarrow> string" where
  "detectStrategy [] = ''ShadowPod''"
| "detectStrategy (ref # refs) = (if ref_kind ref = ''StatefulSet'' then ''Sequential'' else detectStrategy refs)"

text \<open>
  The strategy block: without a strategy in the spec the detected one is persisted with an
  update, and the object is fetched again. \<open>Inl\<close> is the early return with that error.
\<close>

definition persistStrategy :: "'w env \<Rightarrow> StatefulMigration \<Rightarrow> pod \<Rightarrow> ('w, go_error + StatefulMigration) go" where
  "persistStrategy E m p =
     (if strategy m = '''' then do {
        let m1 = mig_spec_update (spec_migrationStrategy_update (\<lambda>_. detectStrategy (pod_ownerReferences p))) m;
        r \<leftarrow> updateMigration E m1;
        case r of
          Inl err \<Rightarrow> go_return (Inl err)
        | Inr m2 \<Rightarrow> getMigration E (mig_namespace m2) (mig_name m2)
      } else go_return (Inr m))"

definition deploymentOwner :: "owner_ref list \<Rightarrow> string option" where
  "deploymentOwner refs = map_option ref_name (find (\<lambda>r. ref_kind r = ''Deployment'') refs)"

fun recordOwner :: "'w env \<Rightarrow> owner_ref list \<Rightarrow> StatefulMigration \<Rightarrow> ('w, StatefulMigration) go" where
  "recordOwner E [] m = go_return m"
| "recordOwner E (ref # refs) m =
     (if ref_kind ref = ''StatefulSet''
      then go_return (set_status (st_statefulSetName_update (\<lambda>_. ref_name ref)) m)
      else if ref_kind ref = ''ReplicaSet''
      then do {
        r \<leftarrow> getRs E (mig_namespace m) (ref_name ref);
        go_return (case r of
            Inl _ \<Rightarrow> m
          | Inr rs \<Rightarrow> (case deploymentOwner (rs_ownerReferences rs) of
                None \<Rightarrow> m
              | Some d \<Rightarrow> set_status (st_deploymentName_update (\<lambda>_. d)) m))
      }
      else recordOwner E refs m)"

text \<open>The status fields written from the source pod.\<close>

definition capturePod :: "pod \<Rightarrow> string \<Rightarrow> int \<Rightarrow> StatefulMigration \<Rightarrow> StatefulMigration" where
  "capturePod p containerName t m =
     set_status (st_sourcePodLabels_update (\<lambda>_. pod_labels p) \<circ>
                 st_sourceContainers_update (\<lambda>_. pod_containers p))
       (ensurePhaseTimings
         (set_status (st_sourceNode_update (\<lambda>_. pod_nodeName p) \<circ>
                      st_containerName_update (\<lambda>_. containerName) \<circ>
                      st_startTime_update (\<lambda>_. Some t)) m))"

definition handlePending :: "'w env \<Rightarrow> StatefulMigration \<Rightarrow> ('w, reply) go" where
  "handlePending E m = do {
     r \<leftarrow> getPod E (mig_namespace m) (sourcePod m);
     case r of
       Inl err \<Rightarrow>
         if is_not_found err
         then failMigration E m (''source pod '' @ quote (sourcePod m) @ '' not found'')
         else go_return (res_done, Some err)
     | Inr p \<Rightarrow>
         if pod_deletionTimestamp p \<noteq> None then go_return (res_after (3 * second), None)
         else if pod_phase p \<noteq> ''Running'' then go_return (res_after (3 * second), None)
         else if resolveContainerName m p = ''''
         then failMigration E m ''could not determine container name for source pod''
         else do {
           s \<leftarrow> persistStrategy E m p;
           case s of
             Inl err \<Rightarrow> go_return (res_done, Some err)
           | Inr base \<Rightarrow> do {
               t \<leftarrow> now E;
               m3 \<leftarrow> recordOwner E (pod_ownerReferences p) (capturePod p (resolveContainerName m p) t base);
               transitionPhase E m3 base PhaseCheckpointing
             }
         }
   }"

section \<open>Facts\<close>

lemma detectStrategy_eq:
  "detectStrategy refs = (if \<exists>r \<in> set refs. ref_kind r = ''StatefulSet'' then ''Sequential'' else ''ShadowPod'')"
  by (induction refs) auto

lemma capturePod_simps [simp]:
  "phase (capturePod p c t m) = phase m" "mig_spec (capturePod p c t m) = mig_spec m"
  "mig_name (capturePod p c t m) = mig_name m" "mig_namespace (capturePod p c t m) = mig_namespace m"
  "subPhase (capturePod p c t m) = subPhase m"
  "st_sourceNode (mig_status (capturePod p c t m)) = pod_nodeName p"
  "st_containerName (mig_status (capturePod p c t m)) = c"
  "st_startTime (mig_status (capturePod p c t m)) = Some t"
  "st_sourcePodLabels (mig_status (capturePod p c t m)) = pod_labels p"
  "st_sourceContainers (mig_status (capturePod p c t m)) = pod_containers p"
  by (simp_all add: capturePod_def ensurePhaseTimings_def split: option.splits)

lemma emits_recordOwner [emits_intro]: "emits P (recordOwner E refs m)"
  by (induction refs arbitrary: m) (auto intro!: emits_intro)

lemma emits_persistStrategy [emits_intro]:
  "(\<And>m' ok. P (EvUpdateMigration m' ok)) \<Longrightarrow> emits P (persistStrategy E m p)"
  unfolding persistStrategy_def Let_def by (intro emits_intro)

text \<open>The owner loop writes nothing but the name of the owning StatefulSet or Deployment.\<close>

definition only_owner_changed :: "StatefulMigration \<Rightarrow> StatefulMigration \<Rightarrow> bool" where
  "only_owner_changed a b \<longleftrightarrow> (\<exists>s d. b = set_status (st_statefulSetName_update (\<lambda>_. s) \<circ>
     st_deploymentName_update (\<lambda>_. d)) a)"

lemma only_owner_changed_refl: "only_owner_changed m m"
  unfolding only_owner_changed_def
  by (intro exI [of _ "st_statefulSetName (mig_status m)"] exI [of _ "st_deploymentName (mig_status m)"]) simp

lemma only_owner_changed_sts: "only_owner_changed m (set_status (st_statefulSetName_update (\<lambda>_. s)) m)"
  unfolding only_owner_changed_def
  by (intro exI [of _ s] exI [of _ "st_deploymentName (mig_status m)"]) simp

lemma only_owner_changed_dep: "only_owner_changed m (set_status (st_deploymentName_update (\<lambda>_. d)) m)"
  unfolding only_owner_changed_def
  by (intro exI [of _ "st_statefulSetName (mig_status m)"] exI [of _ d]) simp

lemma yields_recordOwner: "yields (recordOwner E refs m) (\<lambda>m' es. es = [] \<and> only_owner_changed m m')"
proof (induction refs)
  case Nil
  show ?case by (auto intro!: yields_intro only_owner_changed_refl)
next
  case (Cons ref refs)
  then show ?case
    by (auto intro!: yields_intro only_owner_changed_refl only_owner_changed_sts only_owner_changed_dep
        split: sum.splits option.splits)
qed

lemma only_owner_changedD:
  assumes "only_owner_changed a b"
  shows "phase b = phase a" "subPhase b = subPhase a" "mig_spec b = mig_spec a"
    "st_sourceNode (mig_status b) = st_sourceNode (mig_status a)"
    "st_containerName (mig_status b) = st_containerName (mig_status a)"
    "st_startTime (mig_status b) = st_startTime (mig_status a)"
    "st_sourcePodLabels (mig_status b) = st_sourcePodLabels (mig_status a)"
    "st_sourceContainers (mig_status b) = st_sourceContainers (mig_status a)"
    "st_conditions (mig_status b) = st_conditions (mig_status a)"
  using assms by (auto simp: only_owner_changed_def)

section \<open>The contract\<close>

lemma emits_handlePending_legal: "emits (phase_legal [PhaseCheckpointing, PhaseFailed]) (handlePending E m)"
  unfolding handlePending_def by (intro emits_intro) simp_all

lemma ends_persistStrategy:
  assumes sw: "single_writer E V" and "agrees p s m"
  shows "ends (holds V p s) (persistStrategy E m pd) (\<lambda>r x. holds V p s x \<and> (\<forall>b. r = Inr b \<longrightarrow> agrees p s b))"
proof -
  have again: "ends (\<lambda>x. holds V p s x \<and> (\<forall>m'. r = Inr m' \<longrightarrow> agrees p s m'))
      (case r of Inl err \<Rightarrow> go_return (Inl err) | Inr m2 \<Rightarrow> getMigration E (mig_namespace m2) (mig_name m2))
      (\<lambda>r x. holds V p s x \<and> (\<forall>b. r = Inr b \<longrightarrow> agrees p s b))" for r
    by (cases r) (auto intro!: ends_return ends_pre [OF ends_getMigration [OF sw]])
  show ?thesis
    unfolding persistStrategy_def Let_def
    by (intro ends_if ends_seq [OF ends_updateMigration [OF sw] again] ends_return) (simp add: assms(2))
qed

lemma steady_recordOwner: "single_writer E V \<Longrightarrow> steady (holds V p s) (recordOwner E refs m)"
  by (induction refs arbitrary: m) (auto intro!: steady_intro)

lemma ends_handlePending:
  assumes sw: "single_writer E V"
  shows "ends (holds V (phase m) (subPhase m)) (handlePending E m) (advances V [PhaseCheckpointing, PhaseFailed])"
proof -
  have rest: "ends (\<lambda>x. holds V p s x \<and> (\<forall>b. r = Inr b \<longrightarrow> agrees p s b))
      (case r of Inl err \<Rightarrow> go_return (res_done, Some err)
       | Inr base \<Rightarrow> do {
           t \<leftarrow> now E;
           m3 \<leftarrow> recordOwner E refs (capturePod pd c t base);
           transitionPhase E m3 base PhaseCheckpointing })
      (advances V [PhaseCheckpointing, PhaseFailed])" for p s r refs pd c
  proof (cases r)
    case (Inr base)
    then show ?thesis
      by (auto intro!: ends_conj_pre ends_rules ends_bind steady_intro steady_recordOwner sw)
  qed (simp add: ends_reply)
  show ?thesis
    unfolding handlePending_def
    by (intro ends_seq [OF ends_persistStrategy [OF sw] rest] ends_rules ends_intro ends_bind steady_intro sw) simp_all
qed

interpretation pending: phase_handler handlePending "[PhaseCheckpointing, PhaseFailed]"
  by unfold_locales (rule emits_handlePending_legal, erule ends_handlePending)

section \<open>The properties\<close>

text \<open>
  C24: Without a strategy in the spec, the controller chooses Sequential exactly for a pod that some StatefulSet
  owns, whatever other owners it has and in whatever order.
\<close>

theorem detectStrategy_reference:
  "detectStrategy refs = (if ''StatefulSet'' \<in> ref_kind ` set refs then ''Sequential'' else ''ShadowPod'')"
  by (auto simp: detectStrategy_eq image_iff) (metis)

text \<open>What is recorded of a source pod that the API server showed.\<close>

definition pending_capture :: "'w env \<Rightarrow> StatefulMigration \<Rightarrow> StatefulMigration \<Rightarrow> StatefulMigration \<Rightarrow> bool" where
  "pending_capture E m base obj \<longleftrightarrow> (\<exists>p x. fst (api_getPod E (mig_namespace m) (sourcePod m) x) = Inr p \<and>
     pod_phase p = ''Running'' \<and> pod_deletionTimestamp p = None \<and>
     phase obj = PhaseCheckpointing \<and> subPhase obj = subPhase base \<and> mig_spec obj = mig_spec base \<and>
     st_sourceNode (mig_status obj) = pod_nodeName p \<and>
     st_containerName (mig_status obj) = resolveContainerName m p \<and> resolveContainerName m p \<noteq> '''' \<and>
     st_sourcePodLabels (mig_status obj) = pod_labels p \<and> st_sourceContainers (mig_status obj) = pod_containers p \<and>
     st_startTime (mig_status obj) \<noteq> None \<and> st_phaseTimings (mig_status obj) \<noteq> None)"

lemma yields_owner_transition:
  assumes "\<And>m'. only_owner_changed m m' \<Longrightarrow> R (set_phase p m')"
  shows "yields (State_Monad.bind (recordOwner E refs m) (\<lambda>m'. transitionPhase E m' base p))
    (\<lambda>r es. \<exists>obj ok. es = [EvPatchStatus base obj ok] \<and> R obj \<and> reply_continues r = ok)"
proof (rule yields_bind [OF yields_recordOwner])
  fix m' es assume "(es :: event list) = [] \<and> only_owner_changed m m'"
  then have "es = []" "R (set_phase p m')" using assms by simp_all
  then show "yields (transitionPhase E m' base p) (\<lambda>r es'. \<exists>obj ok.
      es @ es' = [EvPatchStatus base obj ok] \<and> R obj \<and> reply_continues r = ok)"
    by (intro yields_mono [OF yields_transitionPhase]) (auto simp: reply_continues_def split: if_splits)
qed

lemma pending_captures:
  assumes "only_owner_changed (capturePod p c t base) m'" "c = resolveContainerName m p" "c \<noteq> ''''"
    "pod_phase p = ''Running''" "pod_deletionTimestamp p = None"
    "Inr p = fst (api_getPod E (mig_namespace m) (sourcePod m) x)"
  shows "pending_capture E m base (set_phase PhaseCheckpointing m')"
  unfolding pending_capture_def
  by (rule exI [of _ p], rule exI [of _ x])
    (use assms in \<open>auto simp: only_owner_changed_def capturePod_def ensurePhaseTimings_def split: option.splits\<close>)

lemma yields_persistStrategy:
  "yields (persistStrategy E m p) (\<lambda>r es. (es = [] \<and> r = Inr m) \<or>
     (\<exists>m' ok. es = [EvUpdateMigration m' ok] \<and> (ok \<or> (\<exists>e. r = Inl e))))"
proof -
  have read: "yields (getMigration E ns n) (\<lambda>r es. es = [])" for ns n
    by (simp add: call_defs yields_ext_call)
  show ?thesis
    unfolding persistStrategy_def Let_def
    by (intro yields_intro yields_mono [OF read]) auto
qed

lemma yields_captureAndAdvance:
  assumes "resolveContainerName m p \<noteq> ''''" "pod_phase p = ''Running''" "pod_deletionTimestamp p = None"
    "Inr p = fst (api_getPod E (mig_namespace m) (sourcePod m) x)"
  shows "yields (State_Monad.bind (now E) (\<lambda>t. State_Monad.bind
      (recordOwner E refs (capturePod p (resolveContainerName m p) t base))
      (\<lambda>m3. transitionPhase E m3 base PhaseCheckpointing)))
    (\<lambda>r es. \<exists>obj ok. es = [EvPatchStatus base obj ok] \<and> pending_capture E m base obj \<and> reply_continues r = ok)"
  by (intro yields_quiet yields_owner_transition) (rule pending_captures [OF _ refl assms])


end
