(* ===== verification/Checkpointing.thy ===== *)
theory Checkpointing
  imports Contracts
begin

text \<open>
  The second and third phases: \<open>handleCheckpointing\<close> sets the message fan-out up and then has the
  kubelet checkpoint the source container; \<open>handleTransferring\<close> has the checkpoint turned into an
  image, by the node agent or by a transfer job.
\<close>

section \<open>Checkpointing\<close>

text \<open>
  The checkpoint block. Without a kubelet client the code falls back to a fixed path; a reply without items leaves
  the checkpoint id as it is. \<open>Inl\<close> is the error of the kubelet call.
\<close>

definition takeCheckpoint :: "'w env \<Rightarrow> StatefulMigration \<Rightarrow> ('w, go_error + StatefulMigration) go" where
  "takeCheckpoint E m = (case kubelet_checkpoint E of
      Some ck \<Rightarrow> do {
        r \<leftarrow> checkpointContainer ck (st_sourceNode (mig_status m)) (mig_namespace m) (sourcePod m)
               (st_containerName (mig_status m));
        go_return (case r of
            Inl err \<Rightarrow> Inl err
          | Inr [] \<Rightarrow> Inr m
          | Inr (item # _) \<Rightarrow> Inr (set_status (st_checkpointID_update (\<lambda>_. item)) m))
      }
    | None \<Rightarrow> go_return (Inr (set_status (st_checkpointID_update
        (\<lambda>_. ''/var/lib/kubelet/checkpoints/checkpoint-'' @ sourcePod m @ ''.tar'')) m)))"

definition handleCheckpointing :: "'w env \<Rightarrow> StatefulMigration \<Rightarrow> ('w, reply) go" where
  "handleCheckpointing E m = do {
     let base = m;
     phaseStart \<leftarrow> now E;
     let cfg = mqCfg m;
     c \<leftarrow> brokerConnect E (brokerURL cfg);
     case c of
       Some err \<Rightarrow> failMigration E m (''broker connect: '' @ err_text err)
     | None \<Rightarrow> do {
         q \<leftarrow> createSecondaryQueue E (queueName cfg) (exchangeName cfg) (routingKey cfg);
         case q of
           Inl err \<Rightarrow> failMigration E m (''create secondary queue: '' @ err_text err)
         | Inr _ \<Rightarrow> do {
             k \<leftarrow> takeCheckpoint E m;
             case k of
               Inl err \<Rightarrow> failMigration E m (''kubelet checkpoint: '' @ err_text err)
             | Inr m1 \<Rightarrow> do {
                 d \<leftarrow> since E phaseStart;
                 transitionPhase E (recordPhaseTiming ''Checkpointing'' d m1) base PhaseTransferring
               }
           }
       }
   }"

section \<open>Transferring\<close>

definition checkpointImageRef :: "StatefulMigration \<Rightarrow> string" where
  "checkpointImageRef m = spec_checkpointImageRepository (mig_spec m) @ ''/'' @ sourcePod m @ '':checkpoint''"

definition transferJobName :: "StatefulMigration \<Rightarrow> string" where
  "transferJobName m = mig_name m @ ''-transfer''"

definition transferArgs :: "StatefulMigration \<Rightarrow> string list" where
  "transferArgs m =
     [st_checkpointID (mig_status m),
      if spec_transferMode (mig_spec m) = ''Direct''
      then ''http://ms2m-agent.ms2m-system.svc.cluster.local:9443/checkpoint''
      else checkpointImageRef m,
      st_containerName (mig_status m)]"

definition root_context :: "bool option \<Rightarrow> security_context" where
  "root_context priv = \<lparr>sc_privileged = priv, sc_runAsUser = Some 0, sc_runAsGroup = Some 0\<rparr>"

definition transferJob :: "'w env \<Rightarrow> string \<Rightarrow> StatefulMigration \<Rightarrow> job" where
  "transferJob E jobName m = \<lparr>
     job_name = jobName,
     job_namespace = mig_namespace m,
     job_labels = [(''migration.ms2m.io/migration'', mig_name m), (''migration.ms2m.io/phase'', ''transferring'')],
     job_ownerReferences = [newControllerRef E m],
     job_restartPolicy = ''Never'',
     job_nodeSelector = [(''kubernetes.io/hostname'', st_sourceNode (mig_status m))],
     job_containers = [\<lparr>c_name = ''checkpoint-transfer'', c_image = ''localhost/checkpoint-transfer:latest'',
       c_imagePullPolicy = ''IfNotPresent'', c_ports = [],
       c_env = [\<lparr>env_name = ''INSECURE_REGISTRY'', env_value = ''true''\<rparr>],
       c_args = transferArgs m,
       c_volumeMounts = [\<lparr>vm_name = ''checkpoints'', vm_mountPath = ''/var/lib/kubelet/checkpoints'', vm_readOnly = True\<rparr>],
       c_securityContext = Some (root_context None)\<rparr>],
     job_volumes = [(''checkpoints'', ''/var/lib/kubelet/checkpoints'')],
     job_succeeded = 0, job_failed = 0\<rparr>"

definition createTransferJob :: "'w env \<Rightarrow> string \<Rightarrow> StatefulMigration \<Rightarrow> ('w, reply) go" where
  "createTransferJob E jobName m = do {
     c \<leftarrow> createJob E (transferJob E jobName m);
     case c of
       Some err \<Rightarrow>
         if is_already_exists err then go_return (res_after (2 * second), None)
         else failMigration E m (''create transfer job: '' @ err_text err)
     | None \<Rightarrow> go_return (res_after (2 * second), None)
   }"

text \<open>
  The start of a phase: on the first entry the key is stamped and the status patched, with the
  error of the patch dropped. \<open>None\<close> is the panic of the write to a nil map.
\<close>

definition recordStart :: "'w env \<Rightarrow> string \<Rightarrow> StatefulMigration \<Rightarrow> ('w, StatefulMigration option) go" where
  "recordStart E k m =
     (if timing_get k m = None then do {
        let base = m;
        s \<leftarrow> stampTiming E k m;
        case s of
          None \<Rightarrow> go_return None
        | Some m1 \<Rightarrow> do { m2 \<leftarrow> patchStatusIgnore E base m1; go_return (Some m2) }
      } else go_return (Some m))"

text \<open>
  The end of a phase that recorded its start: the elapsed time since the start (zero when it does
  not parse), with the start key removed.
\<close>

definition finishStart :: "'w env \<Rightarrow> string \<Rightarrow> StatefulMigration \<Rightarrow> ('w, int \<times> StatefulMigration) go" where
  "finishStart E k m = do {
     d \<leftarrow> elapsedSince E k m;
     go_return (duration_or_zero d, timing_del k m)
   }"

definition handleTransferringViaJob :: "'w env \<Rightarrow> StatefulMigration \<Rightarrow> ('w, reply) go" where
  "handleTransferringViaJob E m = do {
     let jobName = transferJobName m;
     r \<leftarrow> getJob E (mig_namespace m) jobName;
     case r of
       Inl err \<Rightarrow>
         if is_not_found err then do {
           s \<leftarrow> recordStart E ''Transferring.start'' m;
           case s of
             None \<Rightarrow> go_return (res_done, Some NilMapPanic)
           | Some m1 \<Rightarrow> createTransferJob E jobName m1
         } else go_return (res_done, Some err)
     | Inr existingJob \<Rightarrow>
         if 1 \<le> job_succeeded existingJob then do {
           let base = m;
           (duration, m1) \<leftarrow> finishStart E ''Transferring.start'' m;
           transitionPhase E (recordPhaseTiming ''Transferring'' duration m1) base PhaseRestoring
         } else do {
           d \<leftarrow> pollingBackoff E m ''Transferring.start'';
           go_return (res_after d, None)
         }
   }"

definition handleTransferring :: "'w env \<Rightarrow> StatefulMigration \<Rightarrow> ('w, reply) go" where
  "handleTransferring E m0 = do {
     let m = ensurePhaseTimings m0;
     if spec_transferMode (mig_spec m) \<noteq> ''Direct'' then do {
       agent \<leftarrow> findAgentPodIP E (st_sourceNode (mig_status m));
       case agent of
         Inr agentIP \<Rightarrow> do {
           let base = m;
           phaseStart \<leftarrow> now E;
           p \<leftarrow> callAgentRegistryPush E agentIP (st_checkpointID (mig_status m))
                  (st_containerName (mig_status m)) (checkpointImageRef m);
           case p of
             Some err \<Rightarrow> failMigration E m (''agent registry-push: '' @ err_text err)
           | None \<Rightarrow> do {
               d \<leftarrow> since E phaseStart;
               transitionPhase E (recordPhaseTiming ''Transferring'' d m) base PhaseRestoring
             }
         }
       | Inl _ \<Rightarrow> handleTransferringViaJob E m
     } else handleTransferringViaJob E m
   }"

section \<open>Facts\<close>

lemma emits_takeCheckpoint [emits_intro]:
  "(\<And>ok. P (EvCheckpoint (st_sourceNode (mig_status m)) (mig_namespace m) (sourcePod m)
      (st_containerName (mig_status m)) ok)) \<Longrightarrow> emits P (takeCheckpoint E m)"
  unfolding takeCheckpoint_def by (intro emits_intro)

text \<open>The checkpoint block changes the checkpoint id at most.\<close>

lemma yields_takeCheckpoint:
  "yields (takeCheckpoint E m) (\<lambda>r es.
     es = (if kubelet_checkpoint E = None then []
       else [EvCheckpoint (st_sourceNode (mig_status m)) (mig_namespace m) (sourcePod m)
              (st_containerName (mig_status m)) (ok_sum r)]) \<and>
     (kubelet_checkpoint E = None \<longrightarrow> ok_sum r) \<and>
     (\<forall>m'. r = Inr m' \<longrightarrow> (\<exists>i. m' = set_status (st_checkpointID_update (\<lambda>_. i)) m)))"
proof -
  have self: "\<exists>i. m = set_status (st_checkpointID_update (\<lambda>_. i)) m"
    by (intro exI [of _ "st_checkpointID (mig_status m)"]) simp
  show ?thesis
    unfolding takeCheckpoint_def
    by (intro yields_intro) (use self in \<open>auto split: sum.splits list.splits\<close>)
qed

lemma emits_recordStart [emits_intro]:
  assumes "\<And>v m1 ok. timing_put k v m = Some m1 \<Longrightarrow> P (EvPatchStatus m m1 ok)"
  shows "emits P (recordStart E k m)"
proof -
  have "yields (recordStart E k m) (\<lambda>_. list_all P)"
    unfolding recordStart_def Let_def by (intro yields_intro) (auto intro: assms)
  then show ?thesis by (simp add: emits_def)
qed

lemma emits_finishStart [emits_intro]: "emits P (finishStart E k m)"
  unfolding finishStart_def by (intro emits_intro)

lemma yields_finishStart [yields_intro]:
  "(\<And>d. yields (g (d, timing_del k m)) Q) \<Longrightarrow> yields (State_Monad.bind (finishStart E k m) g) Q"
  unfolding finishStart_def by (simp, intro yields_intro)

lemma emits_finishStart_bind:
  "(\<And>d. emits P (g (d, timing_del k m))) \<Longrightarrow> emits P (State_Monad.bind (finishStart E k m) g)"
  unfolding emits_def by (rule yields_finishStart)

lemma emits_createTransferJob [emits_intro]:
  assumes "\<And>ok. P (EvCreateJob (transferJob E n m) ok)"
    and "\<And>cs ok. P (EvPatchStatus m (set_status (st_conditions_update cs) (set_phase PhaseFailed m)) ok)"
  shows "emits P (createTransferJob E n m)"
  unfolding createTransferJob_def by (intro emits_intro assms)

section \<open>The contracts\<close>

lemma emits_recordStart_legal: "emits (phase_legal ts) (recordStart E k m)"
  by (intro emits_intro) (simp add: timing_put_simps)

lemma emits_handleCheckpointing_legal: "emits (phase_legal [PhaseTransferring, PhaseFailed]) (handleCheckpointing E m)"
  unfolding handleCheckpointing_def Let_def by (intro emits_intro) simp_all

lemma steady_takeCheckpoint: "single_writer E V \<Longrightarrow> steady (holds V p s) (takeCheckpoint E m)"
  unfolding takeCheckpoint_def by (cases "kubelet_checkpoint E") (auto intro!: steady_intro)

lemma ends_handleCheckpointing:
  assumes sw: "single_writer E V"
  shows "ends (holds V (phase m) (subPhase m)) (handleCheckpointing E m) (advances V [PhaseTransferring, PhaseFailed])"
  unfolding handleCheckpointing_def Let_def
  by (intro ends_rules ends_intro ends_bind steady_takeCheckpoint steady_intro sw) simp_all

interpretation checkpointing: phase_handler handleCheckpointing "[PhaseTransferring, PhaseFailed]"
  by unfold_locales (rule emits_handleCheckpointing_legal, erule ends_handleCheckpointing)

lemma steady_finishStart [steady_intro]: "single_writer E V \<Longrightarrow> steady (holds V p s) (finishStart E k m)"
  unfolding finishStart_def by (intro steady_intro)

lemma ends_finishStart:
  assumes sw: "single_writer E V"
    and "\<And>d. ends (holds V p s) (g d (timing_del k m)) Q"
  shows "ends (holds V p s) (State_Monad.bind (finishStart E k m) (\<lambda>(d, m1). g d m1)) Q"
  unfolding finishStart_def
  by (simp, intro ends_bind steady_intro sw assms)

text \<open>The start of a phase keeps the object agreeing with the server.\<close>

lemma ends_recordStart_result:
  assumes sw: "single_writer E V" and "agrees p s m"
  shows "ends (holds V p s) (recordStart E k m) (\<lambda>r x. holds V p s x \<and> (\<forall>m'. r = Some m' \<longrightarrow> agrees p s m'))"
  unfolding recordStart_def Let_def
  by (intro ends_patchStatusIgnore ends_stamp ends_intro ends_return sw) (simp_all add: assms(2) agrees_put)

lemma ends_recordStart:
  assumes sw: "single_writer E V" and "agrees p s m"
    and "\<And>m'. agrees p s m' \<Longrightarrow> ends (holds V p s) (g (Some m')) Q" and "ends (holds V p s) (g None) Q"
  shows "ends (holds V p s) (State_Monad.bind (recordStart E k m) g) Q"
proof (rule ends_fact_bind [OF ends_recordStart_result [OF assms(1, 2)]])
  fix r assume "\<forall>m'. r = Some m' \<longrightarrow> agrees p s m'"
  then show "ends (holds V p s) (g r) Q" by (cases r) (auto intro: assms(3, 4))
qed

lemma emits_handleTransferring_legal: "emits (phase_legal [PhaseRestoring, PhaseFailed]) (handleTransferring E m)"
  unfolding handleTransferring_def handleTransferringViaJob_def createTransferJob_def Let_def
  by (intro emits_recordStart_legal emits_intro) simp_all

lemma ends_handleTransferring:
  assumes sw: "single_writer E V"
  shows "ends (holds V (phase m) (subPhase m)) (handleTransferring E m) (advances V [PhaseRestoring, PhaseFailed])"
  unfolding handleTransferring_def handleTransferringViaJob_def createTransferJob_def Let_def
  by (intro ends_recordStart ends_finishStart ends_rules ends_intro ends_bind steady_intro sw) simp_all

interpretation transferring: phase_handler handleTransferring "[PhaseRestoring, PhaseFailed]"
  by unfold_locales (rule emits_handleTransferring_legal, erule ends_handleTransferring)

section \<open>The properties\<close>

text \<open>
  C22: The second phase, on every path. The fan-out is set up before the checkpoint is taken: the calls are connect,
  create the secondary queue, checkpoint, in this order, each only after the one before it has succeeded. All
  of them succeed exactly when the phase patched is the next one; otherwise the migration is marked
  failed. Without a kubelet client (in tests) the third call is left out.
\<close>

theorem checkpoint_after_fanout:
  "yields (handleCheckpointing E m) (\<lambda>r es. \<exists>calls obj ok. es = calls @ [EvPatchStatus m obj ok] \<and>
     (let connect = EvConnect (brokerURL (mqCfg m));
          create = EvCreateSecondary (queueName (mqCfg m)) (exchangeName (mqCfg m)) (routingKey (mqCfg m));
          checkpoint = EvCheckpoint (st_sourceNode (mig_status m)) (mig_namespace m) (sourcePod m)
            (st_containerName (mig_status m))
      in (phase obj = PhaseFailed \<and> \<not> reply_continues r \<and>
            calls \<in> {[connect False], [connect True, create False], [connect True, create True, checkpoint False]}) \<or>
         (phase obj = PhaseTransferring \<and> reply_continues r = ok \<and>
            (if kubelet_checkpoint E = None then calls = [connect True, create True]
             else calls = [connect True, create True, checkpoint True]))))"
  (is "yields _ ?Q")
proof -
  have fail: "yields (failMigration E m reason) (\<lambda>r es. \<exists>obj ok. es = [EvPatchStatus m obj ok] \<and>
      phase obj = PhaseFailed \<and> \<not> reply_continues r)" for reason
    by (rule yields_mono [OF yields_failed]) auto
  have advance: "yields (transitionPhase E m' m PhaseTransferring) (\<lambda>r es. \<exists>obj ok. es = [EvPatchStatus m obj ok] \<and>
      phase obj = PhaseTransferring \<and> reply_continues r = ok)" for m'
    by (rule yields_mono [OF yields_transitionPhase]) (auto simp: reply_continues_def split: if_splits)
  let ?ck = "EvCheckpoint (st_sourceNode (mig_status m)) (mig_namespace m) (sourcePod m) (st_containerName (mig_status m))"
  have third: "yields (State_Monad.bind (takeCheckpoint E m) (\<lambda>k. case k of
        Inl err \<Rightarrow> failMigration E m (x err)
      | Inr m1 \<Rightarrow> State_Monad.bind (since E t) (\<lambda>d. transitionPhase E (recordPhaseTiming n d m1) m PhaseTransferring)))
      (\<lambda>r es. \<exists>ck obj ok. es = ck @ [EvPatchStatus m obj ok] \<and>
        ((phase obj = PhaseFailed \<and> \<not> reply_continues r \<and> ck = [?ck False]) \<or>
         (phase obj = PhaseTransferring \<and> reply_continues r = ok \<and>
          ck = (if kubelet_checkpoint E = None then [] else [?ck True]))))" (is "yields _ ?Q3") for x n t
  proof (rule yields_bind [OF yields_takeCheckpoint], elim conjE)
    fix k :: "go_error + StatefulMigration" and es
    assume k: "es = (if kubelet_checkpoint E = None then [] else [?ck (ok_sum k)])" "kubelet_checkpoint E = None \<longrightarrow> ok_sum k"
    show "yields (case k of Inl err \<Rightarrow> failMigration E m (x err)
      | Inr m1 \<Rightarrow> State_Monad.bind (since E t) (\<lambda>d. transitionPhase E (recordPhaseTiming n d m1) m PhaseTransferring))
      (\<lambda>r es'. ?Q3 r (es @ es'))"
    proof (cases k)
      case (Inl err)
      then have "es = [?ck False]" using k by (auto split: if_splits)
      then show ?thesis unfolding Inl sum.case by (intro yields_mono [OF fail]) auto
    next
      case (Inr m1)
      then have "es = (if kubelet_checkpoint E = None then [] else [?ck True])" using k by simp
      then show ?thesis unfolding Inr sum.case
        by (intro yields_since yields_mono [OF advance]) auto
    qed
  qed
  show ?thesis
    unfolding handleCheckpointing_def Let_def
    by (intro yields_quiet yields_broker yields_option yields_sum yields_mono [OF fail] yields_mono [OF third]; force)
qed

text \<open>
  C38: In Direct transfer mode the third phase never talks to the node agent on the controller's side, whatever
  agents run: the transfer job is the only way, and its arguments name the agent's HTTP end point in place
  of the image reference.
\<close>

theorem direct_mode_never_pushes:
  assumes "spec_transferMode (mig_spec m) = ''Direct''"
  shows "emits (\<lambda>e. \<forall>u b ok. e \<noteq> EvHttp u b ok) (handleTransferring E m) \<and>
    transferArgs m = [st_checkpointID (mig_status m),
      ''http://ms2m-agent.ms2m-system.svc.cluster.local:9443/checkpoint'', st_containerName (mig_status m)]"
proof -
  have start: "emits (\<lambda>e. \<forall>u b ok. e \<noteq> EvHttp u b ok) (recordStart E k m')" for k m'
    by (intro emits_intro) simp
  have job: "emits (\<lambda>e. \<forall>u b ok. e \<noteq> EvHttp u b ok) (handleTransferringViaJob E m')" for m'
    unfolding handleTransferringViaJob_def Let_def by (intro start emits_intro) simp_all
  show ?thesis
    using assms job by (simp add: handleTransferring_def Let_def transferArgs_def)
qed

end
