(* ===== verification/Restoring.thy ===== *)
theory Restoring
  imports Checkpointing
begin

text \<open>
  The fourth phase, \<open>handleRestoring\<close>: get the target pod to run on the destination node. With the
  Sequential strategy the StatefulSet is scaled to zero and its controller removes the
  source pod first; with ShadowPod the target is created beside the source.
\<close>

section \<open>Operations\<close>

abbreviation migration_label :: string where
  "migration_label \<equiv> ''migration.ms2m.io/migration''"

definition targetPodName :: "StatefulMigration \<Rightarrow> string" where
  "targetPodName m = (if strategy m = ''Sequential'' then sourcePod m else sourcePod m @ ''-shadow'')"

text \<open>Reading a missing key of a Go map gives the empty string.\<close>

definition label_of :: "pod \<Rightarrow> string \<Rightarrow> string" where
  "label_of p k = (case map_of (pod_labels p) k of None \<Rightarrow> '''' | Some v \<Rightarrow> v)"

text \<open>
  The wait for the source pod of a StatefulSet to go away: on the first pass remember the
  replica count and scale the StatefulSet to zero; then poll.
\<close>

definition waitForSourceRemoval :: "'w env \<Rightarrow> StatefulMigration \<Rightarrow> ('w, reply) go" where
  "waitForSourceRemoval E m =
     (if st_originalReplicas (mig_status m) = 0 \<and> st_statefulSetName (mig_status m) \<noteq> '''' then do {
        r \<leftarrow> getSts E (mig_namespace m) (st_statefulSetName (mig_status m));
        case r of
          Inl err \<Rightarrow>
            if \<not> is_not_found err then go_return (res_done, Some err)
            else go_return (res_after (2 * second), None)
        | Inr sts \<Rightarrow> (case sts_replicas sts of
              None \<Rightarrow> go_return (res_after (2 * second), None)
            | Some n \<Rightarrow>
                if 0 < n then do {
                  m1 \<leftarrow> patchStatusIgnore E m (set_status (st_originalReplicas_update (\<lambda>_. n)) m);
                  e \<leftarrow> patchSts E sts (sts\<lparr>sts_replicas := Some 0\<rparr>);
                  case e of
                    Some err \<Rightarrow> failMigration E m1 (''scale down StatefulSet '' @
                      quote (st_statefulSetName (mig_status m1)) @ '': '' @ err_text err)
                  | None \<Rightarrow> go_return (res_after (2 * second), None)
                } else go_return (res_after (2 * second), None))
      } else go_return (res_after (2 * second), None))"

text \<open>The target pod exists.\<close>

definition targetPodExists :: "'w env \<Rightarrow> StatefulMigration \<Rightarrow> string \<Rightarrow> pod \<Rightarrow> ('w, reply) go" where
  "targetPodExists E m podName p =
     (if strategy m = ''Sequential'' \<and> label_of p migration_label \<noteq> mig_name m
      then waitForSourceRemoval E m
      else if pod_deletionTimestamp p \<noteq> None \<or> label_of p migration_label \<noteq> mig_name m
      then go_return (res_after (1 * second), None)
      else if pod_phase p \<noteq> ''Running''
      then do {
        d \<leftarrow> pollingBackoff E m ''Restoring.start'';
        go_return (res_after d, None)
      }
      else do {
        let base = m;
        (duration, m2) \<leftarrow> finishStart E ''Restoring.start''
           (set_status (st_targetPod_update (\<lambda>_. podName)) m);
        transitionPhase E (recordPhaseTiming ''Restoring'' duration m2) base PhaseReplaying
      })"

text \<open>The image the checkpoint is restored from, with its pull policy.\<close>

definition checkpointImage :: "StatefulMigration \<Rightarrow> string \<times> string" where
  "checkpointImage m =
     (if spec_transferMode (mig_spec m) = ''Direct''
      then (''localhost/checkpoint/'' @ st_containerName (mig_status m) @ '':latest'', ''Never'')
      else (checkpointImageRef m, ''Always''))"

text \<open>
  Containers and labels of the source: from the live source pod, or for Sequential from what
  the first phase recorded. \<open>Inl\<close> is the error of the lookup.
\<close>

definition gatherSource :: "'w env \<Rightarrow> StatefulMigration \<Rightarrow> ('w, go_error + container list \<times> smap) go" where
  "gatherSource E m =
     (if strategy m \<noteq> ''Sequential'' then do {
        r \<leftarrow> getPod E (mig_namespace m) (sourcePod m);
        go_return (case r of Inl err \<Rightarrow> Inl err | Inr p \<Rightarrow> Inr (pod_containers p, pod_labels p))
      } else if st_sourceContainers (mig_status m) \<noteq> []
      then go_return (Inr (st_sourceContainers (mig_status m), st_sourcePodLabels (mig_status m)))
      else go_return (Inr ([], [])))"

text \<open>A container with every other field at its zero value.\<close>

definition plainContainer :: "string \<Rightarrow> string \<Rightarrow> string \<Rightarrow> (string \<times> int) list \<Rightarrow> container" where
  "plainContainer n img policy ports = \<lparr>c_name = n, c_image = img, c_imagePullPolicy = policy,
     c_ports = ports, c_env = [], c_args = [], c_volumeMounts = [], c_securityContext = None\<rparr>"

definition restoredContainer :: "string \<Rightarrow> string \<Rightarrow> string \<Rightarrow> container \<Rightarrow> container" where
  "restoredContainer containerName img policy c =
     (let restored = plainContainer (c_name c) img policy (c_ports c) in
      if c_name c \<noteq> containerName then restored\<lparr>c_image := c_image c\<rparr> else restored)"

definition restoredContainers :: "string \<Rightarrow> string \<Rightarrow> string \<Rightarrow> container list \<Rightarrow> container list" where
  "restoredContainers containerName img policy cs =
     (if cs \<noteq> [] then map (restoredContainer containerName img policy) cs
      else [plainContainer containerName img policy []])"

text \<open>The migration labels win over labels of the same key on the source pod.\<close>

definition targetLabels :: "string \<Rightarrow> smap \<Rightarrow> smap" where
  "targetLabels migName sourceLabels =
     foldl (\<lambda>labels (k, v). if map_of labels k = None then sm_put k v labels else labels)
       [(migration_label, migName), (''migration.ms2m.io/role'', ''target'')] sourceLabels"

definition targetPod ::
    "'w env \<Rightarrow> StatefulMigration \<Rightarrow> string \<Rightarrow> string \<times> string \<Rightarrow> container list \<times> smap \<Rightarrow> pod" where
  "targetPod E m podName img source = \<lparr>
     pod_name = podName,
     pod_namespace = mig_namespace m,
     pod_labels = targetLabels (mig_name m) (snd source),
     pod_annotations = [(''migration.ms2m.io/checkpoint-image'', fst img)],
     pod_ownerReferences = [newControllerRef E m],
     pod_deletionTimestamp = None,
     pod_nodeName = targetNode m,
     pod_containers = restoredContainers (st_containerName (mig_status m)) (fst img) (snd img) (fst source),
     pod_phase = '''', pod_podIP = ''''\<rparr>"

text \<open>The target pod does not exist.\<close>

definition createTargetPod :: "'w env \<Rightarrow> StatefulMigration \<Rightarrow> string \<Rightarrow> ('w, reply) go" where
  "createTargetPod E m podName = do {
     src \<leftarrow> gatherSource E m;
     case src of
       Inl err \<Rightarrow> failMigration E m (''source pod lookup for restore: '' @ err_text err)
     | Inr source \<Rightarrow> do {
         c \<leftarrow> createPod E (targetPod E m podName (checkpointImage m) source);
         case c of
           Some err \<Rightarrow>
             if is_already_exists err then go_return (res_after (1 * second), None)
             else failMigration E m (''create target pod: '' @ err_text err)
         | None \<Rightarrow> go_return (res_after (1 * second), None)
       }
   }"

definition handleRestoring :: "'w env \<Rightarrow> StatefulMigration \<Rightarrow> ('w, reply) go" where
  "handleRestoring E m0 = do {
     s \<leftarrow> recordStart E ''Restoring.start'' (ensurePhaseTimings m0);
     case s of
       None \<Rightarrow> go_return (res_done, Some NilMapPanic)
     | Some m \<Rightarrow> do {
         let podName = targetPodName m;
         r \<leftarrow> getPod E (mig_namespace m) podName;
         case r of
           Inr p \<Rightarrow> targetPodExists E m podName p
         | Inl err \<Rightarrow>
             if \<not> is_not_found err then go_return (res_done, Some err)
             else createTargetPod E m podName
       }
   }"

section \<open>Facts\<close>

lemma emits_waitForSourceRemoval [emits_intro]:
  assumes "\<And>n ok. P (EvPatchStatus m (set_status (st_originalReplicas_update (\<lambda>_. n)) m) ok)"
    and "\<And>s ok. P (EvPatchSts s (s\<lparr>sts_replicas := Some 0\<rparr>) ok)"
    and "\<And>b cs ok. P (EvPatchStatus b (set_status (st_conditions_update cs) (set_phase PhaseFailed b)) ok)"
  shows "emits P (waitForSourceRemoval E m)"
  unfolding waitForSourceRemoval_def by (intro emits_intro assms)

lemma emits_gatherSource [emits_intro]: "emits P (gatherSource E m)"
  unfolding gatherSource_def by (intro emits_intro)

lemma emits_createTargetPod [emits_intro]:
  assumes "\<And>p ok. P (EvCreatePod p ok)"
    and "\<And>cs ok. P (EvPatchStatus m (set_status (st_conditions_update cs) (set_phase PhaseFailed m)) ok)"
  shows "emits P (createTargetPod E m n)"
  unfolding createTargetPod_def by (intro emits_intro assms)

lemma targetLabels_foldl:
  "map_of (foldl (\<lambda>labels (k, v). if map_of labels k = None then sm_put k v labels else labels) acc l) k =
     (case map_of acc k of Some v \<Rightarrow> Some v | None \<Rightarrow> map_of l k)"
  by (induction l arbitrary: acc) (auto split: option.splits if_splits)

text \<open>What a label of the target pod is: the two migration labels, then those of the source.\<close>

lemma targetLabels_lookup:
  "map_of (targetLabels n l) k =
     (if k = migration_label then Some n
      else if k = ''migration.ms2m.io/role'' then Some ''target'' else map_of l k)"
  unfolding targetLabels_def by (subst targetLabels_foldl) auto

lemma restoredContainer_simps [simp]:
  "c_name (restoredContainer n i p c) = c_name c"
  "c_ports (restoredContainer n i p c) = c_ports c"
  "c_env (restoredContainer n i p c) = []"
  "c_imagePullPolicy (restoredContainer n i p c) = p"
  "c_image (restoredContainer n i p c) = (if c_name c = n then i else c_image c)"
  by (simp_all add: restoredContainer_def plainContainer_def Let_def)

section \<open>The contract\<close>

lemma emits_handleRestoring_legal: "emits (phase_legal [PhaseReplaying, PhaseFailed]) (handleRestoring E m)"
  unfolding handleRestoring_def targetPodExists_def Let_def
  by (intro emits_recordStart_legal emits_intro) simp_all

lemma steady_gatherSource [steady_intro]: "single_writer E V \<Longrightarrow> steady (holds V p s) (gatherSource E m)"
  unfolding gatherSource_def by (intro steady_intro)

lemma ends_handleRestoring:
  assumes sw: "single_writer E V"
  shows "ends (holds V (phase m) (subPhase m)) (handleRestoring E m) (advances V [PhaseReplaying, PhaseFailed])"
  unfolding handleRestoring_def targetPodExists_def waitForSourceRemoval_def createTargetPod_def Let_def
  by (intro ends_recordStart ends_finishStart ends_rules ends_intro ends_bind steady_intro sw) (simp_all add: agrees_def)

interpretation restoring: phase_handler handleRestoring "[PhaseReplaying, PhaseFailed]"
  by unfold_locales (rule emits_handleRestoring_legal, erule ends_handleRestoring)

section \<open>The properties\<close>


text \<open>
  A StatefulSet is scaled only right after a status patch that records the replica count it had, and only
  from a positive count to zero.
\<close>

definition recorded_by :: "event option \<Rightarrow> statefulset \<Rightarrow> statefulset \<Rightarrow> bool" where
  "recorded_by prev s s' = (case prev of
     Some (EvPatchStatus b obj ok) \<Rightarrow> sts_replicas s = Some (st_originalReplicas (mig_status obj)) \<and>
       0 < st_originalReplicas (mig_status obj) \<and> s' = s\<lparr>sts_replicas := Some 0\<rparr>
   | _ \<Rightarrow> False)"

primrec records_before_scaling :: "event option \<Rightarrow> event list \<Rightarrow> bool" where
  "records_before_scaling prev [] = True"
| "records_before_scaling prev (e # es) =
     ((case e of EvPatchSts s s' ok \<Rightarrow> recorded_by prev s s' | _ \<Rightarrow> True) \<and> records_before_scaling (Some e) es)"

text \<open>The calls the phase makes at all: status patches, the scaling, the creation of the target pod.\<close>

fun restoring_call :: "event \<Rightarrow> bool" where
  "restoring_call (EvPatchStatus b obj ok) \<longleftrightarrow> True"
| "restoring_call (EvPatchSts s s' ok) \<longleftrightarrow> True"
| "restoring_call (EvCreatePod p ok) \<longleftrightarrow> True"
| "restoring_call e \<longleftrightarrow> False"

lemma emits_restoring_calls: "emits (restoring_call) (handleRestoring E m)"
proof -
  have "emits (restoring_call) (recordStart E k m')" for k m' by (intro emits_intro) simp
  then show ?thesis
    unfolding handleRestoring_def targetPodExists_def Let_def by (intro emits_intro) simp_all
qed

lemma yields_recordStart:
  "yields (recordStart E k m) (\<lambda>s es. es = [] \<or> (\<exists>obj ok. es = [EvPatchStatus m obj ok]))"
  unfolding recordStart_def Let_def by (intro yields_intro) simp_all

definition scales :: "event \<Rightarrow> bool" where
  "scales e = (case e of EvPatchSts s s' ok \<Rightarrow> True | _ \<Rightarrow> False)"

lemma scales_simps [simp]:
  "scales (EvPatchSts s s' ok)" "\<not> scales (EvPatchStatus b m ok')" "\<not> scales (EvCreatePod p ok'')"
  by (simp_all add: scales_def)

lemma no_scaling_records: "list_all (\<lambda>e. \<not> scales e) es \<Longrightarrow> records_before_scaling prev es"
  by (induction es arbitrary: prev) (auto simp: scales_def split: event.splits)

lemma yields_waitForSourceRemoval:
  "yields (waitForSourceRemoval E m) (\<lambda>r es. records_before_scaling prev es)"
  unfolding waitForSourceRemoval_def failMigration_def Let_def
  by (intro yields_intro) (simp_all add: recorded_by_def)


end
