(* ===== verification/Replaying.thy ===== *)
theory Replaying
  imports Checkpointing
begin

text \<open>
  The fifth phase, \<open>handleReplaying\<close>: have the target pod replay the secondary queue and watch its
  depth. The phase ends when the queue is empty or, in Cutoff mode, when the configured time
  is over; in Drain mode it fails when the depth stops going down.
\<close>

section \<open>Operations\<close>

definition drainMode :: "StatefulMigration \<Rightarrow> bool" where
  "drainMode m \<longleftrightarrow> spec_replayMode (mig_spec m) = ''Drain''"

text \<open>
  The first pass: in Drain mode unbind the queue, stamp the start, send the control message,
  persist the start. \<open>Inl\<close> is an early return.
\<close>

definition startReplay :: "'w env \<Rightarrow> StatefulMigration \<Rightarrow> string \<Rightarrow> ('w, reply + StatefulMigration) go" where
  "startReplay E m secondaryQueue =
     (if timing_get ''Replaying.start'' m = None then do {
        _ \<leftarrow> (if drainMode m then unbindQueue E secondaryQueue (exchangeName (mqCfg m)) else go_return None);
        let base = m;
        s \<leftarrow> stampTiming E ''Replaying.start'' m;
        case s of
          None \<Rightarrow> go_return (Inl (res_done, Some NilMapPanic))
        | Some m1 \<Rightarrow> do {
            e \<leftarrow> sendControlMessage E (st_targetPod (mig_status m1)) ControlStartReplay
                   (Some [(''queue'', secondaryQueue)]);
            case e of
              Some err \<Rightarrow> do {
                r \<leftarrow> failMigration E m1 (''send START_REPLAY: '' @ err_text err);
                go_return (Inl r)
              }
            | None \<Rightarrow> do {
                m2 \<leftarrow> patchStatusIgnore E base m1;
                go_return (Inr m2)
              }
          }
      } else go_return (Inr m))"

definition stallLimit :: int where
  "stallLimit = 30 * second"

definition timing_or_empty :: "string \<Rightarrow> StatefulMigration \<Rightarrow> string" where
  "timing_or_empty k m = (case timing_get k m of None \<Rightarrow> '''' | Some v \<Rightarrow> v)"

text \<open>The test of the stall detection: has the depth gone down since the last pass?\<close>

definition depthDecreased :: "string \<Rightarrow> int \<Rightarrow> bool" where
  "depthDecreased lastDepthStr depth \<longleftrightarrow>
     lastDepthStr = '''' \<or> depth < (if lastDepthStr \<noteq> '''' then sscanf_d lastDepthStr 0 else 0)"

text \<open>How long the depth has been unchanged, when that is over the limit.\<close>

definition stalledFor :: "string \<Rightarrow> int \<Rightarrow> int option" where
  "stalledFor lastDecreaseStr t =
     (if lastDecreaseStr = '''' then None
      else case rfc3339_parse lastDecreaseStr of
        None \<Rightarrow> None
      | Some t0 \<Rightarrow> if stallLimit < t - t0 then Some (t - t0) else None)"

definition replayDrainCheck :: "'w env \<Rightarrow> StatefulMigration \<Rightarrow> int \<Rightarrow> ('w, reply) go" where
  "replayDrainCheck E m depth = do {
     t \<leftarrow> now E;
     let lastDepthStr = timing_or_empty ''Replaying.lastDepth'' m;
     let lastDecreaseStr = timing_or_empty ''Replaying.lastDecrease'' m;
     let base = m;
     case timing_put ''Replaying.lastDepth'' (show_int depth) m of
       None \<Rightarrow> go_return (res_done, Some NilMapPanic)
     | Some m1 \<Rightarrow>
         if depthDecreased lastDepthStr depth
         then (case timing_put ''Replaying.lastDecrease'' (rfc3339_format t) m1 of
             None \<Rightarrow> go_return (res_done, Some NilMapPanic)
           | Some m2 \<Rightarrow> do {
               _ \<leftarrow> patchStatusIgnore E base m2;
               go_return (res_after (2 * second), None)
             })
         else (case stalledFor lastDecreaseStr t of
             Some stalled \<Rightarrow> failMigration E m1 (''replay stalled: queue depth '' @ show_int depth @
               '' unchanged for '' @ duration_string (duration_round stalled second))
           | None \<Rightarrow> do {
               _ \<leftarrow> patchStatusIgnore E base m1;
               go_return (res_after (2 * second), None)
             })
   }"

definition replayDrained :: "'w env \<Rightarrow> StatefulMigration \<Rightarrow> ('w, reply) go" where
  "replayDrained E m = do {
     let base = m;
     (duration, m1) \<leftarrow> finishStart E ''Replaying.start'' m;
     let m2 = timing_del ''Replaying.lastDecrease'' (timing_del ''Replaying.lastDepth'' m1);
     transitionPhase E (recordPhaseTiming ''Replaying'' duration m2) base PhaseFinalizing
   }"

text \<open>\<open>time.Duration(m.Spec.ReplayCutoffSeconds) * time.Second\<close>.\<close>

definition replayCutoff :: "StatefulMigration \<Rightarrow> int" where
  "replayCutoff m = spec_replayCutoffSeconds (mig_spec m) * second"

definition replayCutoffCheck :: "'w env \<Rightarrow> StatefulMigration \<Rightarrow> ('w, reply) go" where
  "replayCutoffCheck E m = do {
     e \<leftarrow> (if 0 < spec_replayCutoffSeconds (mig_spec m)
           then elapsedSince E ''Replaying.start'' m else go_return None);
     if (case e of None \<Rightarrow> False | Some elapsed \<Rightarrow> replayCutoff m < elapsed) then do {
       let base = m;
       let m1 = timing_del ''Replaying.start'' m;
       transitionPhase E (recordPhaseTiming ''Replaying'' (duration_or_zero e) m1) base PhaseFinalizing
     } else do {
       d \<leftarrow> pollingBackoff E m ''Replaying.start'';
       go_return (res_after d, None)
     }
   }"

definition handleReplaying :: "'w env \<Rightarrow> StatefulMigration \<Rightarrow> ('w, reply) go" where
  "handleReplaying E m0 = do {
     let m = ensurePhaseTimings m0;
     let secondaryQueue = replay_queue (queueName (mqCfg m));
     let drain = drainMode m;
     s \<leftarrow> startReplay E m secondaryQueue;
     case s of
       Inl r \<Rightarrow> go_return r
     | Inr m1 \<Rightarrow> do {
         q \<leftarrow> getQueueDepth E secondaryQueue;
         case q of
           Inl err \<Rightarrow> failMigration E m1 (''get queue depth: '' @ err_text err)
         | Inr depth \<Rightarrow>
             if depth = 0 then replayDrained E m1
             else if drain then replayDrainCheck E m1 depth
             else replayCutoffCheck E m1
       }
   }"

section \<open>Facts\<close>

lemma emits_startReplay [emits_intro]:
  assumes "\<And>ok. P (EvUnbind q (exchangeName (mqCfg m)) ok)"
    and "\<And>v m1 ok. timing_put ''Replaying.start'' v m = Some m1 \<Longrightarrow> P (EvPatchStatus m m1 ok)"
    and "\<And>p pl ok. P (EvSend p ControlStartReplay pl ok)"
    and "\<And>b cs ok. P (EvPatchStatus b (set_status (st_conditions_update cs) (set_phase PhaseFailed b)) ok)"
  shows "emits P (startReplay E m q)"
proof -
  have fail: "emits P (failMigration E b r)" for b r by (intro emits_intro assms)
  show ?thesis
    unfolding startReplay_def Let_def
    by (intro emits_stamp_bind emits_intro fail) (auto intro: assms)
qed

text \<open>
  With a parsed previous depth the test is a comparison of depths; the previous depth is what
  the last pass wrote.
\<close>

lemma depthDecreased_show:
  assumes "int64_ok d0"
  shows "depthDecreased (show_int d0) d \<longleftrightarrow> d < d0"
proof -
  have "show_int d0 \<noteq> ''''" by (simp add: show_int_def)
  then show ?thesis using sscanf_show_int [OF assms] by (simp add: depthDecreased_def)
qed

text \<open>The cutoff fits a 64-bit duration for every 32-bit number of seconds.\<close>

lemma replayCutoff_fits:
  assumes "- (2 ^ 31) \<le> spec_replayCutoffSeconds (mig_spec m)" "spec_replayCutoffSeconds (mig_spec m) < 2 ^ 31"
  shows "int64_ok (replayCutoff m)"
  using assms by (simp add: int64_ok_def replayCutoff_def second_def)

section \<open>The contract\<close>

text \<open>The first pass returns early without asking to go on, or leaves the object agreeing with the server.\<close>

lemma ends_startReplay:
  assumes sw: "single_writer E V" and "agrees p s m"
  shows "ends (holds V p s) (startReplay E m q) (\<lambda>r x. case r of Inl rep \<Rightarrow> \<not> reply_continues rep
    | Inr m' \<Rightarrow> holds V p s x \<and> agrees p s m')" (is "ends _ _ ?Q")
proof -
  have fail: "ends (holds V p s) (State_Monad.bind (failMigration E b x) (\<lambda>r. go_return (Inl r))) ?Q" for b x
    by (rule ends_seq [OF ends_failMigration_any]) (simp add: ends_return)
  have unbind: "steady (holds V p s) (if drainMode m then unbindQueue E q x else go_return None)" for x
    by (intro steady_intro sw)
  show ?thesis
    unfolding startReplay_def Let_def
    by (intro fail ends_bind [OF unbind] ends_patchStatusIgnore ends_stamp ends_intro ends_return ends_bind steady_intro sw)
      (simp_all add: assms(2) agrees_put)
qed

lemma emits_replayDrainCheck_legal: "emits (phase_legal [PhaseFinalizing, PhaseFailed]) (replayDrainCheck E m d)"
  unfolding replayDrainCheck_def Let_def by (intro emits_intro) (simp_all add: timing_put_simps)

lemma emits_handleReplaying_legal: "emits (phase_legal [PhaseFinalizing, PhaseFailed]) (handleReplaying E m)"
  unfolding handleReplaying_def replayDrained_def replayCutoffCheck_def Let_def
  by (intro emits_replayDrainCheck_legal emits_intro) (simp_all add: timing_put_simps)

lemma ends_replayDrainCheck:
  assumes sw: "single_writer E V" and "agrees p s m"
  shows "ends (holds V p s) (replayDrainCheck E m d) (advances V [PhaseFinalizing, PhaseFailed])"
  unfolding replayDrainCheck_def Let_def
  by (intro ends_rules ends_intro ends_bind steady_intro sw) (simp_all add: assms(2) agrees_put)

lemma ends_afterStart:
  assumes sw: "single_writer E V" and "agrees p s m"
  shows "ends (holds V p s) (replayDrained E m) (advances V [PhaseFinalizing, PhaseFailed])"
    "ends (holds V p s) (replayCutoffCheck E m) (advances V [PhaseFinalizing, PhaseFailed])"
  unfolding replayDrained_def replayCutoffCheck_def Let_def
  by (intro ends_finishStart ends_rules ends_intro ends_bind steady_intro sw; simp add: assms(2))+

lemma ends_handleReplaying:
  assumes sw: "single_writer E V"
  shows "ends (holds V (phase m) (subPhase m)) (handleReplaying E m) (advances V [PhaseFinalizing, PhaseFailed])"
proof -
  have rest: "ends (\<lambda>x. case r of Inl rep \<Rightarrow> \<not> reply_continues rep | Inr m' \<Rightarrow> holds V p s x \<and> agrees p s m')
      (case r of Inl r \<Rightarrow> go_return r
       | Inr m1 \<Rightarrow> do {
           q \<leftarrow> getQueueDepth E sq;
           case q of Inl err \<Rightarrow> failMigration E m1 (''get queue depth: '' @ err_text err)
           | Inr depth \<Rightarrow> if depth = 0 then replayDrained E m1
                          else if drain then replayDrainCheck E m1 depth else replayCutoffCheck E m1 })
      (advances V [PhaseFinalizing, PhaseFailed])" for r p s sq drain
  proof (cases r)
    case (Inl rep)
    then show ?thesis by (auto intro!: ends_return simp: advances_def)
  next
    case (Inr m1)
    show ?thesis
      unfolding Inr sum.case
      by (intro ends_conj_pre ends_rules ends_afterStart ends_replayDrainCheck ends_intro ends_bind steady_intro sw) simp_all
  qed
  show ?thesis
    unfolding handleReplaying_def Let_def
    by (rule ends_seq [OF ends_startReplay [OF sw] rest]) simp
qed

interpretation replaying: phase_handler handleReplaying "[PhaseFinalizing, PhaseFailed]"
  by unfold_locales (rule emits_handleReplaying_legal, erule ends_handleReplaying)

section \<open>The properties\<close>

definition sends :: "event \<Rightarrow> bool" where
  "sends e = (case e of EvSend p ty pl ok \<Rightarrow> True | _ \<Rightarrow> False)"

lemma sends_simps [simp]:
  "sends (EvSend p ty pl ok)" "\<not> sends (EvPatchStatus b m ok')" "\<not> sends (EvDepth q d)" "\<not> sends (EvUnbind q x ok')"
  by (simp_all add: sends_def)

text \<open>The order of the calls of the first pass, and how it ends.\<close>

definition replay_started :: "StatefulMigration \<Rightarrow> event list \<Rightarrow> bool \<Rightarrow> bool" where
  "replay_started m es sent \<longleftrightarrow> (\<exists>unbound b obj ok. es = unbound @
     [EvSend (st_targetPod (mig_status m)) ControlStartReplay
        (Some [(''queue'', replay_queue (queueName (mqCfg m)))]) sent, EvPatchStatus b obj ok] \<and>
     (if drainMode m then \<exists>ok'. unbound = [EvUnbind (replay_queue (queueName (mqCfg m))) (exchangeName (mqCfg m)) ok']
      else unbound = []) \<and>
     (if sent then phase obj = phase m else phase obj = PhaseFailed))"

lemma yields_unbind_if:
  assumes "\<And>un. (if b then \<exists>ok'. un = [EvUnbind q ex ok'] else un = []) \<Longrightarrow> yields g (\<lambda>r es. Q r (un @ es))"
  shows "yields (State_Monad.bind (if b then unbindQueue E q ex else go_return None) (\<lambda>_. g)) Q"
proof (cases b)
  case True
  then have "yields g (\<lambda>r es. Q r (EvUnbind q ex ok # es))" for ok using assms [of "[EvUnbind q ex ok]"] by simp
  then show ?thesis using True by (simp, intro yields_broker)
next
  case False
  then show ?thesis using assms [of "[]"] by simp
qed

lemma replay_started_ok:
  assumes "if drainMode m then \<exists>ok'. un = [EvUnbind (replay_queue (queueName (mqCfg m))) (exchangeName (mqCfg m)) ok'] else un = []"
    and "timing_put ''Replaying.start'' v m = Some m1"
  shows "replay_started m (un @ [EvSend (st_targetPod (mig_status m1)) ControlStartReplay
      (Some [(''queue'', replay_queue (queueName (mqCfg m)))]) True, EvPatchStatus m m1 ok]) True"
  unfolding replay_started_def
  using assms(1) same_but_timingsD(1,7) [OF timing_put_same [OF assms(2)]]
  by (intro exI [of _ un] exI [of _ m] exI [of _ m1] exI [of _ ok]) simp

lemma replay_started_fail:
  assumes "if drainMode m then \<exists>ok'. un = [EvUnbind (replay_queue (queueName (mqCfg m))) (exchangeName (mqCfg m)) ok'] else un = []"
    and "timing_put ''Replaying.start'' v m = Some m1" and "phase obj = PhaseFailed"
  shows "replay_started m (un @ [EvSend (st_targetPod (mig_status m1)) ControlStartReplay
      (Some [(''queue'', replay_queue (queueName (mqCfg m)))]) False, EvPatchStatus m1 obj ok]) False"
  unfolding replay_started_def
  using assms(1,3) same_but_timingsD(7) [OF timing_put_same [OF assms(2)]]
  by (intro exI [of _ un] exI [of _ m1] exI [of _ obj] exI [of _ ok]) simp

lemma yields_startReplay:
  assumes "timing_get ''Replaying.start'' m = None" "st_phaseTimings (mig_status m) \<noteq> None"
  shows "yields (startReplay E m (replay_queue (queueName (mqCfg m))))
    (\<lambda>s es. replay_started m es True \<and> (\<exists>m2. s = Inr m2) \<or> replay_started m es False \<and> (\<exists>r. s = Inl r))"
    (is "yields _ ?Q")
proof -
  have fail: "yields (State_Monad.bind (failMigration E b x) (\<lambda>r. go_return (Inl r)))
      (\<lambda>s es. \<exists>obj ok r. s = Inl r \<and> es = [EvPatchStatus b obj ok] \<and> phase obj = PhaseFailed)" for b x
    by (rule yields_bind [OF yields_failed]) (auto intro!: yields_return)
  have put: "timing_put ''Replaying.start'' v m \<noteq> None" for v
    using assms(2) by (auto simp: timing_put_def)
  have sent: "yields (State_Monad.bind (sendControlMessage E (st_targetPod (mig_status m1)) ControlStartReplay
        (Some [(''queue'', replay_queue (queueName (mqCfg m)))])) (\<lambda>e. case e of
          Some err \<Rightarrow> State_Monad.bind (failMigration E m1 (x err)) (\<lambda>r. go_return (Inl r))
        | None \<Rightarrow> State_Monad.bind (patchStatusIgnore E m m1) (\<lambda>m2. go_return (Inr m2)))) (\<lambda>s es. ?Q s (un @ es))"
    if un: "if drainMode m then \<exists>ok'. un = [EvUnbind (replay_queue (queueName (mqCfg m))) (exchangeName (mqCfg m)) ok'] else un = []"
      and m1: "timing_put ''Replaying.start'' v m = Some m1" for un v m1 x
    by (intro yields_broker yields_option yields_patchStatusIgnore yields_return yields_mono [OF fail])
      (use replay_started_ok [OF un m1] replay_started_fail [OF un m1] in auto)
  show ?thesis
    unfolding startReplay_def Let_def
    by (simp only: assms(1) simp_thms if_True)
      (intro yields_unbind_if yields_stampTiming yields_option sent, use put in auto)
qed

text \<open>
  C21: The first pass of the replay, on every path. In Drain mode the secondary queue is unbound from the exchange before
  the target is told to replay it, otherwise no queue is unbound; the message goes to the target pod and names the
  secondary queue, and no second message follows. When it cannot be sent, the migration is marked failed at once.
\<close>

theorem replay_starts_in_order:
  assumes "timing_get ''Replaying.start'' m = None"
  shows "yields (handleReplaying E m) (\<lambda>r es. replay_started (ensurePhaseTimings m) es False \<or>
    (\<exists>begun rest. es = begun @ rest \<and> replay_started (ensurePhaseTimings m) begun True \<and> list_all (\<lambda>e. \<not> sends e) rest))"
proof -
  let ?m = "ensurePhaseTimings m"
  have start: "timing_get ''Replaying.start'' ?m = None" "st_phaseTimings (mig_status ?m) \<noteq> None"
    using assms by (simp, simp add: ensurePhaseTimings_def split: option.split)
  have no_fail: "emits (\<lambda>e. \<not> sends e) (failMigration E m' x)" for m' x by (intro emits_intro) simp
  have rest: "emits (\<lambda>e. \<not> sends e) (State_Monad.bind (getQueueDepth E q) (\<lambda>q. case q of
         Inl err \<Rightarrow> failMigration E m1 (x err)
       | Inr depth \<Rightarrow>
           if depth = 0 then replayDrained E m1
           else if b then replayDrainCheck E m1 depth
           else replayCutoffCheck E m1))" for q m1 b x
    unfolding replayDrained_def replayDrainCheck_def replayCutoffCheck_def Let_def
    by (intro no_fail emits_intro) simp_all
  show ?thesis
    unfolding handleReplaying_def Let_def
  proof (rule yields_bind [OF yields_startReplay [OF start]], goal_cases)
    case (1 s es)
    show ?case
    proof (cases s)
      case (Inl r)
      then show ?thesis using 1 by (auto intro: yields_return)
    next
      case (Inr m1)
      then have "replay_started ?m es True" using 1 by blast
      then show ?thesis unfolding Inr sum.case by (intro yields_mono [OF rest [unfolded emits_def]]) blast
    qed
  qed
qed


text \<open>
  The depth a pass writes into the status is the depth the next pass compares with: after writing \<open>d0\<close>, a depth counts
  as decreased exactly when it is smaller, for every depth of 64 bits.
\<close>

lemma recorded_depth_roundtrip:
  assumes "timing_put ''Replaying.lastDepth'' (show_int d0) m = Some m1" "int64_ok d0"
  shows "depthDecreased (timing_or_empty ''Replaying.lastDepth'' m1) d = (d < d0)"
  using timing_get_put [OF assms(1)] by (simp add: timing_or_empty_def depthDecreased_show [OF assms(2)])

text \<open>
  The cutoff is computed in 64-bit nanoseconds from a 32-bit number of seconds; the multiplication cannot
  overflow, and the cutoff grows with the seconds.
\<close>

lemma replay_cutoff_no_overflow:
  assumes "- (2 ^ 31) \<le> spec_replayCutoffSeconds (mig_spec m)" "spec_replayCutoffSeconds (mig_spec m) < 2 ^ 31"
  shows "int64_ok (replayCutoff m) \<and> replayCutoff m div second = spec_replayCutoffSeconds (mig_spec m)"
  using replayCutoff_fits [OF assms] by (simp add: replayCutoff_def second_def)

text \<open>The end of the replay.\<close>

lemma recorded_replay:
  "timing_get ''Replaying.start'' (set_phase p (recordPhaseTiming ''Replaying'' d m)) = timing_get ''Replaying.start'' m"
proof -
  have "timing_get k (set_phase p m') = timing_get k m'" for k m' by (simp add: timing_get_def)
  then show ?thesis by simp
qed

lemma run_transition:
  "\<exists>ok. trace (snd (run_state (transitionPhase E m base p) w)) = trace w @ [EvPatchStatus base (set_phase p m) ok]"
  using yields_transitionPhase [of E m base p] unfolding yields_def by fastforce

text \<open>
  C19: A later pass of the replay in Cutoff mode, with the time \<open>t\<close> on the clock and a depth that could be read. It ends the
  replay exactly when the queue is empty or more than the cutoff has passed since the start, however many messages are left: one
  patch to the last phase, without the start stamp. Otherwise it makes no call and asks for another look within
  five seconds. So with a positive cutoff a backlog cannot hold the migration up for longer, and without one it can for ever.
\<close>

theorem replay_cutoff_iff:
  assumes "\<not> drainMode m" "timing_get ''Replaying.start'' m = Some s" "rfc3339_parse s = Some t0"
    and "br_getQueueDepth (broker E) (replay_queue (queueName (mqCfg m))) (ext w) = (Inr depth, x)" "fst (clock_now E x) = t"
  shows "\<exists>es. trace (snd (run_state (handleReplaying E m) w)) =
      trace w @ EvDepth (replay_queue (queueName (mqCfg m))) (Some depth) # es \<and>
    (if depth = 0 \<or> 0 < spec_replayCutoffSeconds (mig_spec m) \<and> replayCutoff m < t - t0
     then \<exists>obj ok. es = [EvPatchStatus (ensurePhaseTimings m) obj ok] \<and> phase obj = PhaseFinalizing \<and>
       timing_get ''Replaying.start'' obj = None
     else es = [] \<and> (\<exists>d. fst (run_state (handleReplaying E m) w) = (res_after d, None) \<and> 0 < d \<and> d \<le> 5 * second))"
proof -
  let ?m = "ensurePhaseTimings m" and ?q = "replay_queue (queueName (mqCfg m))"
  let ?w = "w\<lparr>ext := x, trace := trace w @ [EvDepth ?q (Some depth)]\<rparr>"
  let ?v = "?w\<lparr>ext := snd (clock_now E x)\<rparr>"
  have start: "timing_get ''Replaying.start'' ?m = Some s" using assms(2) by simp
  have run: "run_state (handleReplaying E m) w =
      run_state (if depth = 0 then replayDrained E ?m else replayCutoffCheck E ?m) ?w"
    using assms(1) start
    by (simp add: handleReplaying_def startReplay_def Let_def getQueueDepth_def run_ext_call assms(4) drainMode_def some_sum_def)
  have elapsed: "run_state (elapsedSince E ''Replaying.start'' ?m) ?w = (Some (t - t0), ?v)"
    using start assms(3, 5) by (simp add: elapsedSince_def since_def now_def run_ext_call)
  have cut: "replayCutoff ?m = replayCutoff m" by (simp add: replayCutoff_def)
  show ?thesis
  proof (cases "depth = 0")
    case True
    let ?n = "timing_del ''Replaying.lastDecrease'' (timing_del ''Replaying.lastDepth'' (timing_del ''Replaying.start'' ?m))"
    have "run_state (handleReplaying E m) w =
        run_state (transitionPhase E (recordPhaseTiming ''Replaying'' (t - t0) ?n) ?m PhaseFinalizing) ?v"
      using elapsed by (simp add: run True replayDrained_def finishStart_def duration_or_zero_def Let_def)
    then show ?thesis
      using run_transition [of E "recordPhaseTiming ''Replaying'' (t - t0) ?n" ?m PhaseFinalizing ?v] True
      by (auto simp: recorded_replay)
  next
    case False
    show ?thesis
    proof (cases "0 < spec_replayCutoffSeconds (mig_spec m) \<and> replayCutoff m < t - t0")
      case True
      let ?n = "timing_del ''Replaying.start'' ?m"
      have "run_state (handleReplaying E m) w =
          run_state (transitionPhase E (recordPhaseTiming ''Replaying'' (t - t0) ?n) ?m PhaseFinalizing) ?v"
        using False True by (simp add: run replayCutoffCheck_def elapsed duration_or_zero_def Let_def cut)
      then show ?thesis
        using run_transition [of E "recordPhaseTiming ''Replaying'' (t - t0) ?n" ?m PhaseFinalizing ?v] True False
        by (auto simp: recorded_replay)
    next
      case no: False
      obtain v where v: "trace v = trace ?w" "run_state (handleReplaying E m) w =
          run_state (State_Monad.bind (pollingBackoff E ?m ''Replaying.start'') (\<lambda>d. go_return (res_after d, None))) v"
      proof (cases "0 < spec_replayCutoffSeconds (mig_spec m)")
        case True
        then show ?thesis
          using False no that [of ?v] by (simp add: run replayCutoffCheck_def elapsed Let_def cut)
      next
        case c: False
        then show ?thesis
          using False that [of ?w] by (simp add: run replayCutoffCheck_def Let_def)
      qed
      obtain d v' where p: "run_state (pollingBackoff E ?m ''Replaying.start'') v = (d, v')" by fastforce
      have "trace v' = trace v" "d \<in> {1 * second, 2 * second, 5 * second}"
        using yieldsD [OF yields_polling p] by auto
      then show ?thesis using v p False no by (auto simp: second_def)
    qed
  qed
qed

end
