(* ===== verification/SwapCommon.thy ===== *)
theory SwapCommon
  imports Contracts
begin

text \<open>
  What the sub-phase handlers of the identity swap share: their result, the patch that ends a
  sub-phase, and the blocks several of them repeat (scaling the StatefulSet, taking a pod out of its
  Services, deleting a pod at once). A handler returns the in-memory object along with the three
  results of the Go function, because the caller goes on with the object the handler has changed.
\<close>

section \<open>The result of a sub-phase\<close>

record swap_result =
  sw_obj :: StatefulMigration
  sw_res :: ctrl_result
  sw_done :: bool
  sw_err :: "go_error option"

definition sw_fail :: "StatefulMigration \<Rightarrow> go_error \<Rightarrow> swap_result" where
  "sw_fail m e = \<lparr>sw_obj = m, sw_res = res_done, sw_done = False, sw_err = Some e\<rparr>"

definition sw_wait :: "StatefulMigration \<Rightarrow> int \<Rightarrow> swap_result" where
  "sw_wait m d = \<lparr>sw_obj = m, sw_res = res_after d, sw_done = False, sw_err = None\<rparr>"

definition sw_next :: "StatefulMigration \<Rightarrow> swap_result" where
  "sw_next m = \<lparr>sw_obj = m, sw_res = res_requeue, sw_done = False, sw_err = None\<rparr>"

definition sw_finished :: "StatefulMigration \<Rightarrow> swap_result" where
  "sw_finished m = \<lparr>sw_obj = m, sw_res = res_done, sw_done = True, sw_err = None\<rparr>"

lemmas sw_defs = sw_fail_def sw_wait_def sw_next_def sw_finished_def

text \<open>
  The loop of \<open>handleIdentitySwap\<close> goes on to another sub-phase exactly on these results.
\<close>

definition sw_continues :: "swap_result \<Rightarrow> bool" where
  "sw_continues r \<longleftrightarrow> \<not> (sw_err r \<noteq> None \<or> sw_done r \<or> 0 < requeue_after (sw_res r) \<or> \<not> requeue (sw_res r))"

lemma sw_continues_simps [simp]:
  "\<not> sw_continues (sw_fail m e)" "0 < d \<Longrightarrow> \<not> sw_continues (sw_wait m d)" "\<not> sw_continues (sw_wait m d)"
  "sw_continues (sw_next m)" "\<not> sw_continues (sw_finished m)"
  by (simp_all add: sw_continues_def sw_defs)

lemma sw_obj_simps [simp]:
  "sw_obj (sw_fail m e) = m" "sw_obj (sw_wait m d) = m" "sw_obj (sw_next m) = m" "sw_obj (sw_finished m) = m"
  "sw_done (sw_finished m)" "\<not> sw_done (sw_fail m e)" "\<not> sw_done (sw_wait m d)" "\<not> sw_done (sw_next m)"
  "sw_err (sw_finished m) = None" "sw_err (sw_fail m e) = Some e" "sw_err (sw_wait m d) = None" "sw_err (sw_next m) = None"
  by (simp_all add: sw_defs)

text \<open>
  The end of a sub-phase: patch the status; an error is returned, otherwise \<open>k\<close> makes the result
  from the object the server answered with.
\<close>

definition swapPatch ::
    "'w env \<Rightarrow> StatefulMigration \<Rightarrow> StatefulMigration \<Rightarrow> (StatefulMigration \<Rightarrow> swap_result) \<Rightarrow> ('w, swap_result) go" where
  "swapPatch E base m k = do {
     r \<leftarrow> patchStatus E base m;
     go_return (case r of Inl err \<Rightarrow> sw_fail m err | Inr m' \<Rightarrow> k m')
   }"

section \<open>Timings\<close>

text \<open>Several writes to the timings in a row.\<close>

fun timing_puts :: "(string \<times> string) list \<Rightarrow> StatefulMigration \<Rightarrow> StatefulMigration option" where
  "timing_puts [] m = Some m"
| "timing_puts ((k, v) # kvs) m = Option.bind (timing_put k v m) (timing_puts kvs)"

definition timing_dels :: "string list \<Rightarrow> StatefulMigration \<Rightarrow> StatefulMigration" where
  "timing_dels ks m = fold timing_del ks m"

lemma timing_puts_same: "timing_puts kvs m = Some m' \<Longrightarrow> same_but_timings m' m"
proof (induction kvs arbitrary: m)
  case Nil
  then show ?case by (simp add: same_but_timings_def)
next
  case (Cons kv kvs)
  obtain k v where kv: "kv = (k, v)" by fastforce
  from Cons.prems kv obtain m1 where m1: "timing_put k v m = Some m1" "timing_puts kvs m1 = Some m'"
    by (auto simp: bind_eq_Some_conv)
  show ?case
    using Cons.IH [OF m1(2)] timing_put_same [OF m1(1)] by (simp add: same_but_timings_def)
qed

lemma timing_dels_same: "same_but_timings (timing_dels ks m) m"
  unfolding timing_dels_def
  by (induction ks arbitrary: m) (auto simp: same_but_timings_def timing_del_same [unfolded same_but_timings_def])

lemma timing_dels_simps [simp]:
  "phase (timing_dels ks m) = phase m" "subPhase (timing_dels ks m) = subPhase m"
  "mig_spec (timing_dels ks m) = mig_spec m" "mig_name (timing_dels ks m) = mig_name m"
  "mig_namespace (timing_dels ks m) = mig_namespace m"
  by (simp_all add: same_but_timingsD [OF timing_dels_same])

lemma timing_get_dels [simp]: "timing_get k (timing_dels ks m) = (if k \<in> set ks then None else timing_get k m)"
  unfolding timing_dels_def by (induction ks arbitrary: m) auto

lemma timing_puts_simps:
  assumes "timing_puts kvs m = Some m'"
  shows "phase m' = phase m" "subPhase m' = subPhase m" "mig_spec m' = mig_spec m"
    "mig_name m' = mig_name m" "mig_namespace m' = mig_namespace m"
  using same_but_timingsD [OF timing_puts_same [OF assms]] by simp_all

section \<open>StatefulSets and pods\<close>

text \<open>Labels a StatefulSet needs on its pods; the swap never removes them.\<close>

definition sts_internal_label :: "string \<Rightarrow> bool" where
  "sts_internal_label k \<longleftrightarrow> k = ''controller-revision-hash'' \<or> k = ''statefulset.kubernetes.io/pod-name'' \<or>
     k = ''apps.kubernetes.io/pod-index''"

text \<open>
  The loop over the recorded labels of the source pod: the labels left on the pod, and whether any was removed.
\<close>

definition stripServiceLabels :: "smap \<Rightarrow> smap \<Rightarrow> smap \<times> bool" where
  "stripServiceLabels recorded labels =
     foldl (\<lambda>(ls, changed) (k, _). if map_of ls k \<noteq> None \<and> \<not> sts_internal_label k
                                   then (sm_del k ls, True) else (ls, changed))
       (labels, False) recorded"

definition removeServiceLabels :: "'w env \<Rightarrow> StatefulMigration \<Rightarrow> pod \<Rightarrow> ('w, pod) go" where
  "removeServiceLabels E m p = (case stripServiceLabels (st_sourcePodLabels (mig_status m)) (pod_labels p) of
     (labels, changed) \<Rightarrow>
       if changed then do {
         _ \<leftarrow> patchPod E p (p\<lparr>pod_labels := labels\<rparr>);
         go_return (p\<lparr>pod_labels := labels\<rparr>)
       } else go_return p)"

text \<open>
  Scale-down for the swap: replicas to zero and the node selector to the target node, in one patch.
\<close>

definition stsForSwap :: "StatefulMigration \<Rightarrow> statefulset \<Rightarrow> statefulset" where
  "stsForSwap m s = s\<lparr>sts_replicas := Some 0,
     sts_nodeSelector := sm_put ''kubernetes.io/hostname'' (targetNode m) (sts_nodeSelector s)\<rparr>"

definition sts_running :: "statefulset \<Rightarrow> int option" where
  "sts_running s = (case sts_replicas s of None \<Rightarrow> None | Some n \<Rightarrow> if 0 < n then Some n else None)"

text \<open>
  The scale-up to a number of replicas: a StatefulSet that has fewer, or none given, is patched, and the error
  of the patch is only logged. The result is the error of the lookup.
\<close>

definition scaleUp :: "'w env \<Rightarrow> StatefulMigration \<Rightarrow> int \<Rightarrow> ('w, go_error option) go" where
  "scaleUp E m replicas = do {
     r \<leftarrow> getSts E (mig_namespace m) (st_statefulSetName (mig_status m));
     case r of
       Inl err \<Rightarrow> go_return (Some err)
     | Inr sts \<Rightarrow>
         if (case sts_replicas sts of None \<Rightarrow> True | Some n \<Rightarrow> n < replicas) then do {
           _ \<leftarrow> patchSts E sts (sts\<lparr>sts_replicas := Some replicas\<rparr>);
           go_return None
         } else go_return None
   }"

section \<open>Facts\<close>

lemma stripServiceLabels_foldl:
  "map_of (fst (foldl (\<lambda>(ls, changed) (k, _). if map_of ls k \<noteq> None \<and> \<not> sts_internal_label k
       then (sm_del k ls, True) else (ls, changed)) (ls, ch) rec)) k =
     (if k \<in> fst ` set rec \<and> \<not> sts_internal_label k then None else map_of ls k)"
  by (induction rec arbitrary: ls ch) (auto split: prod.splits)

lemma stripServiceLabels_changed:
  "snd (foldl (\<lambda>(ls, changed) (k, _). if map_of ls k \<noteq> None \<and> \<not> sts_internal_label k
       then (sm_del k ls, True) else (ls, changed)) (ls, ch) rec) =
     (ch \<or> (\<exists>k \<in> fst ` set rec. map_of ls k \<noteq> None \<and> \<not> sts_internal_label k))"
proof (induction rec arbitrary: ls ch)
  case Nil
  show ?case by simp
next
  case (Cons a rec)
  obtain k v where a: "a = (k, v)" by fastforce
  show ?case
  proof (cases "map_of ls k \<noteq> None \<and> \<not> sts_internal_label k")
    case True
    then show ?thesis using Cons [of "sm_del k ls" True] a by auto
  next
    case False
    then show ?thesis using Cons [of ls ch] a by auto
  qed
qed

text \<open>What the loop does: exactly the recorded labels that are not internal are gone.\<close>

lemma stripServiceLabels_lookup:
  "map_of (fst (stripServiceLabels rec ls)) k =
     (if k \<in> fst ` set rec \<and> \<not> sts_internal_label k then None else map_of ls k)"
  unfolding stripServiceLabels_def by (rule stripServiceLabels_foldl)

lemma stripServiceLabels_flag:
  "snd (stripServiceLabels rec ls) \<longleftrightarrow> (\<exists>k \<in> fst ` set rec. map_of ls k \<noteq> None \<and> \<not> sts_internal_label k)"
  unfolding stripServiceLabels_def by (simp only: stripServiceLabels_changed simp_thms)

subsection \<open>Rules of the calculus\<close>

lemma emits_swapPatch [emits_intro]: "(\<And>ok. P (EvPatchStatus base m ok)) \<Longrightarrow> emits P (swapPatch E base m k)"
  unfolding swapPatch_def by (intro emits_intro)

lemma emits_removeServiceLabels [emits_intro]:
  "(\<And>b q ok. P (EvPatchPod b q ok)) \<Longrightarrow> emits P (removeServiceLabels E m p)"
  unfolding removeServiceLabels_def by (intro emits_intro)

lemma emits_scaleUp [emits_intro]:
  "(\<And>s ok. P (EvPatchSts s (s\<lparr>sts_replicas := Some n\<rparr>) ok)) \<Longrightarrow> emits P (scaleUp E m n)"
  unfolding scaleUp_def by (intro emits_intro)

text \<open>A patch that ends a sub-phase puts one event on the trace, and its flag decides the result.\<close>

lemma yields_swapPatch:
  "yields (swapPatch E base m k) (\<lambda>r es. \<exists>ok. es = [EvPatchStatus base m ok] \<and>
     (if ok then \<exists>m'. r = k m' else \<exists>e. r = sw_fail m e))"
  unfolding swapPatch_def by (intro yields_intro) (auto split: sum.splits)

lemma yields_swapPatchI [yields_intro]:
  assumes "\<And>m'. Q (k m') [EvPatchStatus base m True]" and "\<And>e. Q (sw_fail m e) [EvPatchStatus base m False]"
  shows "yields (swapPatch E base m k) Q"
  by (rule yields_mono [OF yields_swapPatch]) (auto split: if_splits intro: assms)

lemma yields_removeServiceLabels [yields_intro]:
  assumes "yields (g p) Q"
    and "\<And>ls ok. yields (g (p\<lparr>pod_labels := ls\<rparr>)) (\<lambda>a es. Q a (EvPatchPod p (p\<lparr>pod_labels := ls\<rparr>) ok # es))"
  shows "yields (State_Monad.bind (removeServiceLabels E m p) g) Q"
  using assms unfolding removeServiceLabels_def
  by (cases "stripServiceLabels (st_sourcePodLabels (mig_status m)) (pod_labels p)") (auto intro!: yields_intro)

lemma yields_scaleUp [yields_intro]:
  assumes "\<And>r. yields (g r) Q"
    and "\<And>s ok. yields (g None) (\<lambda>a es. Q a (EvPatchSts s (s\<lparr>sts_replicas := Some n\<rparr>) ok # es))"
  shows "yields (State_Monad.bind (scaleUp E m n) g) Q"
proof -
  have "yields (scaleUp E m n) (\<lambda>r es. es = [] \<or> (r = None \<and> (\<exists>s ok. es = [EvPatchSts s (s\<lparr>sts_replicas := Some n\<rparr>) ok])))"
    unfolding scaleUp_def by (intro yields_intro) auto
  then show ?thesis using assms by (auto elim!: yields_bind)
qed

section \<open>The contract of a sub-phase handler\<close>

text \<open>
  A status patch of the swap never changes the phase or the spec, and leaves the sub-phase of its base
  or sets one of \<open>targets\<close>; the swap updates no object outright and does not close the broker.
\<close>

definition swap_legal :: "string list \<Rightarrow> event \<Rightarrow> bool" where
  "swap_legal targets e = (case e of
     EvPatchStatus base obj ok \<Rightarrow> phase obj = phase base \<and> mig_spec obj = mig_spec base \<and>
       (subPhase obj = subPhase base \<or> subPhase obj \<in> set targets)
   | EvUpdateMigration _ _ \<Rightarrow> False
   | EvClose _ \<Rightarrow> False
   | _ \<Rightarrow> True)"

lemma swap_legal_simps [simp]:
  "swap_legal ts (EvPatchStatus b m ok) \<longleftrightarrow> phase m = phase b \<and> mig_spec m = mig_spec b \<and>
     (subPhase m = subPhase b \<or> subPhase m \<in> set ts)"
  "\<not> swap_legal ts (EvUpdateMigration m ok)" "\<not> swap_legal ts (EvClose ok)" "swap_legal ts (EvPatchPod pb p ok)"
  "swap_legal ts (EvPatchSts sb s ok)" "swap_legal ts (EvPatchDeployment db d ok)"
  "swap_legal ts (EvCreateJob j ok)" "swap_legal ts (EvCreatePod p ok)" "swap_legal ts (EvDeletePod p g ok)"
  "swap_legal ts (EvConnect url ok)" "swap_legal ts (EvCreateSecondary q q' rk ok)"
  "swap_legal ts (EvUnbind q q' ok)" "swap_legal ts (EvDeleteSecondary q q' ex ok)"
  "swap_legal ts (EvDepth q r)" "swap_legal ts (EvStats q r')" "swap_legal ts (EvSend p' ty pl ok)"
  "swap_legal ts (EvBind q ex ok)" "swap_legal ts (EvDeclareBind q ex ok)" "swap_legal ts (EvDeleteQueue q ok)"
  "swap_legal ts (EvCheckpoint n ns p' c ok)" "swap_legal ts (EvHttp url body ok)"
  by (simp_all add: swap_legal_def)

lemma swap_legal_phase: "swap_legal ts e \<Longrightarrow> phase_legal [] e"
  by (cases e) simp_all

lemma swap_legal_mono: "swap_legal ts e \<Longrightarrow> set ts \<subseteq> set ts' \<Longrightarrow> swap_legal ts' e"
  by (cases e) auto

text \<open>The sub-phase the server holds after a sequence of calls.\<close>

fun merged_subPhase :: "string \<Rightarrow> event list \<Rightarrow> string" where
  "merged_subPhase p [] = p"
| "merged_subPhase p (EvPatchStatus base obj True # es) =
     merged_subPhase (if subPhase obj = subPhase base then p else subPhase obj) es"
| "merged_subPhase p (_ # es) = merged_subPhase p es"

lemma merged_subPhase_legal:
  "list_all (swap_legal ts) es \<Longrightarrow> p \<in> S \<Longrightarrow> set ts \<subseteq> S \<Longrightarrow> merged_subPhase p es \<in> S"
  by (induction p es rule: merged_subPhase.induct) (auto split: if_splits)

definition sw_advances :: "('w \<Rightarrow> string \<times> string) \<Rightarrow> string list \<Rightarrow> swap_result \<Rightarrow> 'w \<Rightarrow> bool" where
  "sw_advances V targets r x \<longleftrightarrow> (sw_continues r \<longrightarrow> snd (V x) \<in> set targets)"

lemma sw_advances_simps [simp]:
  "sw_advances V ts (sw_fail m e) x" "sw_advances V ts (sw_wait m d) x" "sw_advances V ts (sw_finished m) x"
  by (simp_all add: sw_advances_def)

locale swap_handler =
  fixes H :: "'w env \<Rightarrow> StatefulMigration \<Rightarrow> ('w, swap_result) go"
    and targets :: "string list"
  assumes legal: "emits (swap_legal targets) (H E m)"
begin

lemma merged: "yields (H E m) (\<lambda>_ es. merged_subPhase p es \<in> set (p # targets))"
  by (rule yields_mono [OF legal [unfolded emits_def]])
    (rule merged_subPhase_legal, assumption, auto)

lemma phase_kept: "yields (H E m) (\<lambda>_ es. merged_phase p es = p)"
proof (rule yields_mono [OF legal [unfolded emits_def]])
  fix a es assume "list_all (swap_legal targets) es"
  then have "list_all (phase_legal []) es" by (auto simp: list_all_iff intro: swap_legal_phase)
  then have "merged_phase p es \<in> {p}" by (rule merged_phase_legal) simp_all
  then show "merged_phase p es = p" by simp
qed

end

text \<open>
  A stage that, in addition, asks for the next stage at once only after a patch of one of its targets went through.
\<close>

locale swap_stage = swap_handler H targets
  for H :: "'w env \<Rightarrow> StatefulMigration \<Rightarrow> ('w, swap_result) go" and targets +
  assumes progress: "single_writer E V \<Longrightarrow> ends (holds V (phase m) (subPhase m)) (H E m) (sw_advances V targets)"
begin

lemma next_subPhase:
  assumes "single_writer E V" "V (ext w) = view_of m" "run_state (H E m) w = (r, w1)" "sw_continues r"
  shows "snd (V (ext w1)) \<in> set targets"
  using endsD [OF progress [OF assms(1)] _ assms(3)] assms by (simp add: holds_def view_of_def sw_advances_def)

end

lemma ends_sw: "\<not> sw_continues r \<Longrightarrow> ends P (go_return r) (sw_advances V ts)"
  by (rule ends_return) (simp add: sw_advances_def)

lemma ends_swapPatch:
  assumes "single_writer E V" "agrees p s base" "subPhase m \<in> set ts"
  shows "ends (holds V p s) (swapPatch E base m k) (sw_advances V ts)"
  unfolding swapPatch_def
  by (rule ends_seq [OF ends_patchStatus [OF assms(1, 2)]], rule ends_return)
    (use assms(3) in \<open>auto simp: sw_advances_def holds_def split: sum.splits\<close>)

lemma ends_swapPatch_stop:
  assumes "\<And>m'. \<not> sw_continues (k m')"
  shows "ends P (swapPatch E base m k) (sw_advances V ts)"
  unfolding swapPatch_def ends_def by (auto simp: sw_advances_def assms split: sum.splits prod.splits)

lemmas ends_swap_rules = ends_swapPatch ends_sw ends_patchStatusIgnore ends_stamp

lemma steady_removeServiceLabels [steady_intro]:
  "single_writer E V \<Longrightarrow> steady (holds V p s) (removeServiceLabels E m pd)"
  unfolding removeServiceLabels_def by (intro steady_intro)

lemma steady_scaleUp [steady_intro]: "single_writer E V \<Longrightarrow> steady (holds V p s) (scaleUp E m n)"
  unfolding scaleUp_def by (intro steady_intro)

text \<open>The precondition of what follows a block with an early return.\<close>

definition goes_on :: "('w \<Rightarrow> string \<times> string) \<Rightarrow> string \<Rightarrow> string \<Rightarrow> swap_result + StatefulMigration \<Rightarrow> 'w \<Rightarrow> bool" where
  "goes_on V p s r x \<longleftrightarrow> (case r of Inl res \<Rightarrow> \<not> sw_continues res | Inr m' \<Rightarrow> holds V p s x \<and> agrees p s m')"

lemma goes_on_simps [simp]:
  "goes_on V p s (Inl res) x \<longleftrightarrow> \<not> sw_continues res"
  "goes_on V p s (Inr m') x \<longleftrightarrow> holds V p s x \<and> agrees p s m'"
  by (simp_all add: goes_on_def)

lemma ends_early_bind:
  assumes "ends (holds V p s) f (goes_on V p s)"
    and "\<And>r. \<not> sw_continues r \<Longrightarrow> ends (\<lambda>_. True) (g (Inl r)) Q"
    and "\<And>m'. agrees p s m' \<Longrightarrow> ends (holds V p s) (g (Inr m')) Q"
  shows "ends (holds V p s) (State_Monad.bind f g) Q"
proof (rule ends_seq [OF assms(1)])
  fix a
  show "ends (goes_on V p s a) (g a) Q"
  proof (cases a)
    case (Inl r)
    show ?thesis
    proof (cases "sw_continues r")
      case False
      then show ?thesis unfolding Inl by (rule ends_pre [OF assms(2)]) simp
    next
      case True
      then show ?thesis unfolding Inl by (simp add: ends_def)
    qed
  next
    case (Inr m')
    then show ?thesis
      by (auto intro!: ends_pre [where P' = "goes_on V p s (Inr m')", OF ends_conj_pre [OF assms(3)]])
  qed
qed

section \<open>The properties\<close>

text \<open>
  C34: Taking a pod out of its Services removes exactly the labels recorded of the source pod, except the three that a
  StatefulSet needs on its pods; every other label keeps its value. The pod is patched exactly when some label went away.
\<close>

theorem strip_labels_exact:
  "map_of (fst (stripServiceLabels rec ls)) =
     (map_of ls) |` (- {k. k \<in> fst ` set rec \<and> \<not> sts_internal_label k}) \<and>
   snd (stripServiceLabels rec ls) = (map_of (fst (stripServiceLabels rec ls)) \<noteq> map_of ls)"
proof
  show eq: "map_of (fst (stripServiceLabels rec ls)) = (map_of ls) |` (- {k. k \<in> fst ` set rec \<and> \<not> sts_internal_label k})"
    by (rule ext) (simp add: stripServiceLabels_lookup restrict_map_def)
  show "snd (stripServiceLabels rec ls) = (map_of (fst (stripServiceLabels rec ls)) \<noteq> map_of ls)"
  proof -
    have "(f |` A \<noteq> f) = (\<exists>k. k \<notin> A \<and> f k \<noteq> None)" for f :: "string \<Rightarrow> string option" and A
      by (auto simp: fun_eq_iff restrict_map_def) (metis not_None_eq)
    then show ?thesis
      unfolding eq stripServiceLabels_flag by (simp only: Bex_def Compl_iff mem_Collect_eq not_not conj_ac)
  qed
qed

end
