(* ===== verification/SwapCutoff.thy ===== *)
theory SwapCutoff
  imports SwapCommon Checkpointing
begin

text \<open>
  The sub-phases of the identity swap that both swap modes share, and those of Cutoff mode:
  prepare, re-checkpoint, transfer, create the replacement, mini-replay, traffic switch.
\<close>

section \<open>PrepareSwap\<close>

text \<open>
  After a scale-down that went through: take the source pod out of its Services and delete it at once.
\<close>

definition dropSourcePod :: "'w env \<Rightarrow> StatefulMigration \<Rightarrow> ('w, unit) go" where
  "dropSourcePod E m = do {
     g \<leftarrow> getPod E (mig_namespace m) (sourcePod m);
     case g of
       Inl _ \<Rightarrow> go_return ()
     | Inr p \<Rightarrow> do {
         p' \<leftarrow> removeServiceLabels E m p;
         _ \<leftarrow> deletePod E p' (Some 0);
         go_return ()
       }
   }"

text \<open>The early scale-down; the result is the object with the replica count remembered.\<close>

definition earlyScaleDown :: "'w env \<Rightarrow> StatefulMigration \<Rightarrow> ('w, StatefulMigration) go" where
  "earlyScaleDown E m =
     (if st_statefulSetName (mig_status m) \<noteq> '''' then do {
        r \<leftarrow> getSts E (mig_namespace m) (st_statefulSetName (mig_status m));
        case r of
          Inl _ \<Rightarrow> go_return m
        | Inr sts \<Rightarrow> (case sts_running sts of
              None \<Rightarrow> go_return m
            | Some n \<Rightarrow> do {
                let m1 = (if st_originalReplicas (mig_status m) = 0
                          then set_status (st_originalReplicas_update (\<lambda>_. n)) m else m);
                e \<leftarrow> patchSts E sts (stsForSwap m1 sts);
                case e of
                  Some _ \<Rightarrow> go_return m1
                | None \<Rightarrow> do { _ \<leftarrow> dropSourcePod E m1; go_return m1 }
              })
      } else go_return m)"

definition handleSwapPrepare :: "'w env \<Rightarrow> StatefulMigration \<Rightarrow> ('w, swap_result) go" where
  "handleSwapPrepare E m = do {
     let cfg = mqCfg m;
     c \<leftarrow> brokerConnect E (brokerURL cfg);
     case c of
       Some err \<Rightarrow> go_return (sw_fail m (Wrapped ''broker connect for swap'' err))
     | None \<Rightarrow> do {
         q \<leftarrow> createSecondaryQueue E (queueName cfg) (exchangeName cfg) (routingKey cfg);
         case q of
           Inl err \<Rightarrow> go_return (sw_fail m (Wrapped ''create swap queue'' err))
         | Inr _ \<Rightarrow> do {
             let base = m;
             m1 \<leftarrow> earlyScaleDown E m;
             swapPatch E base (set_subPhase ''ReCheckpoint'' m1) sw_next
           }
       }
   }"

section \<open>ReCheckpoint\<close>

definition fallbackKey :: string where
  "fallbackKey = ''Swap.ReCheckpoint.fallback''"

definition handleSwapReCheckpoint :: "'w env \<Rightarrow> StatefulMigration \<Rightarrow> ('w, swap_result) go" where
  "handleSwapReCheckpoint E m = (case kubelet_checkpoint E of
      Some ck \<Rightarrow> do {
        r \<leftarrow> checkpointContainer ck (targetNode m) (mig_namespace m) (st_targetPod (mig_status m))
               (st_containerName (mig_status m));
        case r of
          Inl _ \<Rightarrow> (let base = m; m1 = set_subPhase ''CreateReplacement'' m in
            case timing_put fallbackKey ''true'' m1 of
              None \<Rightarrow> go_return (sw_fail m1 NilMapPanic)
            | Some m2 \<Rightarrow> swapPatch E base m2 sw_next)
        | Inr [] \<Rightarrow> go_return (sw_next m)
        | Inr (item # _) \<Rightarrow>
            swapPatch E m (set_subPhase ''SwapTransfer'' (set_status (st_checkpointID_update (\<lambda>_. item)) m)) sw_next
      }
    | None \<Rightarrow> swapPatch E m (set_subPhase ''SwapTransfer'' (set_status (st_checkpointID_update
        (\<lambda>_. ''/var/lib/kubelet/checkpoints/checkpoint-'' @ st_targetPod (mig_status m) @ ''.tar'')) m)) sw_next)"

section \<open>SwapTransfer\<close>

definition swapImageTag :: "StatefulMigration \<Rightarrow> string" where
  "swapImageTag m = ''localhost/checkpoint/'' @ st_containerName (mig_status m) @ '':recheckpoint''"

definition swapTransferJob :: "'w env \<Rightarrow> string \<Rightarrow> StatefulMigration \<Rightarrow> string \<Rightarrow> job" where
  "swapTransferJob E jobName m imageTag = \<lparr>
     job_name = jobName,
     job_namespace = mig_namespace m,
     job_labels = [(''migration.ms2m.io/migration'', mig_name m), (''migration.ms2m.io/phase'', ''swap-transfer'')],
     job_ownerReferences = [newControllerRef E m],
     job_restartPolicy = ''Never'',
     job_nodeSelector = [(''kubernetes.io/hostname'', targetNode m)],
     job_containers = [\<lparr>c_name = ''local-load'', c_image = ''localhost/ms2m-agent:latest'',
       c_imagePullPolicy = ''IfNotPresent'', c_ports = [], c_env = [],
       c_args = [''local-load'', st_checkpointID (mig_status m), st_containerName (mig_status m), imageTag],
       c_volumeMounts = [
         \<lparr>vm_name = ''checkpoints'', vm_mountPath = ''/var/lib/kubelet/checkpoints'', vm_readOnly = True\<rparr>,
         \<lparr>vm_name = ''containers-storage'', vm_mountPath = ''/var/lib/containers/storage'', vm_readOnly = False\<rparr>],
       c_securityContext = Some (root_context (Some True))\<rparr>],
     job_volumes = [(''checkpoints'', ''/var/lib/kubelet/checkpoints''),
                    (''containers-storage'', ''/var/lib/containers/storage'')],
     job_succeeded = 0, job_failed = 0\<rparr>"

definition handleSwapTransferViaJob :: "'w env \<Rightarrow> StatefulMigration \<Rightarrow> string \<Rightarrow> ('w, swap_result) go" where
  "handleSwapTransferViaJob E m imageTag = do {
     let jobName = mig_name m @ ''-swap-transfer'';
     r \<leftarrow> getJob E (mig_namespace m) jobName;
     case r of
       Inl err \<Rightarrow>
         if is_not_found err then do {
           c \<leftarrow> createJob E (swapTransferJob E jobName m imageTag);
           go_return (case c of
               Some err \<Rightarrow> if is_already_exists err then sw_wait m (2 * second)
                           else sw_fail m (Wrapped ''create swap transfer job'' err)
             | None \<Rightarrow> sw_wait m (2 * second))
         } else go_return (sw_fail m err)
     | Inr existingJob \<Rightarrow>
         if 1 \<le> job_succeeded existingJob then swapPatch E m (set_subPhase ''CreateReplacement'' m) sw_next
         else if 0 < job_failed existingJob
         then go_return (sw_fail m (ErrorString (''swap local-load job '' @ quote jobName @ '' failed'')))
         else go_return (sw_wait m (2 * second))
   }"

definition handleSwapTransfer :: "'w env \<Rightarrow> StatefulMigration \<Rightarrow> ('w, swap_result) go" where
  "handleSwapTransfer E m = do {
     let imageTag = swapImageTag m;
     agent \<leftarrow> findAgentPodIP E (targetNode m);
     case agent of
       Inr agentIP \<Rightarrow> do {
         c \<leftarrow> callAgentLocalLoad E agentIP (st_checkpointID (mig_status m))
                (st_containerName (mig_status m)) imageTag;
         case c of
           Some err \<Rightarrow> go_return (sw_fail m (Wrapped ''agent local-load'' err))
         | None \<Rightarrow> swapPatch E m (set_subPhase ''CreateReplacement'' m) sw_next
       }
     | Inl _ \<Rightarrow> handleSwapTransferViaJob E m imageTag
   }"

section \<open>CreateReplacement\<close>

text \<open>The replacement runs: record it, and go on by the swap mode.\<close>

definition replacementRunning :: "'w env \<Rightarrow> StatefulMigration \<Rightarrow> ('w, swap_result) go" where
  "replacementRunning E m =
     (let base = m;
          m1 = set_status (st_replacementPod_update (\<lambda>_. sourcePod m)) m;
          m2 = set_subPhase (if spec_identitySwapMode (mig_spec m1) = ''ExchangeFence''
                             then ''PreFenceDrain'' else ''MiniReplay'') m1
      in swapPatch E base m2 sw_next)"

text \<open>
  The scale-down before the original pod is deleted. \<open>Inl\<close> is the early return with an error,
  \<open>Inr\<close> the object to go on with.
\<close>

definition scaleDownOriginal :: "'w env \<Rightarrow> StatefulMigration \<Rightarrow> ('w, swap_result + StatefulMigration) go" where
  "scaleDownOriginal E m =
     (if st_statefulSetName (mig_status m) \<noteq> '''' then do {
        r \<leftarrow> getSts E (mig_namespace m) (st_statefulSetName (mig_status m));
        case r of
          Inl err \<Rightarrow> go_return (if is_not_found err then Inr m else Inl (sw_fail m err))
        | Inr sts \<Rightarrow> (case sts_running sts of
              None \<Rightarrow> go_return (Inr m)
            | Some n \<Rightarrow> do {
                m1 \<leftarrow> (if st_originalReplicas (mig_status m) = 0
                       then patchStatusIgnore E m (set_status (st_originalReplicas_update (\<lambda>_. n)) m)
                       else go_return m);
                e \<leftarrow> patchSts E sts (stsForSwap m1 sts);
                go_return (case e of
                    Some err \<Rightarrow> Inl (sw_fail m1 (Wrapped (''scale down StatefulSet '' @
                      quote (st_statefulSetName (mig_status m1)) @ '' for identity swap'') err))
                  | None \<Rightarrow> Inr m1)
              })
      } else go_return (Inr m))"

text \<open>The pod that still has the name is the original on the source node.\<close>

definition removeOriginalPod :: "'w env \<Rightarrow> StatefulMigration \<Rightarrow> pod \<Rightarrow> ('w, swap_result) go" where
  "removeOriginalPod E m existing = do {
     s \<leftarrow> scaleDownOriginal E m;
     case s of
       Inl r \<Rightarrow> go_return r
     | Inr m1 \<Rightarrow> do {
         p \<leftarrow> removeServiceLabels E m1 existing;
         _ \<leftarrow> deletePod E p (Some 0);
         go_return (sw_wait m1 (2 * second))
       }
   }"

text \<open>The image of the replacement, with its pull policy. A nil map reads as empty.\<close>

definition replacementImage :: "StatefulMigration \<Rightarrow> string \<times> string" where
  "replacementImage m =
     (if timing_get fallbackKey m = Some ''true'' then (checkpointImageRef m, ''Always'')
      else (swapImageTag m, ''Never''))"

definition restoreModeEnv :: env_var where
  "restoreModeEnv = \<lparr>env_name = ''MS2M_RESTORE_MODE'', env_value = ''true''\<rparr>"

definition replacementContainer :: "string \<Rightarrow> string \<times> string \<Rightarrow> container \<Rightarrow> container" where
  "replacementContainer containerName img c =
     (let restored = \<lparr>c_name = c_name c, c_image = fst img, c_imagePullPolicy = snd img,
            c_ports = c_ports c, c_env = c_env c @ [restoreModeEnv], c_args = [],
            c_volumeMounts = [], c_securityContext = None\<rparr>
      in if c_name c \<noteq> containerName then restored\<lparr>c_image := c_image c\<rparr> else restored)"

definition replacementContainers :: "StatefulMigration \<Rightarrow> container list" where
  "replacementContainers m =
     (let img = replacementImage m in
      if st_sourceContainers (mig_status m) \<noteq> []
      then map (replacementContainer (st_containerName (mig_status m)) img) (st_sourceContainers (mig_status m))
      else [\<lparr>c_name = st_containerName (mig_status m), c_image = fst img, c_imagePullPolicy = snd img,
             c_ports = [], c_env = [restoreModeEnv], c_args = [], c_volumeMounts = [], c_securityContext = None\<rparr>])"

text \<open>
  The labels: a copy of the recorded ones, with the revision hash the StatefulSet expects.
\<close>

definition copyLabels :: "smap \<Rightarrow> smap" where
  "copyLabels recorded = foldl (\<lambda>labels (k, v). sm_put k v labels) [] recorded"

definition replacementLabels :: "'w env \<Rightarrow> StatefulMigration \<Rightarrow> ('w, smap) go" where
  "replacementLabels E m = (let labels = copyLabels (st_sourcePodLabels (mig_status m)) in
     if st_statefulSetName (mig_status m) \<noteq> '''' then do {
       r \<leftarrow> getSts E (mig_namespace m) (st_statefulSetName (mig_status m));
       go_return (case r of
           Inl _ \<Rightarrow> labels
         | Inr sts \<Rightarrow> if sts_updateRevision sts \<noteq> ''''
                      then sm_put ''controller-revision-hash'' (sts_updateRevision sts) labels else labels)
     } else go_return labels)"

definition replacementPodSpec :: "StatefulMigration \<Rightarrow> smap \<Rightarrow> pod" where
  "replacementPodSpec m labels = \<lparr>
     pod_name = sourcePod m, pod_namespace = mig_namespace m, pod_labels = labels,
     pod_annotations = [], pod_ownerReferences = [], pod_deletionTimestamp = None,
     pod_nodeName = targetNode m, pod_containers = replacementContainers m,
     pod_phase = '''', pod_podIP = ''''\<rparr>"

text \<open>No pod has the name: create the replacement, scale up, record it.\<close>

definition createReplacementPod :: "'w env \<Rightarrow> StatefulMigration \<Rightarrow> ('w, swap_result) go" where
  "createReplacementPod E m = do {
     labels \<leftarrow> replacementLabels E m;
     c \<leftarrow> createPod E (replacementPodSpec m labels);
     case c of
       Some err \<Rightarrow> go_return (if is_already_exists err then sw_wait m (1 * second)
                              else sw_fail m (Wrapped ''create replacement pod'' err))
     | None \<Rightarrow> do {
         _ \<leftarrow> (if st_statefulSetName (mig_status m) \<noteq> ''''
               then scaleUp E m (if st_originalReplicas (mig_status m) = 0 then 1
                                 else st_originalReplicas (mig_status m))
               else go_return None);
         swapPatch E m (set_status (st_replacementPod_update (\<lambda>_. sourcePod m)) m)
           (\<lambda>m'. sw_wait m' (1 * second))
       }
   }"

definition handleSwapCreateReplacement :: "'w env \<Rightarrow> StatefulMigration \<Rightarrow> ('w, swap_result) go" where
  "handleSwapCreateReplacement E m = do {
     r \<leftarrow> getPod E (mig_namespace m) (sourcePod m);
     case r of
       Inr existing \<Rightarrow>
         if pod_nodeName existing = targetNode m then
           if pod_phase existing = ''Running'' then replacementRunning E m
           else go_return (sw_wait m (1 * second))
         else removeOriginalPod E m existing
     | Inl err \<Rightarrow>
         if \<not> is_not_found err then go_return (sw_fail m err)
         else createReplacementPod E m
   }"

section \<open>MiniReplay\<close>

definition miniReplayCutoff :: int where
  "miniReplayCutoff = 15 * second"

text \<open>The first pass. \<open>Inl\<close> is an early return.\<close>

definition startMiniReplay :: "'w env \<Rightarrow> StatefulMigration \<Rightarrow> string \<Rightarrow> ('w, swap_result + StatefulMigration) go" where
  "startMiniReplay E m swapQueue =
     (if timing_get ''Swap.MiniReplay.start'' m = None then do {
        _ \<leftarrow> unbindQueue E swapQueue (exchangeName (mqCfg m));
        let base = m;
        s \<leftarrow> stampTiming E ''Swap.MiniReplay.start'' m;
        case s of
          None \<Rightarrow> go_return (Inl (sw_fail m NilMapPanic))
        | Some m1 \<Rightarrow> do {
            e \<leftarrow> sendControlMessage E (st_replacementPod (mig_status m1)) ControlStartReplay
                   (Some [(''queue'', swapQueue)]);
            case e of
              Some err \<Rightarrow> go_return (Inl (sw_fail m1 (Wrapped ''send START_REPLAY to replacement'' err)))
            | None \<Rightarrow> do { m2 \<leftarrow> patchStatusIgnore E base m1; go_return (Inr m2) }
          }
      } else go_return (Inr m))"

definition handleSwapMiniReplay :: "'w env \<Rightarrow> StatefulMigration \<Rightarrow> ('w, swap_result) go" where
  "handleSwapMiniReplay E m0 = do {
     let m = ensurePhaseTimings m0;
     let swapQueue = replay_queue (queueName (mqCfg m));
     s \<leftarrow> startMiniReplay E m swapQueue;
     case s of
       Inl r \<Rightarrow> go_return r
     | Inr m1 \<Rightarrow> do {
         q \<leftarrow> getQueueDepth E swapQueue;
         case q of
           Inl err \<Rightarrow> go_return (sw_fail m1 (Wrapped ''get swap queue depth'' err))
         | Inr depth \<Rightarrow> do {
             e \<leftarrow> elapsedSince E ''Swap.MiniReplay.start'' m1;
             if depth = 0 \<or> miniReplayCutoff < duration_or_zero e
             then swapPatch E m1 (set_subPhase ''TrafficSwitch'' (timing_del ''Swap.MiniReplay.start'' m1)) sw_next
             else go_return (sw_wait m1 (1 * second))
           }
       }
   }"

section \<open>TrafficSwitch\<close>

text \<open>
  The two lookups that may end the handler with an error are blocks of their own, with that error as result.
\<close>

definition deleteShadowPod :: "'w env \<Rightarrow> StatefulMigration \<Rightarrow> ('w, go_error option) go" where
  "deleteShadowPod E m = do {
     r \<leftarrow> getPod E (mig_namespace m) (st_targetPod (mig_status m));
     case r of
       Inr p \<Rightarrow> do { _ \<leftarrow> deletePod E p (Some 0); go_return None }
     | Inl err \<Rightarrow> go_return (ignore_not_found err)
   }"

definition scaleUpForAdoption :: "'w env \<Rightarrow> StatefulMigration \<Rightarrow> ('w, go_error option) go" where
  "scaleUpForAdoption E m =
     (if 0 < st_originalReplicas (mig_status m) then do {
        e \<leftarrow> scaleUp E m (st_originalReplicas (mig_status m));
        go_return (Option.bind e ignore_not_found)
      } else go_return None)"

definition handleSwapTrafficSwitch :: "'w env \<Rightarrow> StatefulMigration \<Rightarrow> ('w, swap_result) go" where
  "handleSwapTrafficSwitch E m = do {
     _ \<leftarrow> sendControlMessage E (st_replacementPod (mig_status m)) ControlEndReplay None;
     _ \<leftarrow> deleteSecondaryQueue E (replay_queue (queueName (mqCfg m))) (queueName (mqCfg m)) (exchangeName (mqCfg m));
     d \<leftarrow> deleteShadowPod E m;
     case d of
       Some err \<Rightarrow> go_return (sw_fail m err)
     | None \<Rightarrow> do {
         u \<leftarrow> scaleUpForAdoption E m;
         case u of
           Some err \<Rightarrow> go_return (sw_fail m err)
         | None \<Rightarrow> swapPatch E m
             (set_subPhase '''' (set_status (st_targetPod_update (\<lambda>_. st_replacementPod (mig_status m))) m)) sw_finished
       }
   }"

section \<open>The contracts\<close>

lemma emits_dropSourcePod [emits_intro]:
  "(\<And>b q ok. P (EvPatchPod b q ok)) \<Longrightarrow> (\<And>p g ok. P (EvDeletePod p g ok)) \<Longrightarrow> emits P (dropSourcePod E m)"
  unfolding dropSourcePod_def by (intro emits_intro)

lemma emits_earlyScaleDown [emits_intro]:
  assumes "\<And>b q ok. P (EvPatchPod b q ok)" "\<And>p g ok. P (EvDeletePod p g ok)" "\<And>b s ok. P (EvPatchSts b s ok)"
  shows "emits P (earlyScaleDown E m)"
  unfolding earlyScaleDown_def Let_def by (intro emits_intro assms)

text \<open>The early scale-down changes the remembered replica count of the object at most.\<close>

lemma yields_earlyScaleDown:
  "yields (earlyScaleDown E m) (\<lambda>m1 es. \<exists>n. m1 = set_status (st_originalReplicas_update (\<lambda>_. n)) m)"
proof -
  have self: "\<exists>n. m = set_status (st_originalReplicas_update (\<lambda>_. n)) m"
    by (intro exI [of _ "st_originalReplicas (mig_status m)"]) simp
  have any: "emits (\<lambda>_. True) (dropSourcePod E m')" for m' by (intro emits_intro) simp_all
  show ?thesis
    unfolding earlyScaleDown_def Let_def
    by (intro yields_intro yields_emits_bind [OF any]) (use self in auto)
qed

lemma emits_handleSwapPrepare_legal: "emits (swap_legal [''ReCheckpoint'']) (handleSwapPrepare E m)"
proof -
  have down: "emits (swap_legal [''ReCheckpoint'']) (State_Monad.bind (earlyScaleDown E m)
      (\<lambda>m1. swapPatch E m (set_subPhase ''ReCheckpoint'' m1) sw_next))"
    unfolding emits_def
  proof (rule yields_bind [OF yields_conj [OF yields_earlyScaleDown]])
    show "yields (earlyScaleDown E m) (\<lambda>_. list_all (swap_legal [''ReCheckpoint'']))"
      unfolding emits_def [symmetric] by (intro emits_intro) simp_all
  qed (auto intro!: yields_intro)
  show ?thesis
    unfolding handleSwapPrepare_def Let_def by (intro down emits_intro) simp_all
qed

lemma steady_earlyScaleDown [steady_intro]:
  "single_writer E V \<Longrightarrow> steady (holds V p s) (earlyScaleDown E m)"
  unfolding earlyScaleDown_def dropSourcePod_def Let_def by (intro steady_intro)

lemma ends_handleSwapPrepare:
  assumes sw: "single_writer E V"
  shows "ends (holds V (phase m) (subPhase m)) (handleSwapPrepare E m) (sw_advances V [''ReCheckpoint''])"
  unfolding handleSwapPrepare_def Let_def
  by (intro ends_swap_rules ends_intro ends_bind steady_intro sw) simp_all

interpretation swap_prepare: swap_stage handleSwapPrepare "[''ReCheckpoint'']"
  by unfold_locales (rule emits_handleSwapPrepare_legal, erule ends_handleSwapPrepare)

lemma emits_handleSwapReCheckpoint_legal:
  "emits (swap_legal [''SwapTransfer'', ''CreateReplacement'']) (handleSwapReCheckpoint E m)"
  unfolding handleSwapReCheckpoint_def Let_def by (intro emits_intro) (simp_all add: timing_put_simps)

interpretation swap_recheckpoint: swap_handler handleSwapReCheckpoint "[''SwapTransfer'', ''CreateReplacement'']"
  by unfold_locales (rule emits_handleSwapReCheckpoint_legal)

lemma emits_handleSwapTransfer_legal: "emits (swap_legal [''CreateReplacement'']) (handleSwapTransfer E m)"
  unfolding handleSwapTransfer_def handleSwapTransferViaJob_def Let_def by (intro emits_intro) simp_all

lemma ends_handleSwapTransfer:
  assumes sw: "single_writer E V"
  shows "ends (holds V (phase m) (subPhase m)) (handleSwapTransfer E m) (sw_advances V [''CreateReplacement''])"
  unfolding handleSwapTransfer_def handleSwapTransferViaJob_def Let_def
  by (intro ends_swap_rules ends_intro ends_bind steady_intro sw) (simp_all split: option.split)

interpretation swap_transfer: swap_stage handleSwapTransfer "[''CreateReplacement'']"
  by unfold_locales (rule emits_handleSwapTransfer_legal, erule ends_handleSwapTransfer)

lemma emits_scaleDownOriginal_legal: "emits (swap_legal ts) (scaleDownOriginal E m)"
  unfolding scaleDownOriginal_def by (intro emits_intro) simp_all

lemma ends_removeOriginalPod:
  assumes sw: "single_writer E V"
  shows "ends (holds V (phase m) (subPhase m)) (removeOriginalPod E m existing) (sw_advances V ts)"
proof -
  have remember: "ends (holds V p s) (if b then patchStatusIgnore E m m1 else go_return m)
      (\<lambda>m' x. holds V p s x \<and> agrees p s m')" if "agrees p s m" "agrees p s m1" for p s b m1
    by (intro ends_if ends_patchStatusIgnore_result sw ends_return) (use that in simp_all)
  have "ends (holds V (phase m) (subPhase m)) (scaleDownOriginal E m) (goes_on V (phase m) (subPhase m))"
    unfolding scaleDownOriginal_def
    by (intro ends_intro ends_fact_bind [OF remember] ends_bind ends_return steady_intro sw)
      (auto simp: agrees_def split: option.splits)
  then show ?thesis
    unfolding removeOriginalPod_def
    by (rule ends_early_bind) (auto intro!: ends_sw ends_bind steady_intro sw)
qed

lemma emits_replacementLabels [emits_intro]: "emits P (replacementLabels E m)"
  unfolding replacementLabels_def Let_def by (intro emits_intro)

lemma emits_handleSwapCreateReplacement_legal:
  "emits (swap_legal [''PreFenceDrain'', ''MiniReplay'']) (handleSwapCreateReplacement E m)"
  unfolding handleSwapCreateReplacement_def replacementRunning_def removeOriginalPod_def createReplacementPod_def Let_def
  by (intro emits_scaleDownOriginal_legal emits_intro) simp_all

lemma steady_replacementLabels [steady_intro]:
  "single_writer E V \<Longrightarrow> steady (holds V p s) (replacementLabels E m)"
  unfolding replacementLabels_def Let_def by (intro steady_intro)

lemma ends_handleSwapCreateReplacement:
  assumes sw: "single_writer E V"
  shows "ends (holds V (phase m) (subPhase m)) (handleSwapCreateReplacement E m)
    (sw_advances V [''PreFenceDrain'', ''MiniReplay''])"
  unfolding handleSwapCreateReplacement_def replacementRunning_def createReplacementPod_def Let_def
  by (intro ends_removeOriginalPod ends_swapPatch_stop ends_swap_rules ends_intro ends_bind steady_intro sw) simp_all

interpretation swap_create: swap_stage handleSwapCreateReplacement "[''PreFenceDrain'', ''MiniReplay'']"
  by unfold_locales (rule emits_handleSwapCreateReplacement_legal, erule ends_handleSwapCreateReplacement)

lemma ends_startMiniReplay:
  assumes sw: "single_writer E V" and m: "agrees p s m"
  shows "ends (holds V p s) (startMiniReplay E m q) (goes_on V p s)"
  unfolding startMiniReplay_def Let_def
  by (intro ends_intro ends_patchStatusIgnore [OF sw] ends_stamp [OF sw] ends_bind ends_return steady_intro sw)
    (use m in \<open>simp_all add: agrees_put\<close>)

lemma emits_startMiniReplay_legal: "emits (swap_legal ts) (startMiniReplay E m q)"
  unfolding startMiniReplay_def Let_def by (intro emits_stamp_bind emits_intro) (simp_all add: timing_put_simps)

lemma emits_handleSwapMiniReplay_legal: "emits (swap_legal [''TrafficSwitch'']) (handleSwapMiniReplay E m)"
  unfolding handleSwapMiniReplay_def Let_def by (intro emits_startMiniReplay_legal emits_intro) simp_all

lemma ends_handleSwapMiniReplay:
  assumes sw: "single_writer E V"
  shows "ends (holds V (phase m) (subPhase m)) (handleSwapMiniReplay E m) (sw_advances V [''TrafficSwitch''])"
  unfolding handleSwapMiniReplay_def Let_def
  by (rule ends_early_bind [OF ends_startMiniReplay [OF sw]])
    (auto intro!: ends_swap_rules ends_intro ends_bind steady_intro sw)

interpretation swap_miniReplay: swap_stage handleSwapMiniReplay "[''TrafficSwitch'']"
  by unfold_locales (rule emits_handleSwapMiniReplay_legal, erule ends_handleSwapMiniReplay)

lemma emits_deleteShadowPod [emits_intro]:
  "(\<And>p g ok. P (EvDeletePod p g ok)) \<Longrightarrow> emits P (deleteShadowPod E m)"
  unfolding deleteShadowPod_def by (intro emits_intro)

lemma emits_scaleUpForAdoption [emits_intro]:
  "(\<And>s n ok. P (EvPatchSts s (s\<lparr>sts_replicas := Some n\<rparr>) ok)) \<Longrightarrow> emits P (scaleUpForAdoption E m)"
  unfolding scaleUpForAdoption_def by (intro emits_intro)

lemma emits_handleSwapTrafficSwitch_legal: "emits (swap_legal ['''']) (handleSwapTrafficSwitch E m)"
  unfolding handleSwapTrafficSwitch_def by (intro emits_intro) simp_all

lemma steady_trafficSwitch [steady_intro]:
  assumes "single_writer E V"
  shows "steady (holds V p s) (deleteShadowPod E m)" "steady (holds V p s) (scaleUpForAdoption E m)"
  unfolding deleteShadowPod_def scaleUpForAdoption_def by (intro steady_intro assms)+

lemma ends_handleSwapTrafficSwitch:
  assumes sw: "single_writer E V"
  shows "ends (holds V (phase m) (subPhase m)) (handleSwapTrafficSwitch E m) (sw_advances V [''''])"
  unfolding handleSwapTrafficSwitch_def by (intro ends_swap_rules ends_intro ends_bind steady_intro sw) simp_all

interpretation swap_trafficSwitch: swap_stage handleSwapTrafficSwitch "['''']"
  by unfold_locales (rule emits_handleSwapTrafficSwitch_legal, erule ends_handleSwapTrafficSwitch)

section \<open>The properties\<close>




text \<open>
  C26: Which pods the stage that creates the replacement deletes and creates: it deletes only a pod that is not on the
  target node, at once, and it creates only a pod with the name of the source on the target node, without an owner. So it
  never deletes the replacement it has created.
\<close>

theorem create_replacement_calls:
  "emits (\<lambda>e. case e of
      EvDeletePod p grace ok \<Rightarrow> pod_nodeName p \<noteq> targetNode m \<and> grace = Some 0
    | EvCreatePod p ok \<Rightarrow> pod_name p = sourcePod m \<and> pod_nodeName p = targetNode m \<and> pod_ownerReferences p = []
    | EvPatchDeployment b d ok \<Rightarrow> False
    | _ \<Rightarrow> True) (handleSwapCreateReplacement E m)" (is "emits ?P _")
proof -
  have strip: "emits ?P (State_Monad.bind (removeServiceLabels E m' p) (\<lambda>q. State_Monad.bind (deletePod E q (Some 0)) g))"
    if "pod_nodeName p \<noteq> targetNode m" "\<And>r. emits ?P (g r)" for p m' and g :: "_ \<Rightarrow> ('a, swap_result) go"
    unfolding emits_def
    by (intro yields_removeServiceLabels yields_api) (use that in \<open>auto simp: emits_def intro: yields_mono\<close>)
  have remove: "emits ?P (removeOriginalPod E m p)" if "pod_nodeName p \<noteq> targetNode m" for p
    unfolding removeOriginalPod_def scaleDownOriginal_def
    by (intro strip that emits_intro) simp_all
  show ?thesis
    unfolding handleSwapCreateReplacement_def replacementRunning_def createReplacementPod_def Let_def
    by (intro remove emits_intro) (simp_all add: replacementPodSpec_def)
qed

end
