(* ===== verification/GoFloat.thy ===== *)
theory GoFloat
  imports Complex_Main "HOL-Library.Log_Nat" Prelude
begin

text \<open>
  The \<open>float64\<close> arithmetic of the controller's adaptive decision: a value is a rational that has at most
  53 significant bits, and each operation is the exact one followed by rounding to nearest, ties to
  even. Overflow, subnormal numbers and signed zeros do not arise for the magnitudes of queue depths and durations
  and are left out. The lemma that counts is the bound on the relative error.
\<close>

section \<open>Rounding\<close>

definition round_half_even :: "rat \<Rightarrow> int" where
  "round_half_even r =
     (let f = \<lfloor>r\<rfloor>; d = r - of_int f in
      if d < 1 / 2 then f else if 1 / 2 < d then f + 1 else if even f then f else f + 1)"

text \<open>The exponent of a positive number: the largest \<open>e\<close> with \<open>2 ^ e \<le> x\<close>; \<open>pow2\<close> is that power.\<close>

definition exponent :: "rat \<Rightarrow> int" where
  "exponent x = (if 1 \<le> x then bitlen \<lfloor>x\<rfloor> - 1 else - bitlen (\<lceil>1 / x\<rceil> - 1))"

definition pow2 :: "int \<Rightarrow> rat" where
  "pow2 e = (if 0 \<le> e then 2 ^ nat e else 1 / 2 ^ nat (- e))"

definition unit_in_last_place :: "rat \<Rightarrow> rat" where
  "unit_in_last_place x = pow2 (exponent x) / 2 ^ 52"

definition round_pos :: "rat \<Rightarrow> rat" where
  "round_pos x = of_int (round_half_even (x / unit_in_last_place x)) * unit_in_last_place x"

definition fl :: "rat \<Rightarrow> rat" where
  "fl x = (if x = 0 then 0 else if x < 0 then - round_pos (- x) else round_pos x)"

section \<open>The operations the code uses\<close>

definition float_of_int :: "int \<Rightarrow> rat" where
  "float_of_int n = fl (of_int n)"

definition float_div :: "rat \<Rightarrow> rat \<Rightarrow> rat" where
  "float_div x y = fl (x / y)"

text \<open>
  \<open>Duration.Seconds\<close>: whole seconds and the rest, each converted, divided and added with rounding. Go's
  division truncates towards zero.
\<close>

definition duration_seconds :: "int \<Rightarrow> rat" where
  "duration_seconds d =
     (let sec = sgn d * (\<bar>d\<bar> div second); nsec = sgn d * (\<bar>d\<bar> mod second)
      in fl (float_of_int sec + float_div (float_of_int nsec) (float_of_int second)))"

section \<open>Error bounds\<close>

lemma round_half_even_error: "\<bar>of_int (round_half_even r) - r\<bar> \<le> 1 / 2"
proof -
  have "of_int \<lfloor>r\<rfloor> \<le> r" "r < of_int \<lfloor>r\<rfloor> + 1" by linarith+
  then show ?thesis unfolding round_half_even_def Let_def by (auto simp: abs_le_iff)
qed

lemma pow2_pos [simp]: "0 < pow2 e"
  by (simp add: pow2_def)

lemma pow2_exponent_le:
  assumes "0 < x"
  shows "pow2 (exponent x) \<le> x"
proof (cases "1 \<le> x")
  case True
  then have f: "1 \<le> \<lfloor>x\<rfloor>" by simp
  then have b: "0 \<le> bitlen \<lfloor>x\<rfloor> - 1" using bitlen_eq_zero_iff [of "\<lfloor>x\<rfloor>"] bitlen_nonneg [of "\<lfloor>x\<rfloor>"] by linarith
  have "2 ^ nat (bitlen \<lfloor>x\<rfloor> - 1) \<le> \<lfloor>x\<rfloor>" using bitlen_bounds [of "\<lfloor>x\<rfloor>"] f by simp
  then have "(of_int (2 ^ nat (bitlen \<lfloor>x\<rfloor> - 1)) :: rat) \<le> of_int \<lfloor>x\<rfloor>" by (simp only: of_int_le_iff)
  also have "\<dots> \<le> x" by simp
  finally show ?thesis using True b by (simp add: exponent_def pow2_def)
next
  case False
  define n where "n = \<lceil>1 / x\<rceil> - 1"
  have inv: "1 < 1 / x" using False assms by (simp add: field_simps)
  then have n0: "1 \<le> n" unfolding n_def by (simp add: less_ceiling_iff)
  then have "n < 2 ^ nat (bitlen n)" using bitlen_bounds [of n] by simp
  then have "\<lceil>1 / x\<rceil> \<le> 2 ^ nat (bitlen n)" by (simp add: n_def)
  then have "1 / x \<le> of_int (2 ^ nat (bitlen n))" by (simp only: ceiling_le_iff)
  then have "1 / x \<le> 2 ^ nat (bitlen n)" by simp
  then have "1 / 2 ^ nat (bitlen n) \<le> x" using assms by (simp add: field_simps)
  moreover have "0 < bitlen n" using bitlen_eq_zero_iff [of n] bitlen_nonneg [of n] n0 by linarith
  ultimately show ?thesis using False by (simp add: exponent_def pow2_def n_def)
qed

definition half_ulp :: rat where
  "half_ulp = 1 / 2 ^ 53"

lemma round_pos_error:
  assumes "0 < x"
  shows "\<bar>round_pos x - x\<bar> \<le> half_ulp * x"
proof -
  define u where "u = unit_in_last_place x"
  have u: "0 < u" "u \<le> x / 2 ^ 52"
    using pow2_exponent_le [OF assms] by (simp_all add: u_def unit_in_last_place_def divide_right_mono)
  have "round_pos x - x = (of_int (round_half_even (x / u)) - x / u) * u"
    using u by (simp add: round_pos_def u_def [symmetric] left_diff_distrib)
  then have "\<bar>round_pos x - x\<bar> = \<bar>of_int (round_half_even (x / u)) - x / u\<bar> * u"
    using u by (simp add: abs_mult)
  also have "\<dots> \<le> 1 / 2 * u" using round_half_even_error [of "x / u"] u by (intro mult_right_mono) simp_all
  also have "\<dots> \<le> half_ulp * x" using u by (simp add: half_ulp_def field_simps)
  finally show ?thesis .
qed

lemma fl_error: "\<bar>fl x - x\<bar> \<le> half_ulp * \<bar>x\<bar>"
  using round_pos_error [of x] round_pos_error [of "- x"] by (auto simp: fl_def abs_minus_commute)

lemma half_ulp_bounds [simp]: "0 < half_ulp" "half_ulp < 1" "0 \<le> half_ulp" "half_ulp \<le> 1"
  by (simp_all add: half_ulp_def)

text \<open>Rounding keeps the sign, zero included.\<close>

lemma fl_sign: "fl x \<le> 0 \<longleftrightarrow> x \<le> 0" "0 < fl x \<longleftrightarrow> 0 < x"
proof -
  have "half_ulp * \<bar>x\<bar> < \<bar>x\<bar>" if "x \<noteq> 0" using that by simp
  then have "x < 0 \<Longrightarrow> fl x < 0" "0 < x \<Longrightarrow> 0 < fl x"
    using fl_error [of x] by linarith+
  moreover have "fl 0 = 0" by (simp add: fl_def)
  ultimately show "fl x \<le> 0 \<longleftrightarrow> x \<le> 0" "0 < fl x \<longleftrightarrow> 0 < x"
    by (cases x "0 :: rat" rule: linorder_cases; force)+
qed

text \<open>The value of a rounded positive number lies between two multiples of the exact one.\<close>

lemma fl_bounds:
  assumes "0 \<le> x"
  shows "(1 - half_ulp) * x \<le> fl x" "fl x \<le> (1 + half_ulp) * x"
  using fl_error [of x] assms by (simp_all add: abs_le_iff distrib_right left_diff_distrib)

subsection \<open>Chains of operations\<close>

text \<open>
  \<open>close k x y\<close>: the two positive numbers agree up to \<open>k\<close> roundings. The relation is symmetric and
  goes through sums and quotients, so that the error of a formula is the count of its operations.
\<close>

definition close :: "nat \<Rightarrow> rat \<Rightarrow> rat \<Rightarrow> bool" where
  "close k x y \<longleftrightarrow> 0 \<le> x \<and> 0 \<le> y \<and> x * (1 - half_ulp) ^ k \<le> y \<and> y * (1 - half_ulp) ^ k \<le> x"

lemma shrink: "0 < (1 - half_ulp) ^ k" "(1 - half_ulp) ^ k \<le> 1" "0 \<le> (1 - half_ulp) ^ k"
  by (simp_all add: power_le_one)

lemma close_fl: "0 \<le> x \<Longrightarrow> close 1 x (fl x)"
proof -
  assume x: "0 \<le> x"
  have "fl x * (1 - half_ulp) \<le> (1 + half_ulp) * x * (1 - half_ulp)"
    using fl_bounds(2) [OF x] by (intro mult_right_mono) simp_all
  also have "\<dots> = x - half_ulp * half_ulp * x" by (simp add: algebra_simps)
  also have "\<dots> \<le> x" using x by simp
  finally have up: "fl x * (1 - half_ulp) \<le> x" .
  have "0 \<le> fl x" using x fl_sign [of x] by (cases "x = 0") (auto simp: fl_def)
  then show ?thesis using x fl_bounds(1) [OF x] up by (simp add: close_def mult.commute)
qed

lemma close_refl: "0 \<le> x \<Longrightarrow> close 0 x x"
  by (simp add: close_def)

lemma close_mono: "close k x y \<Longrightarrow> k \<le> l \<Longrightarrow> close l x y"
proof -
  assume c: "close k x y" and "k \<le> l"
  have p: "(1 - half_ulp) ^ l \<le> (1 - half_ulp) ^ k" using \<open>k \<le> l\<close> by (simp add: power_decreasing)
  then have "x * (1 - half_ulp) ^ l \<le> x * (1 - half_ulp) ^ k" "y * (1 - half_ulp) ^ l \<le> y * (1 - half_ulp) ^ k"
    using c by (simp_all add: close_def mult_left_mono)
  then show ?thesis using c by (auto simp: close_def)
qed

lemma close_trans: "close k x y \<Longrightarrow> close l y z \<Longrightarrow> close (k + l) x z"
proof -
  assume c: "close k x y" "close l y z"
  have "x * (1 - half_ulp) ^ (k + l) \<le> y * (1 - half_ulp) ^ l"
    using c shrink [of l] by (simp add: close_def power_add mult.assoc [symmetric] mult_right_mono)
  moreover have "z * (1 - half_ulp) ^ (k + l) \<le> y * (1 - half_ulp) ^ k"
    using c shrink [of k] by (simp add: close_def power_add mult.assoc [symmetric] mult.commute [of "(1 - half_ulp) ^ k"] mult_right_mono)
  ultimately show ?thesis using c by (auto simp: close_def)
qed

lemma close_add: "close k x y \<Longrightarrow> close k u v \<Longrightarrow> close k (x + u) (y + v)"
  by (auto simp: close_def distrib_right)

lemma close_divide:
  assumes "close k x y" "close l u v" "0 < u" "0 < v"
  shows "close (k + l) (x / u) (y / v)"
proof -
  have step: "a / c * (1 - half_ulp) ^ (k + l) \<le> b / d"
    if "0 \<le> a" "0 \<le> b" "a * (1 - half_ulp) ^ k \<le> b" "d * (1 - half_ulp) ^ l \<le> c" "0 < c" "0 < d" for a b c d
  proof -
    have "a / c * (1 - half_ulp) ^ (k + l) = (a * (1 - half_ulp) ^ k) * ((1 - half_ulp) ^ l / c)"
      by (simp add: power_add)
    also have "\<dots> \<le> b * (1 / d)"
      using that shrink [of l] by (intro mult_mono) (simp_all add: field_simps)
    finally show ?thesis by simp
  qed
  show ?thesis
    using assms step [of x y v u] step [of y x u v] by (auto simp: close_def)
qed

lemma close_int: "0 \<le> n \<Longrightarrow> close 1 (of_int n) (float_of_int n)"
  using close_fl [of "of_int n"] by (simp add: float_of_int_def)

lemma close_duration:
  assumes "0 \<le> d"
  shows "close 5 (of_int d / of_int second) (duration_seconds d)"
proof -
  let ?n = "d mod second" and ?s = "d div second"
  have nn: "0 \<le> ?n" "0 \<le> ?s" using assms by (simp_all add: pos_imp_zdiv_nonneg_iff)
  have sec: "0 < float_of_int second" by (simp add: float_of_int_def fl_sign)
  have frac: "close 2 (of_int ?n / of_int second) (float_of_int ?n / float_of_int second)"
    using close_divide [OF close_int close_int, of ?n second] nn sec by (simp add: numeral_2_eq_2)
  then have "0 \<le> float_of_int ?n / float_of_int second" by (simp add: close_def)
  from close_trans [OF frac close_fl [OF this]]
  have rest: "close 3 (of_int ?n / of_int second) (float_div (float_of_int ?n) (float_of_int second))"
    by (simp add: float_div_def)
  have sum: "close 3 (of_int ?s + of_int ?n / of_int second)
      (float_of_int ?s + float_div (float_of_int ?n) (float_of_int second))"
    by (rule close_add [OF close_mono [OF close_int] rest]) (simp_all add: nn)
  then have "0 \<le> float_of_int ?s + float_div (float_of_int ?n) (float_of_int second)" by (simp add: close_def)
  from close_trans [OF sum close_fl [OF this]] have total: "close 4 (of_int ?s + of_int ?n / of_int second)
      (fl (float_of_int ?s + float_div (float_of_int ?n) (float_of_int second)))" by simp
  have "(of_int d :: rat) = of_int (?s * second + ?n)" by (simp only: div_mult_mod_eq)
  then have "of_int d / of_int second = (of_int ?s * of_int second + of_int ?n) / (of_int second :: rat)"
    by (simp only: of_int_add of_int_mult)
  also have "\<dots> = of_int ?s + of_int ?n / of_int second"
    by (simp add: add_divide_distrib del: of_int_add)
  finally have "of_int d / of_int second = (of_int ?s + of_int ?n / of_int second :: rat)" .
  moreover have "duration_seconds d = fl (float_of_int ?s + float_div (float_of_int ?n) (float_of_int second))"
    using assms by (cases "d = 0") (simp_all add: duration_seconds_def Let_def float_of_int_def float_div_def)
  ultimately show ?thesis using close_mono [OF total, of 5] by simp
qed

text \<open>A bound on the exact value that has a margin of \<open>k\<close> roundings is one on the computed value, and back.\<close>

lemma close_pos: "close k x y \<Longrightarrow> 0 < x \<Longrightarrow> 0 < y"
proof -
  assume "close k x y" "0 < x"
  then have "0 < x * (1 - half_ulp) ^ k" "x * (1 - half_ulp) ^ k \<le> y"
    using shrink(1) [of k] by (simp_all add: close_def)
  then show "0 < y" by (rule less_le_trans)
qed

lemma close_le:
  assumes "close k x y"
  shows "y \<le> b \<Longrightarrow> x * (1 - half_ulp) ^ k \<le> b" "x \<le> b * (1 - half_ulp) ^ k \<Longrightarrow> y \<le> b"
proof -
  show "y \<le> b \<Longrightarrow> x * (1 - half_ulp) ^ k \<le> b" using assms by (auto simp: close_def)
  assume "x \<le> b * (1 - half_ulp) ^ k"
  then have "y * (1 - half_ulp) ^ k \<le> b * (1 - half_ulp) ^ k" using assms unfolding close_def by linarith
  then show "y \<le> b" by (rule mult_right_le_imp_le) (rule shrink)
qed

end
