(* ===== verification/SwapFence.thy ===== *)
theory SwapFence
  imports SwapCutoff GoFloat
begin

text \<open>
  The sub-phases of the Exchange-Fence swap: pre-fence drain with the adaptive decision, the fence itself,
  the parallel drain with its roll-back, and the cutover. The rates of the decision are computed in the
  \<open>float64\<close> arithmetic of theory \<open>GoFloat\<close>; the reasons the code formats are only logged and have no counterpart.
\<close>

section \<open>PreFenceDrain\<close>

text \<open>The first pass. \<open>Inl\<close> is an early return.\<close>

definition startPreFence :: "'w env \<Rightarrow> StatefulMigration \<Rightarrow> string \<Rightarrow> ('w, swap_result + StatefulMigration) go" where
  "startPreFence E m swapQueue =
     (if timing_get ''Swap.PreFence.start'' m = None then do {
        q \<leftarrow> getQueueDepth E swapQueue;
        case q of
          Inl err \<Rightarrow> go_return (Inl (sw_fail m (Wrapped ''get initial swap depth'' err)))
        | Inr initialDepth \<Rightarrow> do {
            e \<leftarrow> sendControlMessage E (st_replacementPod (mig_status m)) ControlStartReplay
                   (Some [(''queue'', swapQueue)]);
            case e of
              Some err \<Rightarrow> go_return (Inl (sw_fail m (Wrapped ''send START_REPLAY for pre-fence'' err)))
            | None \<Rightarrow> do {
                let base = m;
                s \<leftarrow> stampTiming E ''Swap.PreFence.start'' m;
                case Option.bind s (timing_puts [(''Swap.PreFence.initialDepth'', show_int initialDepth)]) of
                  None \<Rightarrow> go_return (Inl (sw_fail m NilMapPanic))
                | Some m1 \<Rightarrow> do { m2 \<leftarrow> patchStatusIgnore E base m1; go_return (Inr m2) }
              }
          }
      } else go_return (Inr m))"

text \<open>
  The decision on the depths: \<open>elapsed\<close> is in nanoseconds, the net rate in messages per second.
\<close>

definition netDrainRate :: "int \<Rightarrow> int \<Rightarrow> int \<Rightarrow> rat" where
  "netDrainRate elapsed initialDepth currentDepth =
     float_div (float_of_int (initialDepth - currentDepth)) (duration_seconds elapsed)"

definition adaptiveDecision :: "int \<Rightarrow> int \<Rightarrow> int \<Rightarrow> int \<Rightarrow> bool" where
  "adaptiveDecision elapsed initialDepth currentDepth primaryDepth =
     (let rate = netDrainRate elapsed initialDepth currentDepth;
          maxDepth = (if primaryDepth < currentDepth then currentDepth else primaryDepth)
      in if rate \<le> 0 then False
         else if 0 < maxDepth then \<not> fenceTimeThreshold < float_div (float_of_int maxDepth) rate
         else True)"

definition preFenceInitialDepth :: "StatefulMigration \<Rightarrow> int" where
  "preFenceInitialDepth m = (case timing_get ''Swap.PreFence.initialDepth'' m of
     None \<Rightarrow> 0 | Some s \<Rightarrow> sscanf_d s 0)"

text \<open>The depth of the primary queue is read with its error ignored; it is zero then.\<close>

definition depth_or_zero :: "go_error + int \<Rightarrow> int" where
  "depth_or_zero r = (case r of Inl _ \<Rightarrow> 0 | Inr d \<Rightarrow> d)"

definition decideFence :: "'w env \<Rightarrow> MessageQueueConfig \<Rightarrow> StatefulMigration \<Rightarrow> int \<Rightarrow> int \<Rightarrow> ('w, bool) go" where
  "decideFence E cfg m elapsed currentDepth =
     (if 0 < duration_seconds elapsed then do {
        p \<leftarrow> getQueueDepth E (queueName cfg);
        go_return (adaptiveDecision elapsed (preFenceInitialDepth m) currentDepth (depth_or_zero p))
      } else go_return True)"

definition leavePreFence ::
    "'w env \<Rightarrow> MessageQueueConfig \<Rightarrow> StatefulMigration \<Rightarrow> string \<Rightarrow> bool \<Rightarrow> ('w, swap_result) go" where
  "leavePreFence E cfg m swapQueue useFence =
     (let base = m; m1 = timing_dels [''Swap.PreFence.start'', ''Swap.PreFence.initialDepth''] m in
      if useFence then swapPatch E base (set_subPhase ''ExchangeFence'' m1) sw_next
      else do {
        _ \<leftarrow> unbindQueue E swapQueue (exchangeName cfg);
        s \<leftarrow> stampTiming E ''Swap.MiniReplay.start'' m1;
        case s of
          None \<Rightarrow> go_return (sw_fail m1 NilMapPanic)
        | Some m2 \<Rightarrow> swapPatch E base (set_subPhase ''MiniReplay'' m2) sw_next
      })"

definition handleSwapPreFenceDrain :: "'w env \<Rightarrow> StatefulMigration \<Rightarrow> ('w, swap_result) go" where
  "handleSwapPreFenceDrain E m0 = do {
     let m = ensurePhaseTimings m0;
     let cfg = mqCfg m;
     let swapQueue = replay_queue (queueName cfg);
     s \<leftarrow> startPreFence E m swapQueue;
     case s of
       Inl r \<Rightarrow> go_return r
     | Inr m1 \<Rightarrow> do {
         q \<leftarrow> getQueueDepth E swapQueue;
         case q of
           Inl err \<Rightarrow> go_return (sw_fail m1 (Wrapped ''get swap queue depth for pre-fence'' err))
         | Inr currentDepth \<Rightarrow> do {
             e \<leftarrow> elapsedSince E ''Swap.PreFence.start'' m1;
             if duration_or_zero e < preFenceObservationWindow
             then go_return (sw_wait m1 (1 * second))
             else do {
               useFence \<leftarrow> decideFence E cfg m1 (duration_or_zero e) currentDepth;
               leavePreFence E cfg m1 swapQueue useFence
             }
           }
       }
   }"

section \<open>ExchangeFence\<close>

definition fenceKeys :: "string list" where
  "fenceKeys = [''Swap.Fence.time'', ''Swap.Fence.primaryDepth'', ''Swap.Fence.swapDepth'']"

text \<open>The topology change: buffer queue bound, then primary and swap queue unbound.\<close>

definition applyFence :: "'w env \<Rightarrow> string \<Rightarrow> string \<Rightarrow> string \<Rightarrow> string \<Rightarrow> ('w, go_error option) go" where
  "applyFence E primary swapQueue bufferQueue ex = do {
     b \<leftarrow> declareAndBindQueue E bufferQueue ex;
     case b of
       Some err \<Rightarrow> go_return (Some (Wrapped ''create buffer queue'' err))
     | None \<Rightarrow> do {
         p \<leftarrow> unbindQueue E primary ex;
         case p of
           Some err \<Rightarrow> go_return (Some (Wrapped ''unbind primary queue for fence'' err))
         | None \<Rightarrow> do {
             s \<leftarrow> unbindQueue E swapQueue ex;
             go_return (case s of
                 Some err \<Rightarrow> Some (Wrapped ''unbind swap queue for fence'' err)
               | None \<Rightarrow> None)
           }
       }
   }"

definition recordFence :: "'w env \<Rightarrow> StatefulMigration \<Rightarrow> int \<Rightarrow> int \<Rightarrow> ('w, swap_result) go" where
  "recordFence E m primaryDepth swapDepth = do {
     let base = m;
     s \<leftarrow> stampTiming E ''Swap.Fence.time'' m;
     case Option.bind s (timing_puts [(''Swap.Fence.primaryDepth'', show_int primaryDepth),
                                      (''Swap.Fence.swapDepth'', show_int swapDepth)]) of
       None \<Rightarrow> go_return (sw_fail m NilMapPanic)
     | Some m1 \<Rightarrow> swapPatch E base (set_subPhase ''ParallelDrain'' m1) sw_next
   }"

definition handleSwapExchangeFence :: "'w env \<Rightarrow> StatefulMigration \<Rightarrow> ('w, swap_result) go" where
  "handleSwapExchangeFence E m0 = do {
     let m = ensurePhaseTimings m0;
     let primary = queueName (mqCfg m);
     let swapQueue = replay_queue primary;
     if timing_get ''Swap.Fence.time'' m \<noteq> None
     then swapPatch E m (set_subPhase ''ParallelDrain'' m) sw_next
     else do {
       p \<leftarrow> getQueueDepth E primary;
       case p of
         Inl err \<Rightarrow> go_return (sw_fail m (Wrapped ''get primary depth before fence'' err))
       | Inr primaryDepth \<Rightarrow> do {
           s \<leftarrow> getQueueDepth E swapQueue;
           case s of
             Inl err \<Rightarrow> go_return (sw_fail m (Wrapped ''get swap depth before fence'' err))
           | Inr swapDepth \<Rightarrow> do {
               f \<leftarrow> applyFence E primary swapQueue (fence_buffer_queue primary) (exchangeName (mqCfg m));
               case f of
                 Some err \<Rightarrow> go_return (sw_fail m err)
               | None \<Rightarrow> recordFence E m primaryDepth swapDepth
             }
         }
     }
   }"

section \<open>Roll-back\<close>

definition drainKeys :: "string list" where
  "drainKeys = [''Swap.ParallelDrain.lastDepth'', ''Swap.ParallelDrain.lastCheck'']"

definition handleSwapFenceRollback :: "'w env \<Rightarrow> StatefulMigration \<Rightarrow> ('w, swap_result) go" where
  "handleSwapFenceRollback E m = do {
     let primary = queueName (mqCfg m);
     let ex = exchangeName (mqCfg m);
     let bufferQueue = fence_buffer_queue primary;
     let swapQueue = replay_queue primary;
     _ \<leftarrow> bindQueue E primary ex '''';
     _ \<leftarrow> bindQueue E swapQueue ex '''';
     _ \<leftarrow> getQueueDepth E bufferQueue;
     _ \<leftarrow> unbindQueue E bufferQueue ex;
     _ \<leftarrow> deleteQueue E bufferQueue;
     let base = m;
     let m1 = timing_dels (fenceKeys @ drainKeys) m;
     s \<leftarrow> stampTiming E ''Swap.MiniReplay.start'' m1;
     case s of
       None \<Rightarrow> go_return (sw_fail m1 NilMapPanic)
     | Some m2 \<Rightarrow> swapPatch E base (set_subPhase ''MiniReplay'' m2) sw_next
   }"

section \<open>ParallelDrain\<close>

text \<open>
  The stall detection. \<open>Inl (Inr ())\<close> says that the depths have been unchanged for longer than the limit,
  \<open>Inl (Inl r)\<close> is an early return, and \<open>Inr m\<close> is the object to go on with.
\<close>

definition drainStalled :: "'w env \<Rightarrow> StatefulMigration \<Rightarrow> ('w, bool) go" where
  "drainStalled E m = do {
     d \<leftarrow> elapsedSince E ''Swap.ParallelDrain.lastCheck'' m;
     go_return (case d of None \<Rightarrow> False | Some x \<Rightarrow> parallelDrainStallTimeout < x)
   }"

definition trackDrain :: "'w env \<Rightarrow> StatefulMigration \<Rightarrow> string \<Rightarrow> ('w, (swap_result + unit) + StatefulMigration) go" where
  "trackDrain E m currentDepthStr =
     (if timing_get ''Swap.ParallelDrain.lastDepth'' m = Some currentDepthStr then do {
        stalled \<leftarrow> drainStalled E m;
        go_return (if stalled then Inl (Inr ()) else Inr m)
      } else do {
        let base = m;
        case timing_put ''Swap.ParallelDrain.lastDepth'' currentDepthStr m of
          None \<Rightarrow> go_return (Inl (Inl (sw_fail m NilMapPanic)))
        | Some m1 \<Rightarrow> do {
            s \<leftarrow> stampTiming E ''Swap.ParallelDrain.lastCheck'' m1;
            case s of
              None \<Rightarrow> go_return (Inl (Inl (sw_fail m NilMapPanic)))
            | Some m2 \<Rightarrow> do { m3 \<leftarrow> patchStatusIgnore E base m2; go_return (Inr m3) }
          }
      })"

definition handleSwapParallelDrain :: "'w env \<Rightarrow> StatefulMigration \<Rightarrow> ('w, swap_result) go" where
  "handleSwapParallelDrain E m0 = do {
     let m = ensurePhaseTimings m0;
     let primary = queueName (mqCfg m);
     let swapQueue = replay_queue primary;
     p \<leftarrow> getQueueStats E primary;
     case p of
       Inl err \<Rightarrow> go_return (sw_fail m (Wrapped ''get primary queue stats'' err))
     | Inr (primaryReady, primaryUnacked) \<Rightarrow> do {
         s \<leftarrow> getQueueStats E swapQueue;
         case s of
           Inl err \<Rightarrow> go_return (sw_fail m (Wrapped ''get swap queue stats'' err))
         | Inr (swapReady, swapUnacked) \<Rightarrow> do {
             let primaryTotal = primaryReady + primaryUnacked;
             let swapTotal = swapReady + swapUnacked;
             elapsed \<leftarrow> elapsedSince E ''Swap.Fence.time'' m;
             if swapTotal = 0
             then swapPatch E m (set_subPhase ''FenceCutover'' (timing_dels fenceKeys m)) sw_next
             else do {
               t \<leftarrow> trackDrain E m (show_int primaryTotal @ '','' @ show_int swapTotal);
               case t of
                 Inl (Inl r) \<Rightarrow> go_return r
               | Inl (Inr _) \<Rightarrow> handleSwapFenceRollback E (timing_dels drainKeys m)
               | Inr m1 \<Rightarrow>
                   if parallelDrainMaxTimeout < duration_or_zero elapsed then handleSwapFenceRollback E m1
                   else go_return (sw_wait m1 parallelDrainPollInterval)
             }
           }
       }
   }"

section \<open>FenceCutover\<close>

definition statsTotal :: "go_error + int \<times> int \<Rightarrow> int" where
  "statsTotal r = (case r of Inl _ \<Rightarrow> 0 | Inr (ready, unacked) \<Rightarrow> ready + unacked)"

text \<open>The shadow pod is deleted; every error is only logged.\<close>

definition killShadowPod :: "'w env \<Rightarrow> StatefulMigration \<Rightarrow> ('w, unit) go" where
  "killShadowPod E m = do {
     r \<leftarrow> getPod E (mig_namespace m) (st_targetPod (mig_status m));
     case r of
       Inr p \<Rightarrow> do { _ \<leftarrow> deletePod E p (Some 0); go_return () }
     | Inl _ \<Rightarrow> go_return ()
   }"

text \<open>
  The buffer queue still holds messages. \<open>Inl\<close> is the wait for it to drain, \<open>Inr\<close> says that the time is over.
\<close>

definition drainBuffer :: "'w env \<Rightarrow> StatefulMigration \<Rightarrow> string \<Rightarrow> ('w, swap_result + StatefulMigration) go" where
  "drainBuffer E m bufferQueue = do {
     s \<leftarrow> (if timing_get ''Swap.BufferDrain.start'' m = None then do {
             _ \<leftarrow> sendControlMessage E (st_replacementPod (mig_status m)) ControlStartReplay
                    (Some [(''queue'', bufferQueue)]);
             let base = m;
             t \<leftarrow> stampTiming E ''Swap.BufferDrain.start'' m;
             case t of
               None \<Rightarrow> go_return None
             | Some m1 \<Rightarrow> do { m2 \<leftarrow> patchStatusIgnore E base m1; go_return (Some m2) }
           } else go_return (Some m));
     case s of
       None \<Rightarrow> go_return (Inl (sw_fail m NilMapPanic))
     | Some m' \<Rightarrow> (case timing_get ''Swap.BufferDrain.start'' m' of
           None \<Rightarrow> go_return (Inl (sw_wait m' (1 * second)))
         | Some startStr \<Rightarrow> (case rfc3339_parse startStr of
               None \<Rightarrow> go_return (Inr m')
             | Some startTime \<Rightarrow> do {
                 d \<leftarrow> since E startTime;
                 go_return (if parallelDrainStallTimeout < d then Inr m' else Inl (sw_wait m' (1 * second)))
               }))
   }"

definition finishCutover ::
    "'w env \<Rightarrow> MessageQueueConfig \<Rightarrow> StatefulMigration \<Rightarrow> ('w, swap_result) go" where
  "finishCutover E cfg m = do {
     _ \<leftarrow> sendControlMessage E (st_replacementPod (mig_status m)) ControlEndReplay None;
     _ \<leftarrow> deleteSecondaryQueue E (replay_queue (queueName cfg)) (queueName cfg) (exchangeName cfg);
     _ \<leftarrow> deleteQueue E (fence_buffer_queue (queueName cfg));
     _ \<leftarrow> (if 0 < st_originalReplicas (mig_status m)
           then scaleUp E m (st_originalReplicas (mig_status m)) else go_return None);
     let m1 = set_subPhase '''' (set_status (st_targetPod_update (\<lambda>_. st_replacementPod (mig_status m))) m);
     swapPatch E m (timing_del ''Swap.BufferDrain.start'' m1) sw_finished
   }"

definition handleSwapFenceCutover :: "'w env \<Rightarrow> StatefulMigration \<Rightarrow> ('w, swap_result) go" where
  "handleSwapFenceCutover E m0 = do {
     let m = ensurePhaseTimings m0;
     let cfg = mqCfg m;
     let primary = queueName cfg;
     let ex = exchangeName cfg;
     let bufferQueue = fence_buffer_queue primary;
     _ \<leftarrow> killShadowPod E m;
     b \<leftarrow> bindQueue E primary ex '''';
     case b of
       Some err \<Rightarrow> go_return (sw_fail m (Wrapped ''rebind primary queue'' err))
     | None \<Rightarrow> do {
         _ \<leftarrow> unbindQueue E bufferQueue ex;
         st \<leftarrow> getQueueStats E bufferQueue;
         if 0 < statsTotal st then do {
           d \<leftarrow> drainBuffer E m bufferQueue;
           case d of
             Inl r \<Rightarrow> go_return r
           | Inr m1 \<Rightarrow> finishCutover E cfg m1
         } else finishCutover E cfg m
       }
   }"

section \<open>The contracts\<close>

lemma bind_puts_simps:
  assumes "Option.bind (timing_put k v m) (timing_puts kvs) = Some m'"
  shows "phase m' = phase m" "subPhase m' = subPhase m" "mig_spec m' = mig_spec m"
  using timing_puts_simps [of "(k, v) # kvs" m m'] assms by simp_all

lemma agrees_puts: "Option.bind (timing_put k v m) (timing_puts kvs) = Some m' \<Longrightarrow> agrees p s m' \<longleftrightarrow> agrees p s m"
  by (simp add: agrees_def bind_puts_simps)

lemma agrees_dels [simp]: "agrees p s (timing_dels ks m) \<longleftrightarrow> agrees p s m"
  by (simp add: agrees_def)

lemma ends_startPreFence:
  assumes sw: "single_writer E V" and m: "agrees p s m"
  shows "ends (holds V p s) (startPreFence E m q) (goes_on V p s)"
  unfolding startPreFence_def Let_def
  by (intro ends_intro ends_patchStatusIgnore [OF sw] ends_stamp [OF sw] ends_bind ends_return steady_intro sw)
    (use m in \<open>simp_all add: agrees_puts\<close>)

lemma emits_startPreFence_legal: "emits (swap_legal ts) (startPreFence E m q)"
  unfolding startPreFence_def Let_def by (intro emits_stamp_bind emits_intro) (simp_all add: bind_puts_simps)

lemma emits_decideFence [emits_intro]:
  "(\<And>r. P (EvDepth (queueName cfg) r)) \<Longrightarrow> emits P (decideFence E cfg m d c)"
  unfolding decideFence_def by (intro emits_intro)

lemma emits_leavePreFence_legal: "emits (swap_legal [''ExchangeFence'', ''MiniReplay'']) (leavePreFence E cfg m q u)"
  unfolding leavePreFence_def Let_def by (intro emits_stamp_bind emits_intro) (simp_all add: timing_put_simps)

lemma ends_leavePreFence:
  assumes sw: "single_writer E V" and m: "agrees p s m"
  shows "ends (holds V p s) (leavePreFence E cfg m q u) (sw_advances V [''ExchangeFence'', ''MiniReplay''])"
  unfolding leavePreFence_def Let_def
  by (intro ends_swap_rules ends_intro ends_bind steady_intro sw) (use m in simp_all)

lemma steady_decideFence [steady_intro]: "single_writer E V \<Longrightarrow> steady (holds V p s) (decideFence E cfg m d c)"
  unfolding decideFence_def by (intro steady_intro)

lemma emits_handleSwapPreFenceDrain_legal:
  "emits (swap_legal [''ExchangeFence'', ''MiniReplay'']) (handleSwapPreFenceDrain E m)"
  unfolding handleSwapPreFenceDrain_def Let_def
  by (intro emits_startPreFence_legal emits_leavePreFence_legal emits_intro) simp_all

lemma ends_handleSwapPreFenceDrain:
  assumes sw: "single_writer E V"
  shows "ends (holds V (phase m) (subPhase m)) (handleSwapPreFenceDrain E m)
    (sw_advances V [''ExchangeFence'', ''MiniReplay''])"
  unfolding handleSwapPreFenceDrain_def Let_def
  by (rule ends_early_bind [OF ends_startPreFence [OF sw]])
    (auto intro!: ends_leavePreFence ends_sw ends_intro ends_bind steady_intro sw)

interpretation swap_preFence: swap_stage handleSwapPreFenceDrain "[''ExchangeFence'', ''MiniReplay'']"
  by unfold_locales (rule emits_handleSwapPreFenceDrain_legal, erule ends_handleSwapPreFenceDrain)

lemma emits_applyFence [emits_intro]:
  "(\<And>ok. P (EvDeclareBind b ex ok)) \<Longrightarrow> (\<And>q ok. P (EvUnbind q ex ok)) \<Longrightarrow> emits P (applyFence E p s b ex)"
  unfolding applyFence_def by (intro emits_intro)

lemma emits_recordFence_legal: "emits (swap_legal [''ParallelDrain'']) (recordFence E m a b)"
  unfolding recordFence_def Let_def by (intro emits_stamp_bind emits_intro) (simp_all add: bind_puts_simps)

lemma ends_recordFence:
  assumes sw: "single_writer E V" and m: "agrees p s m"
  shows "ends (holds V p s) (recordFence E m a b) (sw_advances V [''ParallelDrain''])"
  unfolding recordFence_def Let_def
  by (intro ends_swap_rules ends_intro ends_bind steady_intro sw) (use m in simp_all)

lemma steady_applyFence [steady_intro]: "single_writer E V \<Longrightarrow> steady (holds V p s) (applyFence E a b c ex)"
  unfolding applyFence_def by (intro steady_intro)

lemma emits_handleSwapExchangeFence_legal: "emits (swap_legal [''ParallelDrain'']) (handleSwapExchangeFence E m)"
  unfolding handleSwapExchangeFence_def Let_def by (intro emits_recordFence_legal emits_intro) simp_all

lemma ends_handleSwapExchangeFence:
  assumes sw: "single_writer E V"
  shows "ends (holds V (phase m) (subPhase m)) (handleSwapExchangeFence E m) (sw_advances V [''ParallelDrain''])"
  unfolding handleSwapExchangeFence_def Let_def
  by (intro ends_recordFence ends_swap_rules ends_intro ends_bind steady_intro sw) simp_all

interpretation swap_fence: swap_stage handleSwapExchangeFence "[''ParallelDrain'']"
  by unfold_locales (rule emits_handleSwapExchangeFence_legal, erule ends_handleSwapExchangeFence)

lemma emits_handleSwapFenceRollback_legal: "emits (swap_legal [''MiniReplay'']) (handleSwapFenceRollback E m)"
  unfolding handleSwapFenceRollback_def Let_def by (intro emits_stamp_bind emits_intro) (simp_all add: timing_put_simps)

lemma ends_rollback:
  assumes sw: "single_writer E V" and m: "agrees p s m" and "''MiniReplay'' \<in> set ts"
  shows "ends (holds V p s) (handleSwapFenceRollback E m) (sw_advances V ts)"
  unfolding handleSwapFenceRollback_def Let_def
  by (intro ends_swap_rules ends_intro ends_bind steady_intro sw) (use assms in simp_all)

lemma ends_handleSwapFenceRollback:
  assumes sw: "single_writer E V"
  shows "ends (holds V (phase m) (subPhase m)) (handleSwapFenceRollback E m) (sw_advances V [''MiniReplay''])"
  by (rule ends_rollback [OF sw]) simp_all

interpretation swap_rollback: swap_stage handleSwapFenceRollback "[''MiniReplay'']"
  by unfold_locales (rule emits_handleSwapFenceRollback_legal, erule ends_handleSwapFenceRollback)

lemma emits_drainStalled [emits_intro]: "emits P (drainStalled E m)"
  unfolding drainStalled_def by (intro emits_intro)

lemma emits_trackDrain_legal: "emits (swap_legal ts) (trackDrain E m d)"
  unfolding trackDrain_def Let_def by (intro emits_stamp_bind emits_intro) (simp_all add: timing_put_simps)

text \<open>A stall and the answer to go on both leave the server as it was.\<close>

definition drain_goes_on ::
    "('w \<Rightarrow> string \<times> string) \<Rightarrow> string \<Rightarrow> string \<Rightarrow> (swap_result + unit) + StatefulMigration \<Rightarrow> 'w \<Rightarrow> bool" where
  "drain_goes_on V p s t x \<longleftrightarrow> (case t of
     Inl (Inl r) \<Rightarrow> \<not> sw_continues r
   | Inl (Inr _) \<Rightarrow> holds V p s x
   | Inr m' \<Rightarrow> holds V p s x \<and> agrees p s m')"

lemma drain_goes_on_simps [simp]:
  "drain_goes_on V p s (Inl (Inl r)) = (\<lambda>x. \<not> sw_continues r)"
  "drain_goes_on V p s (Inl (Inr u)) = holds V p s"
  "drain_goes_on V p s (Inr m') = (\<lambda>x. holds V p s x \<and> agrees p s m')"
  by (simp_all add: drain_goes_on_def fun_eq_iff)

lemma steady_drainStalled [steady_intro]: "single_writer E V \<Longrightarrow> steady (holds V p s) (drainStalled E m)"
  unfolding drainStalled_def by (intro steady_intro)

lemma ends_trackDrain:
  assumes sw: "single_writer E V" and m: "agrees p s m"
  shows "ends (holds V p s) (trackDrain E m d) (drain_goes_on V p s)"
  unfolding trackDrain_def Let_def
  by (intro ends_intro ends_patchStatusIgnore [OF sw] ends_stamp [OF sw] ends_bind ends_return steady_intro sw)
    (use m in \<open>simp_all add: agrees_put\<close>)

lemma rollback_within_drain: "emits (swap_legal [''FenceCutover'', ''MiniReplay'']) (handleSwapFenceRollback E m)"
  by (rule emits_mono [OF emits_handleSwapFenceRollback_legal], erule swap_legal_mono, simp)

lemma emits_handleSwapParallelDrain_legal:
  "emits (swap_legal [''FenceCutover'', ''MiniReplay'']) (handleSwapParallelDrain E m)"
  unfolding handleSwapParallelDrain_def Let_def
  by (intro emits_trackDrain_legal rollback_within_drain emits_intro) simp_all

lemma ends_handleSwapParallelDrain:
  assumes sw: "single_writer E V"
  shows "ends (holds V (phase m) (subPhase m)) (handleSwapParallelDrain E m)
    (sw_advances V [''FenceCutover'', ''MiniReplay''])"
proof -
  let ?ts = "[''FenceCutover'', ''MiniReplay'']"
  have early: "ends (\<lambda>_. \<not> sw_continues r) (go_return r) (sw_advances V ?ts)" for r
    by (rule ends_return) (simp add: sw_advances_def)
  have drain: "ends (drain_goes_on V p s t) (case t of
        Inl (Inl r) \<Rightarrow> go_return r
      | Inl (Inr _) \<Rightarrow> handleSwapFenceRollback E (timing_dels drainKeys m')
      | Inr m1 \<Rightarrow> if b then handleSwapFenceRollback E m1 else go_return (sw_wait m1 d)) (sw_advances V ?ts)"
    if "agrees p s m'" for p s t m' b d
    using that by (auto intro!: early ends_rollback [OF sw] ends_conj_pre ends_sw split: sum.split)
  show ?thesis
    unfolding handleSwapParallelDrain_def Let_def
    by (intro ends_seq [OF ends_trackDrain [OF sw] drain] ends_swap_rules ends_intro ends_bind steady_intro sw) simp_all
qed

interpretation swap_parallelDrain: swap_stage handleSwapParallelDrain "[''FenceCutover'', ''MiniReplay'']"
  by unfold_locales (rule emits_handleSwapParallelDrain_legal, erule ends_handleSwapParallelDrain)

lemma emits_killShadowPod [emits_intro]:
  "(\<And>p g ok. P (EvDeletePod p g ok)) \<Longrightarrow> emits P (killShadowPod E m)"
  unfolding killShadowPod_def by (intro emits_intro)

lemma emits_drainBuffer_legal: "emits (swap_legal ts) (drainBuffer E m q)"
  unfolding drainBuffer_def Let_def by (intro emits_stamp_bind emits_intro) (simp_all add: timing_put_simps)

lemma steady_killShadowPod [steady_intro]: "single_writer E V \<Longrightarrow> steady (holds V p s) (killShadowPod E m)"
  unfolding killShadowPod_def by (intro steady_intro)

lemma ends_drainBuffer:
  assumes sw: "single_writer E V" and m: "agrees p s m"
  shows "ends (holds V p s) (drainBuffer E m q) (goes_on V p s)"
proof -
  have started: "ends (holds V p s) (State_Monad.bind (sendControlMessage E a b c) (\<lambda>_.
        State_Monad.bind (stampTiming E k m) (\<lambda>t. case t of
          None \<Rightarrow> go_return None
        | Some m1 \<Rightarrow> State_Monad.bind (patchStatusIgnore E m m1) (\<lambda>m2. go_return (Some m2)))))
      (\<lambda>r x. holds V p s x \<and> (\<forall>m'. r = Some m' \<longrightarrow> agrees p s m'))" for a b c k
    by (intro ends_intro ends_patchStatusIgnore [OF sw] ends_stamp [OF sw] ends_bind ends_return steady_intro sw)
      (use m in \<open>simp_all add: agrees_put\<close>)
  show ?thesis
    unfolding drainBuffer_def Let_def
    by (rule ends_fact_bind [where R = "\<lambda>r. \<forall>m'. r = Some m' \<longrightarrow> agrees p s m'"])
      (use m in \<open>auto intro!: started ends_intro ends_bind ends_return steady_intro sw\<close>)
qed

lemma emits_finishCutover_legal: "emits (swap_legal ['''']) (finishCutover E cfg m)"
  unfolding finishCutover_def Let_def by (intro emits_intro) simp_all

lemma ends_finishCutover:
  assumes sw: "single_writer E V"
  shows "ends (holds V p s) (finishCutover E cfg m) (sw_advances V ts)"
  unfolding finishCutover_def Let_def
  by (intro ends_swapPatch_stop ends_intro ends_bind steady_intro sw) simp_all

lemma emits_handleSwapFenceCutover_legal: "emits (swap_legal ['''']) (handleSwapFenceCutover E m)"
  unfolding handleSwapFenceCutover_def Let_def
  by (intro emits_drainBuffer_legal emits_finishCutover_legal emits_intro) simp_all

lemma ends_cutover:
  assumes sw: "single_writer E V"
  shows "ends (holds V (phase m) (subPhase m)) (handleSwapFenceCutover E m) (sw_advances V ts)"
  unfolding handleSwapFenceCutover_def Let_def
  by (intro ends_early_bind [OF ends_drainBuffer [OF sw]] ends_finishCutover ends_swap_rules ends_intro ends_bind
      steady_intro sw) (simp_all add: ends_sw)

lemma ends_handleSwapFenceCutover:
  "single_writer E V \<Longrightarrow> ends (holds V (phase m) (subPhase m)) (handleSwapFenceCutover E m) (sw_advances V [''''])"
  by (rule ends_cutover)

interpretation swap_cutover: swap_stage handleSwapFenceCutover "['''']"
  by unfold_locales (rule emits_handleSwapFenceCutover_legal, erule ends_handleSwapFenceCutover)

section \<open>The properties\<close>

lemma netDrainRate_sign:
  assumes "0 < elapsed"
  shows "netDrainRate elapsed i c \<le> 0 \<longleftrightarrow> i \<le> c"
proof -
  have "0 < duration_seconds elapsed"
    using close_pos [OF close_duration [of elapsed]] assms by simp
  then show ?thesis
    by (simp add: netDrainRate_def float_div_def float_of_int_def fl_sign divide_le_0_iff zero_le_divide_iff)
qed

text \<open>
  C18: The adaptive decision, its sign: when the swap queue has not become shorter over the observation, the fence is not
  used; when it has, and both queues are empty by now, it is used. Rounding of the rates never changes this.
\<close>

theorem fence_decision_sign:
  assumes "0 < elapsed"
  shows "adaptiveDecision elapsed initialDepth currentDepth primaryDepth =
    (currentDepth < initialDepth \<and> (max currentDepth primaryDepth \<le> 0 \<or>
      float_div (float_of_int (max currentDepth primaryDepth)) (netDrainRate elapsed initialDepth currentDepth) \<le> 60))"
  using netDrainRate_sign [OF assms, of initialDepth currentDepth]
  by (auto simp: adaptiveDecision_def Let_def fenceTimeThreshold_def max_def not_less)

lemma close_drain_time:
  assumes "0 < elapsed" "c < i" "0 < d"
  shows "close 9 (of_int d * (of_int elapsed / of_int second) / of_int (i - c))
    (float_div (float_of_int d) (netDrainRate elapsed i c))"
proof -
  have dur: "close 5 (of_int elapsed / of_int second) (duration_seconds elapsed)" using close_duration assms(1) by simp
  have pos: "0 < (of_int elapsed / of_int second :: rat)" using assms(1) by simp
  have dpos: "0 < duration_seconds elapsed"
    using close_pos [OF dur pos] .
  have rate0: "close 6 (of_int (i - c) / (of_int elapsed / of_int second)) (float_of_int (i - c) / duration_seconds elapsed)"
    using close_divide [OF close_int dur pos dpos, of "i - c"] assms(2) by simp
  have rate: "close 7 (of_int (i - c) / (of_int elapsed / of_int second)) (netDrainRate elapsed i c)"
    using close_trans [OF rate0 close_fl] rate0 by (simp add: netDrainRate_def float_div_def close_def)
  have rpos: "0 < (of_int (i - c) / (of_int elapsed / of_int second) :: rat)" using assms pos by simp
  have npos: "0 < netDrainRate elapsed i c" using netDrainRate_sign [OF assms(1), of i c] assms(2) by linarith
  have q: "close 8 (of_int d / (of_int (i - c) / (of_int elapsed / of_int second)))
      (float_of_int d / netDrainRate elapsed i c)"
    using close_divide [OF close_int rate rpos npos, of d] assms(3) by simp
  have T: "of_int d / (of_int (i - c) / (of_int elapsed / of_int second)) =
      (of_int d * (of_int elapsed / of_int second) / of_int (i - c) :: rat)"
    by simp
  have nonneg: "0 \<le> float_of_int d / netDrainRate elapsed i c"
    using q by (simp add: close_def)
  have "close 9 (of_int d / (of_int (i - c) / (of_int elapsed / of_int second)))
      (fl (float_of_int d / netDrainRate elapsed i c))"
    using close_trans [OF q close_fl [OF nonneg]] by simp
  then show ?thesis unfolding T float_div_def .
qed

text \<open>
  C17: The adaptive decision, its bound: for a swap queue that gets shorter and a deeper queue that is not empty, let
  \<open>T\<close> be the exact time in which that queue would be empty at the observed net rate, in seconds. The fence is used
  when \<open>T\<close> is at most sixty, and only then, up to the nine roundings of the \<open>float64\<close> computation, each a factor
  of at most \<open>1 - 2 ^ -53\<close>.
\<close>

theorem fence_decision_bound:
  assumes "0 < elapsed" "currentDepth < initialDepth" "0 < max currentDepth primaryDepth"
    and "T = of_int (max currentDepth primaryDepth) * (of_int elapsed / of_int second) / of_int (initialDepth - currentDepth)"
  shows "(adaptiveDecision elapsed initialDepth currentDepth primaryDepth \<longrightarrow> T * (1 - half_ulp) ^ 9 \<le> 60) \<and>
    (T \<le> 60 * (1 - half_ulp) ^ 9 \<longrightarrow> adaptiveDecision elapsed initialDepth currentDepth primaryDepth)"
proof -
  let ?q = "float_div (float_of_int (max currentDepth primaryDepth)) (netDrainRate elapsed initialDepth currentDepth)"
  have "close 9 T ?q" using close_drain_time [OF assms(1-3)] assms(4) by simp
  moreover have "adaptiveDecision elapsed initialDepth currentDepth primaryDepth \<longleftrightarrow> ?q \<le> 60"
    using netDrainRate_sign [OF assms(1), of initialDepth currentDepth] assms(2,3)
    by (auto simp: adaptiveDecision_def Let_def fenceTimeThreshold_def max_def not_less)
  ultimately show ?thesis using close_le by blast
qed

section \<open>When the drain is left for the cutover\<close>

fun leaves_for_cutover :: "event \<Rightarrow> bool" where
  "leaves_for_cutover (EvPatchStatus b m ok) \<longleftrightarrow> subPhase b \<noteq> ''FenceCutover'' \<and> subPhase m = ''FenceCutover''"
| "leaves_for_cutover _ \<longleftrightarrow> False"

lemma emits_rollback_no_cutover: "emits (\<lambda>e. \<not> leaves_for_cutover e) (handleSwapFenceRollback E m)"
  unfolding handleSwapFenceRollback_def Let_def by (intro emits_stamp_bind emits_intro) simp_all

lemma emits_trackDrain_no_cutover: "emits (\<lambda>e. \<not> leaves_for_cutover e) (trackDrain E m d)"
  unfolding trackDrain_def Let_def by (intro emits_stamp_bind emits_intro) (simp_all add: timing_put_simps)

lemma yields_no_cutover:
  assumes "emits (\<lambda>e. \<not> leaves_for_cutover e) f" "\<And>r es'. \<not> list_ex leaves_for_cutover es' \<Longrightarrow> Q r es'"
  shows "yields f Q"
  by (rule yields_mono [OF assms(1) [unfolded emits_def]]) (rule assms(2), simp add: list_all_iff list_ex_iff)

text \<open>
  C15: The parallel drain is left for the cutover exactly when both queues could be read and the swap queue holds no message, ready
  or unacknowledged. How many messages the primary queue still holds does not matter.
\<close>

theorem cutover_iff_swap_queue_empty:
  assumes "subPhase m = ''ParallelDrain''"
  shows "yields (handleSwapParallelDrain E m) (\<lambda>r es. list_ex leaves_for_cutover es =
    (\<exists>primary ready unacked rest. es = EvStats (queueName (mqCfg m)) (Some primary) #
       EvStats (replay_queue (queueName (mqCfg m))) (Some (ready, unacked)) # rest \<and> ready + unacked = 0))"
  unfolding handleSwapParallelDrain_def Let_def
proof (intro yields_intro, goal_cases)
  case (5 r a aa b ra ab ac ba rb)
  then show ?case
    by (intro yields_no_cutover emits_rollback_no_cutover emits_trackDrain_no_cutover emits_intro) auto
qed (use assms in auto)

end
