(* ===== verification/Finalizing.thy ===== *)
theory Finalizing
  imports SwapFence
begin

text \<open>
  The last phase: \<open>handleIdentitySwap\<close>, the loop over the sub-phases of the swap, and
  \<open>handleFinalizing\<close>, block by block. The loop runs on fuel; \<open>OutOfFuel\<close> is the error of a loop that
  has used it up (theory \<open>Termination\<close> says when it has not).
\<close>

section \<open>The identity swap\<close>

definition swapDispatch :: "'w env \<Rightarrow> StatefulMigration \<Rightarrow> ('w, swap_result) go" where
  "swapDispatch E m = (let s = subPhase m in
     if s = '''' then
       (if st_replacementPod (mig_status m) \<noteq> '''' then go_return (sw_finished m) else handleSwapPrepare E m)
     else if s = ''PrepareSwap'' then handleSwapPrepare E m
     else if s = ''ReCheckpoint'' then handleSwapReCheckpoint E m
     else if s = ''SwapTransfer'' then handleSwapTransfer E m
     else if s = ''CreateReplacement'' then handleSwapCreateReplacement E m
     else if s = ''MiniReplay'' then handleSwapMiniReplay E m
     else if s = ''TrafficSwitch'' then handleSwapTrafficSwitch E m
     else if s = ''PreFenceDrain'' then handleSwapPreFenceDrain E m
     else if s = ''ExchangeFence'' then handleSwapExchangeFence E m
     else if s = ''ParallelDrain'' then handleSwapParallelDrain E m
     else if s = ''FenceCutover'' then handleSwapFenceCutover E m
     else go_return (sw_finished m))"

primrec handleIdentitySwap :: "'w env \<Rightarrow> nat \<Rightarrow> StatefulMigration \<Rightarrow> ('w, swap_result) go" where
  "handleIdentitySwap E 0 m = go_return (sw_fail m OutOfFuel)"
| "handleIdentitySwap E (Suc n) m = do {
     r \<leftarrow> swapDispatch E m;
     if \<not> sw_continues r then go_return r
     else do {
       f \<leftarrow> getMigration E (mig_namespace (sw_obj r)) (mig_name (sw_obj r));
       case f of
         Inl err \<Rightarrow> go_return (sw_fail (sw_obj r) err)
       | Inr m' \<Rightarrow> handleIdentitySwap E n m'
     }
   }"

section \<open>Finalizing\<close>

text \<open>The end of the replay, on the first entry only; all errors are logged.\<close>

definition endReplay :: "'w env \<Rightarrow> StatefulMigration \<Rightarrow> ('w, unit) go" where
  "endReplay E m =
     (if subPhase m = '''' then do {
        _ \<leftarrow> sendControlMessage E (st_targetPod (mig_status m)) ControlEndReplay None;
        _ \<leftarrow> deleteSecondaryQueue E (replay_queue (queueName (mqCfg m))) (queueName (mqCfg m)) (exchangeName (mqCfg m));
        go_return ()
      } else go_return ())"

definition swapRequested :: "StatefulMigration \<Rightarrow> bool" where
  "swapRequested m \<longleftrightarrow> st_statefulSetName (mig_status m) \<noteq> '''' \<and>
     spec_identitySwapMode (mig_spec m) \<noteq> '''' \<and> spec_identitySwapMode (mig_spec m) \<noteq> ''None''"

text \<open>The source pod of a ShadowPod migration is swapped or deleted. \<open>Inl\<close> is an early return.\<close>

definition removeSource :: "'w env \<Rightarrow> nat \<Rightarrow> StatefulMigration \<Rightarrow> ('w, reply + StatefulMigration) go" where
  "removeSource E n m =
     (if strategy m = ''ShadowPod'' then
        if swapRequested m then do {
          r \<leftarrow> handleIdentitySwap E n m;
          go_return (case sw_err r of
              Some err \<Rightarrow> Inl (sw_res r, Some err)
            | None \<Rightarrow> if \<not> sw_done r then Inl (sw_res r, None) else Inr (sw_obj r))
        } else do {
          g \<leftarrow> getPod E (mig_namespace m) (sourcePod m);
          case g of
            Inr p \<Rightarrow> do { _ \<leftarrow> deletePod E p None; go_return (Inr m) }
          | Inl err \<Rightarrow> go_return (if \<not> is_not_found err then Inl (res_done, Some err) else Inr m)
        }
      else go_return (Inr m))"

definition pinnedDeployment :: "string \<Rightarrow> deployment \<Rightarrow> deployment" where
  "pinnedDeployment node d =
     (let a = (case dep_affinity d of
                 None \<Rightarrow> \<lparr>aff_nodeAffinity = None, aff_podAffinity = '''', aff_podAntiAffinity = ''''\<rparr>
               | Some a \<Rightarrow> a)
      in d\<lparr>dep_affinity := Some (a\<lparr>aff_nodeAffinity := Some [[(''kubernetes.io/hostname'', ''In'', [node])]]\<rparr>)\<rparr>)"

text \<open>The result of this block and the next is the error of an early return.\<close>

definition pinDeployment :: "'w env \<Rightarrow> StatefulMigration \<Rightarrow> ('w, go_error option) go" where
  "pinDeployment E m =
     (if st_deploymentName (mig_status m) \<noteq> '''' then do {
        r \<leftarrow> getDeployment E (mig_namespace m) (st_deploymentName (mig_status m));
        case r of
          Inr d \<Rightarrow> do { _ \<leftarrow> patchDeployment E d (pinnedDeployment (targetNode m) d); go_return None }
        | Inl err \<Rightarrow> go_return (ignore_not_found err)
      } else go_return None)"

definition releasedOwners :: "owner_ref list \<Rightarrow> owner_ref list" where
  "releasedOwners refs = filter (\<lambda>ref. ref_kind ref \<noteq> ''StatefulMigration'') refs"

definition releaseTarget :: "'w env \<Rightarrow> StatefulMigration \<Rightarrow> ('w, go_error option) go" where
  "releaseTarget E m =
     (if st_targetPod (mig_status m) \<noteq> '''' then do {
        r \<leftarrow> getPod E (mig_namespace m) (st_targetPod (mig_status m));
        case r of
          Inr p \<Rightarrow>
            if length (releasedOwners (pod_ownerReferences p)) \<noteq> length (pod_ownerReferences p) then do {
              _ \<leftarrow> patchPod E p (p\<lparr>pod_ownerReferences := releasedOwners (pod_ownerReferences p)\<rparr>);
              go_return None
            } else go_return None
        | Inl err \<Rightarrow> go_return (ignore_not_found err)
      } else go_return None)"

definition restoreSts :: "'w env \<Rightarrow> StatefulMigration \<Rightarrow> ('w, go_error option) go" where
  "restoreSts E m =
     (if strategy m = ''Sequential'' \<and> st_statefulSetName (mig_status m) \<noteq> '''' \<and>
         0 < st_originalReplicas (mig_status m) then do {
        e \<leftarrow> releaseTarget E m;
        case e of
          Some err \<Rightarrow> go_return (Some err)
        | None \<Rightarrow> do {
            u \<leftarrow> scaleUp E m (st_originalReplicas (mig_status m));
            go_return (Option.bind u ignore_not_found)
          }
      } else go_return None)"

definition completeMigration :: "'w env \<Rightarrow> StatefulMigration \<Rightarrow> StatefulMigration \<Rightarrow> ('w, reply) go" where
  "completeMigration E base m = do {
     _ \<leftarrow> brokerClose E;
     (duration, m1) \<leftarrow> finishStart E ''Finalizing.start'' m;
     let m2 = recordPhaseTiming ''Finalizing'' duration m1;
     r \<leftarrow> patchStatus E base (set_subPhase '''' (set_phase PhaseCompleted m2));
     go_return (res_done, (case r of Inl err \<Rightarrow> Some err | Inr _ \<Rightarrow> None))
   }"

definition handleFinalizing :: "'w env \<Rightarrow> nat \<Rightarrow> StatefulMigration \<Rightarrow> ('w, reply) go" where
  "handleFinalizing E n m0 = do {
     let base = m0;
     s \<leftarrow> recordStart E ''Finalizing.start'' (ensurePhaseTimings m0);
     case s of
       None \<Rightarrow> go_return (res_done, Some NilMapPanic)
     | Some m \<Rightarrow> do {
         _ \<leftarrow> endReplay E m;
         rs \<leftarrow> removeSource E n m;
         case rs of
           Inl r \<Rightarrow> go_return r
         | Inr m1 \<Rightarrow> do {
             d \<leftarrow> pinDeployment E m1;
             case d of
               Some err \<Rightarrow> go_return (res_done, Some err)
             | None \<Rightarrow> do {
                 a \<leftarrow> restoreSts E m1;
                 case a of
                   Some err \<Rightarrow> go_return (res_done, Some err)
                 | None \<Rightarrow> completeMigration E base m1
               }
           }
       }
   }"

section \<open>The sub-phase machine\<close>

text \<open>The edges of the sub-phase machine, as a function: the sub-phases a handler may set.\<close>

definition swap_targets :: "string \<Rightarrow> string list" where
  "swap_targets s =
     (if s = '''' \<or> s = ''PrepareSwap'' then [''ReCheckpoint'']
      else if s = ''ReCheckpoint'' then [''SwapTransfer'', ''CreateReplacement'']
      else if s = ''SwapTransfer'' then [''CreateReplacement'']
      else if s = ''CreateReplacement'' then [''PreFenceDrain'', ''MiniReplay'']
      else if s = ''MiniReplay'' then [''TrafficSwitch'']
      else if s = ''TrafficSwitch'' then ['''']
      else if s = ''PreFenceDrain'' then [''ExchangeFence'', ''MiniReplay'']
      else if s = ''ExchangeFence'' then [''ParallelDrain'']
      else if s = ''ParallelDrain'' then [''FenceCutover'', ''MiniReplay'']
      else if s = ''FenceCutover'' then ['''']
      else [])"

lemmas swap_legal_contracts = swap_prepare.legal swap_recheckpoint.legal swap_transfer.legal swap_create.legal
  swap_miniReplay.legal swap_trafficSwitch.legal swap_preFence.legal swap_fence.legal
  swap_parallelDrain.legal swap_cutover.legal

lemma emits_swapDispatch_legal: "emits (swap_legal (swap_targets (subPhase m))) (swapDispatch E m)"
  unfolding swapDispatch_def swap_targets_def Let_def
  by (auto intro!: emits_return swap_legal_contracts)

text \<open>
  Every stage but the re-checkpoint asks to go on only after a patch of one of its targets; the
  re-checkpoint does so unless the kubelet answers without an item.
\<close>

definition kubelet_gives_items :: "'w env \<Rightarrow> bool" where
  "kubelet_gives_items E \<longleftrightarrow> (\<forall>ck node ns p c w. kubelet_checkpoint E = Some ck \<longrightarrow> fst (ck node ns p c w) \<noteq> Inr [])"

lemma ends_handleSwapReCheckpoint:
  assumes sw: "single_writer E V" and k: "kubelet_gives_items E"
  shows "ends (holds V (phase m) (subPhase m)) (handleSwapReCheckpoint E m)
    (sw_advances V [''SwapTransfer'', ''CreateReplacement''])"
proof (cases "kubelet_checkpoint E")
  case None
  then show ?thesis unfolding handleSwapReCheckpoint_def by (simp, intro ends_swap_rules sw) simp_all
next
  case (Some ck)
  have items: "ends (holds V p s) (checkpointContainer ck a b c d) (\<lambda>r x. holds V p s x \<and> r \<noteq> Inr [])"
    for p s a b c d
  proof -
    have "leaves_view V (ck a b c d)" using sw Some by (simp add: single_writer_def)
    moreover have "fst (ck a b c d w) \<noteq> Inr []" for w using k Some by (simp add: kubelet_gives_items_def)
    ultimately show ?thesis
      by (simp add: ends_def checkpointContainer_def run_ext_call leaves_view_def holds_def)
  qed
  show ?thesis
    unfolding handleSwapReCheckpoint_def Some option.case Let_def
    by (rule ends_fact_bind [OF items], intro ends_intro ends_swap_rules sw) (simp_all add: timing_put_simps)
qed

lemmas swap_progress_contracts = swap_prepare.progress swap_transfer.progress swap_create.progress
  swap_miniReplay.progress swap_trafficSwitch.progress swap_preFence.progress swap_fence.progress
  swap_parallelDrain.progress swap_cutover.progress

lemma ends_swapDispatch:
  assumes sw: "single_writer E V" and "kubelet_gives_items E"
  shows "ends (holds V (phase m) (subPhase m)) (swapDispatch E m) (sw_advances V (swap_targets (subPhase m)))"
proof -
  define P where "P = holds V (phase m) (subPhase m)"
  show ?thesis
    using swap_progress_contracts [OF sw, of m] ends_handleSwapReCheckpoint [OF assms, of m]
    unfolding P_def [symmetric]
    by (simp add: swapDispatch_def swap_targets_def Let_def ends_sw)
qed

section \<open>Contracts of the loop and of the phase\<close>

definition all_subPhases :: "string list" where
  "all_subPhases = ['''', ''ReCheckpoint'', ''SwapTransfer'', ''CreateReplacement'', ''PreFenceDrain'', ''MiniReplay'',
     ''TrafficSwitch'', ''ExchangeFence'', ''ParallelDrain'', ''FenceCutover'']"

lemma swap_targets_known: "set (swap_targets s) \<subseteq> set all_subPhases"
  by (auto simp: swap_targets_def all_subPhases_def)

lemma emits_handleIdentitySwap_legal: "emits (swap_legal all_subPhases) (handleIdentitySwap E n m)"
proof (induction n arbitrary: m)
  case 0
  show ?case by (simp add: emits_return)
next
  case (Suc n)
  have "emits (swap_legal all_subPhases) (swapDispatch E m)"
    by (rule emits_mono [OF emits_swapDispatch_legal]) (erule swap_legal_mono, rule swap_targets_known)
  then show ?case by (simp, intro emits_intro Suc)
qed

text \<open>Whatever the server does, the loop is left with a result that does not ask to go on.\<close>

lemma ends_handleIdentitySwap: "ends P (handleIdentitySwap E n m) (\<lambda>r _. \<not> sw_continues r)"
proof (induction n arbitrary: m P)
  case 0
  show ?case by (simp add: ends_return)
next
  case (Suc n)
  show ?case
    by (simp, intro ends_seq [OF ends_any] ends_if ends_sum ends_return Suc) simp_all
qed

interpretation identity_swap: swap_handler "\<lambda>E. handleIdentitySwap E n" all_subPhases for n
  by unfold_locales (rule emits_handleIdentitySwap_legal)

lemma emits_handleIdentitySwap_phase: "emits (phase_legal ts) (handleIdentitySwap E n m)"
  by (rule emits_mono [OF identity_swap.legal]) (drule swap_legal_phase, erule phase_legal_mono, simp)

lemma emits_endReplay [emits_intro]:
  assumes "\<And>p ty pl ok. P (EvSend p ty pl ok)" and "\<And>a b c ok. P (EvDeleteSecondary a b c ok)"
  shows "emits P (endReplay E m)"
  unfolding endReplay_def by (intro emits_intro assms)

lemma emits_pinDeployment [emits_intro]:
  "(\<And>d ok. P (EvPatchDeployment d (pinnedDeployment (targetNode m) d) ok)) \<Longrightarrow> emits P (pinDeployment E m)"
  unfolding pinDeployment_def by (intro emits_intro)

lemma emits_releaseTarget [emits_intro]:
  "(\<And>p ok. P (EvPatchPod p (p\<lparr>pod_ownerReferences := releasedOwners (pod_ownerReferences p)\<rparr>) ok)) \<Longrightarrow>
     emits P (releaseTarget E m)"
  unfolding releaseTarget_def by (intro emits_intro)

lemma emits_restoreSts [emits_intro]:
  assumes "\<And>p ok. P (EvPatchPod p (p\<lparr>pod_ownerReferences := releasedOwners (pod_ownerReferences p)\<rparr>) ok)"
    and "\<And>s n ok. P (EvPatchSts s (s\<lparr>sts_replicas := Some n\<rparr>) ok)"
  shows "emits P (restoreSts E m)"
  unfolding restoreSts_def by (intro emits_intro assms)

lemma emits_handleFinalizing_legal: "emits (phase_legal [PhaseCompleted]) (handleFinalizing E n m)"
  unfolding handleFinalizing_def removeSource_def completeMigration_def Let_def
  by (intro emits_recordStart_legal emits_handleIdentitySwap_phase emits_intro) simp_all

lemma steady_endReplay [steady_intro]: "single_writer E V \<Longrightarrow> steady (holds V p s) (endReplay E m)"
  unfolding endReplay_def by (intro steady_intro)

lemma ends_removeSource: "ends P (removeSource E n m) (\<lambda>s _. \<forall>r. s = Inl r \<longrightarrow> \<not> reply_continues r)"
  unfolding removeSource_def
  by (intro ends_result_bind [OF ends_handleIdentitySwap] ends_intro ends_seq [OF ends_any] ends_return)
    (auto simp: sw_continues_def reply_continues_def split: option.splits if_splits)

lemma ends_handleFinalizing: "ends P (handleFinalizing E n m) (\<lambda>r _. \<not> reply_continues r)"
  unfolding handleFinalizing_def completeMigration_def Let_def
  by (intro ends_result_bind [OF ends_removeSource] ends_intro ends_seq [OF ends_any] ends_return) simp_all

interpretation finalizing: phase_handler "\<lambda>E. handleFinalizing E n" "[PhaseCompleted]" for n
  by unfold_locales (rule emits_handleFinalizing_legal,
    rule ends_mono [OF ends_handleFinalizing], simp add: advances_def)

section \<open>How the last phase ends\<close>

text \<open>Calls that set no phase, followed by nothing or by the close of the connection and the completing patch.\<close>

definition completing :: "StatefulMigration \<Rightarrow> reply \<Rightarrow> event list \<Rightarrow> bool" where
  "completing m r es \<longleftrightarrow> (\<exists>closed obj ok. es = [EvClose closed, EvPatchStatus m obj ok] \<and> phase obj = PhaseCompleted \<and>
     subPhase obj = '''' \<and> timing_get ''Finalizing.start'' obj = None \<and> (snd r = None) = ok)"

definition finalizing_trace :: "StatefulMigration \<Rightarrow> reply \<Rightarrow> event list \<Rightarrow> bool" where
  "finalizing_trace m r es \<longleftrightarrow> (\<exists>before. list_all (phase_legal []) before \<and>
     (es = before \<or> (\<exists>rest. es = before @ rest \<and> completing m r rest)))"

lemma finalizing_trace_before:
  "emits (phase_legal []) f \<Longrightarrow> (\<And>a. yields (g a) (finalizing_trace m)) \<Longrightarrow>
    yields (State_Monad.bind f g) (finalizing_trace m)"
proof (rule yields_bind, unfold emits_def, assumption)
  fix a es
  assume g: "\<And>a. yields (g a) (finalizing_trace m)" and es: "list_all (phase_legal []) es"
  show "yields (g a) (\<lambda>b es'. finalizing_trace m b (es @ es'))"
  proof (rule yields_mono [OF g])
    fix b es' assume "finalizing_trace m b es'"
    then obtain before where "list_all (phase_legal []) before"
      "es' = before \<or> (\<exists>rest. es' = before @ rest \<and> completing m b rest)"
      unfolding finalizing_trace_def by blast
    then show "finalizing_trace m b (es @ es')"
      using es unfolding finalizing_trace_def by (intro exI [of _ "es @ before"]) auto
  qed
qed

lemma timing_get_completed:
  "timing_get k (set_status (st_swapSubPhase_update f \<circ> st_phase_update g) m) = timing_get k m"
  by (simp add: timing_get_def)

lemma yields_completeMigration: "yields (completeMigration E m m1) (finalizing_trace m)"
proof -
  have "yields (completeMigration E m m1) (completing m)"
    unfolding completeMigration_def Let_def completing_def
    by (intro yields_intro) (simp_all add: timing_get_completed split: sum.splits)
  then show ?thesis
    by (rule yields_mono) (unfold finalizing_trace_def, rule exI [of _ "[]"], simp)
qed

text \<open>
  C27: The last phase, on every path: no call sets a phase, until, when everything before has gone well, the broker connection
  is closed and one last patch completes the migration and clears its sub-phase; the handler reports an error exactly when
  that patch fails. The base of this patch is the object as the handler was entered with, and the start stamp of the phase
  is in neither of the two: a stamp that the handler itself has written before stays at the server.
\<close>

theorem finalizing_completes_last:
  "yields (handleFinalizing E n m) (\<lambda>r es. \<exists>before. list_all (phase_legal []) before \<and>
     (es = before \<or> (\<exists>closed obj ok. es = before @ [EvClose closed, EvPatchStatus m obj ok] \<and> phase obj = PhaseCompleted \<and>
        subPhase obj = '''' \<and> timing_get ''Finalizing.start'' obj = None \<and> (snd r = None) = ok)))"
proof -
  have stop: "yields (go_return r) (finalizing_trace m)" for r
    by (rule yields_return) (unfold finalizing_trace_def, rule exI [of _ "[]"], simp)
  have "yields (handleFinalizing E n m) (finalizing_trace m)"
    unfolding handleFinalizing_def removeSource_def Let_def
    by (intro finalizing_trace_before yields_intro stop yields_completeMigration emits_recordStart_legal
        emits_handleIdentitySwap_phase emits_intro) simp_all
  then show ?thesis by (rule yields_mono) (auto simp: finalizing_trace_def completing_def)
qed

end
