(* ===== verification/Reconcile.thy ===== *)
theory Reconcile
  imports Pending Restoring Replaying Finalizing
begin

text \<open>
  \<open>Reconcile\<close>: fetch the object and run the handlers of its phases in a row, as long as they ask to be
  requeued at once. The loop runs on fuel, and each round gives the same fuel to the swap loop.
\<close>

definition initPhase :: "'w env \<Rightarrow> StatefulMigration \<Rightarrow> ('w, reply) go" where
  "initPhase E m = do {
     r \<leftarrow> patchStatus E m (set_phase PhasePending m);
     go_return (case r of Inl err \<Rightarrow> (res_done, Some err) | Inr _ \<Rightarrow> (res_requeue, None))
   }"

definition handlePhase :: "'w env \<Rightarrow> nat \<Rightarrow> StatefulMigration \<Rightarrow> ('w, reply) go" where
  "handlePhase E n m = (let p = phase m in
     if p = PhasePending then handlePending E m
     else if p = PhaseCheckpointing then handleCheckpointing E m
     else if p = PhaseTransferring then handleTransferring E m
     else if p = PhaseRestoring then handleRestoring E m
     else if p = PhaseReplaying then handleReplaying E m
     else if p = PhaseFinalizing then handleFinalizing E n m
     else go_return (res_done, None))"

primrec reconcileLoop :: "'w env \<Rightarrow> nat \<Rightarrow> nat \<Rightarrow> string \<Rightarrow> string \<Rightarrow> StatefulMigration \<Rightarrow> ('w, reply) go" where
  "reconcileLoop E 0 n ns name m = go_return (res_done, Some OutOfFuel)"
| "reconcileLoop E (Suc k) n ns name m =
     (if phase m = '''' then initPhase E m
      else do {
        r \<leftarrow> handlePhase E n m;
        if \<not> reply_continues r then go_return r
        else do {
          f \<leftarrow> getMigration E ns name;
          case f of
            Inl err \<Rightarrow> go_return (res_done, ignore_not_found err)
          | Inr m' \<Rightarrow> reconcileLoop E k n ns name m'
        }
      })"

definition Reconcile :: "'w env \<Rightarrow> nat \<Rightarrow> nat \<Rightarrow> string \<Rightarrow> string \<Rightarrow> ('w, reply) go" where
  "Reconcile E k n ns name = do {
     f \<leftarrow> getMigration E ns name;
     case f of
       Inl err \<Rightarrow> go_return (res_done, ignore_not_found err)
     | Inr m \<Rightarrow> reconcileLoop E k n ns name m
   }"

section \<open>The phase machine\<close>

text \<open>The edges of the phase machine: the phases the handler of a phase may set.\<close>

definition phase_targets :: "string \<Rightarrow> string list" where
  "phase_targets p =
     (if p = PhasePending then [PhaseCheckpointing, PhaseFailed]
      else if p = PhaseCheckpointing then [PhaseTransferring, PhaseFailed]
      else if p = PhaseTransferring then [PhaseRestoring, PhaseFailed]
      else if p = PhaseRestoring then [PhaseReplaying, PhaseFailed]
      else if p = PhaseReplaying then [PhaseFinalizing, PhaseFailed]
      else if p = PhaseFinalizing then [PhaseCompleted]
      else [])"

lemmas phase_legal_contracts = pending.legal checkpointing.legal transferring.legal restoring.legal
  replaying.legal finalizing.legal

lemmas phase_progress_contracts = pending.progress checkpointing.progress transferring.progress
  restoring.progress replaying.progress finalizing.progress

lemma emits_handlePhase_legal: "emits (phase_legal (phase_targets (phase m))) (handlePhase E n m)"
  unfolding handlePhase_def phase_targets_def Let_def
  by (auto intro!: emits_return phase_legal_contracts)

lemma ends_handlePhase:
  assumes sw: "single_writer E V"
  shows "ends (holds V (phase m) (subPhase m)) (handlePhase E n m) (advances V (phase_targets (phase m)))"
proof -
  define P where "P = holds V (phase m) (subPhase m)"
  show ?thesis
    using phase_progress_contracts [OF sw, of m]
    unfolding P_def [symmetric]
    by (simp add: handlePhase_def phase_targets_def Let_def ends_reply)
qed

lemma ends_initPhase:
  assumes sw: "single_writer E V"
  shows "ends (holds V (phase m) (subPhase m)) (initPhase E m) (advances V [PhasePending])"
  unfolding initPhase_def
  by (rule ends_seq [OF ends_patchStatus [OF sw]], simp, rule ends_return)
    (auto simp: advances_def holds_def split: sum.splits)

lemma emits_initPhase_legal: "emits (phase_legal [PhasePending]) (initPhase E m)"
  unfolding initPhase_def by (intro emits_intro) simp

end
