(* ===== verification/Termination.thy ===== *)
theory Termination
  imports Reconcile
begin

text \<open>
  The two unbounded loops of the controller without fuel: \<open>swap_loop\<close> and \<open>reconcile_loop\<close> are the
  big-step relations of the \<open>for\<close> loops of \<open>handleIdentitySwap\<close> and \<open>Reconcile\<close>. The loops end when
  the API server shows what this controller wrote (\<open>single_writer\<close>) and, for the swap, the kubelet never
  answers a checkpoint request without an item: each round then moves to a later sub-phase, or phase. The number
  of rounds is bounded, so the fuel of the executable functions is enough. Without the second condition the swap
  loop need not end.
\<close>

section \<open>The swap loop\<close>

inductive swap_loop ::
    "'w env \<Rightarrow> StatefulMigration \<Rightarrow> 'w world \<Rightarrow> swap_result \<Rightarrow> 'w world \<Rightarrow> bool" for E where
  stop: "run_state (swapDispatch E m) w = (r, w1) \<Longrightarrow> \<not> sw_continues r \<Longrightarrow> swap_loop E m w r w1"
| refetch_fails: "run_state (swapDispatch E m) w = (r, w1) \<Longrightarrow> sw_continues r \<Longrightarrow>
    run_state (getMigration E (mig_namespace (sw_obj r)) (mig_name (sw_obj r))) w1 = (Inl err, w2) \<Longrightarrow>
    swap_loop E m w (sw_fail (sw_obj r) err) w2"
| again: "run_state (swapDispatch E m) w = (r, w1) \<Longrightarrow> sw_continues r \<Longrightarrow>
    run_state (getMigration E (mig_namespace (sw_obj r)) (mig_name (sw_obj r))) w1 = (Inr m', w2) \<Longrightarrow>
    swap_loop E m' w2 r' w3 \<Longrightarrow> swap_loop E m w r' w3"

text \<open>A run of the loop is what the executable function computes, given as much fuel as it has rounds, or more.\<close>

lemma swap_loop_fuel:
  "swap_loop E m w r w' \<Longrightarrow> \<exists>n. \<forall>k. run_state (handleIdentitySwap E (n + k) m) w = (r, w')"
proof (induction rule: swap_loop.induct)
  case (stop m w r w1)
  then show ?case by (intro exI [of _ 1]) simp
next
  case (refetch_fails m w r w1 err w2)
  then show ?case by (intro exI [of _ 1]) simp
next
  case (again m w r w1 m' w2 r' w3)
  then obtain n where "\<forall>k. run_state (handleIdentitySwap E (n + k) m') w2 = (r', w3)" by blast
  with again show ?case by (intro exI [of _ "Suc n"]) simp
qed

lemma swap_loop_deterministic:
  assumes "swap_loop E m w r w'" "swap_loop E m w s v"
  shows "s = r \<and> v = w'"
proof -
  obtain i where i: "\<And>k. run_state (handleIdentitySwap E (i + k) m) w = (r, w')"
    using swap_loop_fuel [OF assms(1)] by blast
  obtain j where j: "\<And>k. run_state (handleIdentitySwap E (j + k) m) w = (s, v)"
    using swap_loop_fuel [OF assms(2)] by blast
  show ?thesis using i [of j] j [of i] by (simp add: add.commute)
qed

text \<open>The sub-phases a stage may go on to at once; the last stages of the two modes end the loop.\<close>

definition swap_continuations :: "string \<Rightarrow> string list" where
  "swap_continuations s = (if s = ''TrafficSwitch'' \<or> s = ''FenceCutover'' then [] else swap_targets s)"

lemma last_stages_stop:
  assumes sw: "single_writer E V"
  shows "ends (holds V (phase m) (subPhase m)) (handleSwapTrafficSwitch E m) (sw_advances V [])"
    "ends (holds V (phase m) (subPhase m)) (handleSwapFenceCutover E m) (sw_advances V [])"
proof -
  show "ends (holds V (phase m) (subPhase m)) (handleSwapTrafficSwitch E m) (sw_advances V [])"
    unfolding handleSwapTrafficSwitch_def
    by (intro ends_swapPatch_stop ends_sw ends_intro ends_bind steady_intro sw) simp_all
qed (rule ends_cutover [OF sw])

lemma ends_swapDispatch_continuation:
  assumes "single_writer E V" "kubelet_gives_items E"
  shows "ends (holds V (phase m) (subPhase m)) (swapDispatch E m) (sw_advances V (swap_continuations (subPhase m)))"
proof (cases "subPhase m = ''TrafficSwitch'' \<or> subPhase m = ''FenceCutover''")
  case True
  then show ?thesis
    using last_stages_stop [OF assms(1), of m] by (auto simp: swap_continuations_def swapDispatch_def)
next
  case False
  then show ?thesis using ends_swapDispatch [OF assms, of m] by (simp add: swap_continuations_def)
qed

lemma swap_round:
  assumes "single_writer E V" "kubelet_gives_items E" "V (ext w) = view_of m"
    and "run_state (swapDispatch E m) w = (r, w1)" "sw_continues r"
    and "run_state (getMigration E ns name) w1 = (Inr m', w2)"
  shows "subPhase m' \<in> set (swap_continuations (subPhase m))" "V (ext w2) = view_of m'"
proof -
  have "snd (V (ext w1)) \<in> set (swap_continuations (subPhase m))"
    using endsD [OF ends_swapDispatch_continuation [OF assms(1, 2)] _ assms(4)] assms(3, 5)
    by (simp add: holds_def view_of_def sw_advances_def)
  then show "subPhase m' \<in> set (swap_continuations (subPhase m))"
    using getMigration_shows [OF assms(1, 6)] by simp
  show "V (ext w2) = view_of m'" by (rule getMigration_shows [OF assms(1, 6)])
qed

text \<open>The rounds still to come, at most.\<close>

definition swap_rank :: "string \<Rightarrow> nat" where
  "swap_rank s =
     (if s = '''' \<or> s = ''PrepareSwap'' then 10 else if s = ''ReCheckpoint'' then 9
      else if s = ''SwapTransfer'' then 8 else if s = ''CreateReplacement'' then 7
      else if s = ''PreFenceDrain'' then 6 else if s = ''ExchangeFence'' then 5
      else if s = ''ParallelDrain'' then 4 else if s = ''MiniReplay'' then 3
      else 1)"

lemma swap_rank_decreases: "t \<in> set (swap_continuations s) \<Longrightarrow> swap_rank t < swap_rank s"
proof (cases "s \<in> set (''PrepareSwap'' # all_subPhases)")
  case True
  then have "\<forall>t \<in> set (swap_continuations s). swap_rank t < swap_rank s"
    unfolding all_subPhases_def list.set insert_iff
    by (elim disjE) (simp_all add: swap_continuations_def swap_targets_def swap_rank_def)
  then show "t \<in> set (swap_continuations s) \<Longrightarrow> swap_rank t < swap_rank s" by blast
next
  case False
  then show "t \<in> set (swap_continuations s) \<Longrightarrow> swap_rank t < swap_rank s"
    by (simp add: swap_continuations_def swap_targets_def all_subPhases_def)
qed

lemma swap_rank_bound: "1 \<le> swap_rank s" "swap_rank s \<le> 10"
  by (simp_all add: swap_rank_def)

lemma swap_loop_ends:
  assumes "single_writer E V" "kubelet_gives_items E"
  shows "swap_rank (subPhase m) \<le> n \<Longrightarrow> V (ext w) = view_of m \<Longrightarrow>
    \<exists>r w'. swap_loop E m w r w' \<and> (\<forall>k. run_state (handleIdentitySwap E (n + k) m) w = (r, w'))"
proof (induction n arbitrary: m w)
  case 0
  then show ?case using swap_rank_bound(1) [of "subPhase m"] by simp
next
  case (Suc n)
  obtain r w1 where d: "run_state (swapDispatch E m) w = (r, w1)" by fastforce
  show ?case
  proof (cases "sw_continues r")
    case False
    then show ?thesis using d swap_loop.stop [OF d False] by auto
  next
    case True
    obtain f w2 where f: "run_state (getMigration E (mig_namespace (sw_obj r)) (mig_name (sw_obj r))) w1 = (f, w2)"
      by fastforce
    show ?thesis
    proof (cases f)
      case (Inl err)
      then show ?thesis using d f True swap_loop.refetch_fails [of E m w r w1 err w2] by auto
    next
      case (Inr m')
      note next_round = swap_round [OF assms Suc.prems(2) d True, OF f [unfolded Inr]]
      then have "swap_rank (subPhase m') \<le> n" using swap_rank_decreases Suc.prems(1) by fastforce
      from Suc.IH [OF this next_round(2)] obtain s v where "swap_loop E m' w2 s v"
        "\<forall>k. run_state (handleIdentitySwap E (n + k) m') w2 = (s, v)" by blast
      then show ?thesis using d f True Inr swap_loop.again [of E m w r w1 m' w2 s v] by auto
    qed
  qed
qed

lemma swap_fuel_enough:
  assumes "single_writer E V" "kubelet_gives_items E" "V (ext w) = view_of m"
  shows "run_state (handleIdentitySwap E (10 + k) m) w = run_state (handleIdentitySwap E 10 m) w"
proof -
  obtain r w' where "\<forall>k. run_state (handleIdentitySwap E (10 + k) m) w = (r, w')"
    using swap_loop_ends [OF assms(1, 2) swap_rank_bound(2) assms(3)] by blast
  from this [rule_format, of k] this [rule_format, of 0]
  show ?thesis by simp
qed

section \<open>The reconcile loop\<close>

inductive reconcile_loop ::
    "'w env \<Rightarrow> nat \<Rightarrow> string \<Rightarrow> string \<Rightarrow> StatefulMigration \<Rightarrow> 'w world \<Rightarrow> reply \<Rightarrow> 'w world \<Rightarrow> bool"
  for E n ns name where
  init: "phase m = '''' \<Longrightarrow> run_state (initPhase E m) w = (r, w1) \<Longrightarrow> reconcile_loop E n ns name m w r w1"
| stop: "phase m \<noteq> '''' \<Longrightarrow> run_state (handlePhase E n m) w = (r, w1) \<Longrightarrow> \<not> reply_continues r \<Longrightarrow>
    reconcile_loop E n ns name m w r w1"
| refetch_fails: "phase m \<noteq> '''' \<Longrightarrow> run_state (handlePhase E n m) w = (r, w1) \<Longrightarrow> reply_continues r \<Longrightarrow>
    run_state (getMigration E ns name) w1 = (Inl err, w2) \<Longrightarrow>
    reconcile_loop E n ns name m w (res_done, ignore_not_found err) w2"
| again: "phase m \<noteq> '''' \<Longrightarrow> run_state (handlePhase E n m) w = (r, w1) \<Longrightarrow> reply_continues r \<Longrightarrow>
    run_state (getMigration E ns name) w1 = (Inr m', w2) \<Longrightarrow>
    reconcile_loop E n ns name m' w2 r' w3 \<Longrightarrow> reconcile_loop E n ns name m w r' w3"

definition phase_rank :: "string \<Rightarrow> nat" where
  "phase_rank p =
     (if p = PhasePending then 7 else if p = PhaseCheckpointing then 6 else if p = PhaseTransferring then 5
      else if p = PhaseRestoring then 4 else if p = PhaseReplaying then 3 else if p = PhaseFinalizing then 2 else 1)"

lemma phase_rank_decreases: "t \<in> set (phase_targets p) \<Longrightarrow> phase_rank t < phase_rank p"
  by (auto simp: phase_targets_def phase_rank_def split: if_splits)

lemma phase_rank_bound: "1 \<le> phase_rank p" "phase_rank p \<le> 7"
  by (simp_all add: phase_rank_def)

lemma reconcile_loop_ends:
  assumes "single_writer E V"
  shows "phase_rank (phase m) \<le> j \<Longrightarrow> V (ext w) = view_of m \<Longrightarrow>
    \<exists>r w'. reconcile_loop E n ns name m w r w' \<and> (\<forall>k. run_state (reconcileLoop E (j + k) n ns name m) w = (r, w'))"
proof (induction j arbitrary: m w)
  case 0
  then show ?case using phase_rank_bound(1) [of "phase m"] by simp
next
  case (Suc j)
  show ?case
  proof (cases "phase m = ''''")
    case True
    then show ?thesis using reconcile_loop.init [OF True] by (metis add_Suc reconcileLoop.simps(2) surj_pair)
  next
    case False
    obtain r w1 where d: "run_state (handlePhase E n m) w = (r, w1)" by fastforce
    show ?thesis
    proof (cases "reply_continues r")
      case stop: False
      then show ?thesis using d False reconcile_loop.stop [OF False d stop]
        by (intro exI [of _ r] exI [of _ w1]) simp
    next
      case True
      obtain f w2 where f: "run_state (getMigration E ns name) w1 = (f, w2)" by fastforce
      show ?thesis
      proof (cases f)
        case (Inl err)
        then show ?thesis using d f True False reconcile_loop.refetch_fails [OF False d True, of ns name err w2] by auto
      next
        case (Inr m')
        have "fst (V (ext w1)) \<in> set (phase_targets (phase m))"
          using endsD [OF ends_handlePhase [OF assms] _ d] True Suc.prems(2)
          by (simp add: holds_def view_of_def advances_def)
        then have "phase m' \<in> set (phase_targets (phase m))" and shown: "V (ext w2) = view_of m'"
          using getMigration_shows [OF assms, OF f [unfolded Inr]] by simp_all
        then have "phase_rank (phase m') \<le> j" using phase_rank_decreases Suc.prems(1) by fastforce
        from Suc.IH [OF this shown] obtain s v where "reconcile_loop E n ns name m' w2 s v"
          "\<forall>k. run_state (reconcileLoop E (j + k) n ns name m') w2 = (s, v)" by blast
        then show ?thesis using d f True False Inr reconcile_loop.again [OF False d True, of ns name m' w2 s v]
          by (intro exI [of _ s] exI [of _ v]) simp
      qed
    qed
  qed
qed

text \<open>The swap is entered with the object that agrees with the server, so its fuel is enough there, too.\<close>

lemma removeSource_fuel:
  assumes "single_writer E V" "kubelet_gives_items E" "V (ext w) = view_of m"
  shows "run_state (removeSource E (10 + i) m) w = run_state (removeSource E 10 m) w"
  using swap_fuel_enough [OF assms, of i] by (simp add: removeSource_def)

lemma finalizing_rest_fuel:
  fixes E :: "'w env"
  assumes sw: "single_writer E V" and k: "kubelet_gives_items E"
    and w: "holds V p s (ext w)" and m: "agrees p s m"
  shows "run_state (State_Monad.bind (endReplay E m) (\<lambda>_. State_Monad.bind (removeSource E (10 + i) m) g)) w =
    run_state (State_Monad.bind (endReplay E m) (\<lambda>_. State_Monad.bind (removeSource E 10 m) g)) w"
proof (rule run_bind_cong [OF steady_endReplay [OF sw, unfolded steady_def], OF w])
  fix a and w1 :: "'w world" assume "holds V p s (ext w1)"
  then have "V (ext w1) = view_of m" using m by (simp add: holds_def agrees_def view_of_def)
  from removeSource_fuel [OF sw k this]
  show "run_state (State_Monad.bind (removeSource E (10 + i) m) g) w1 =
      run_state (State_Monad.bind (removeSource E 10 m) g) w1" by simp
qed

lemma handleFinalizing_fuel:
  assumes sw: "single_writer E V" and k: "kubelet_gives_items E" and w: "V (ext w) = view_of m"
  shows "run_state (handleFinalizing E (10 + i) m) w = run_state (handleFinalizing E 10 m) w"
  unfolding handleFinalizing_def Let_def
proof (rule run_bind_cong [OF ends_recordStart_result [OF sw, where p = "phase m" and s = "subPhase m"]], goal_cases)
  case 1
  then show ?case by simp
next
  case 2
  then show ?case using w by (simp add: holds_def view_of_def)
next
  case (3 s w1)
  then show ?case
    by (cases s) (simp, simp only: option.case,
      rule finalizing_rest_fuel [OF sw k, of "phase m" "subPhase m"], simp_all)
qed

lemma handlePhase_fuel:
  assumes "single_writer E V" "kubelet_gives_items E" "V (ext w) = view_of m"
  shows "run_state (handlePhase E (10 + i) m) w = run_state (handlePhase E 10 m) w"
  using handleFinalizing_fuel [OF assms] by (simp add: handlePhase_def Let_def)

lemma reconcileLoop_fuel:
  assumes "single_writer E V" "kubelet_gives_items E"
  shows "V (ext w) = view_of m \<Longrightarrow>
    run_state (reconcileLoop E j (10 + i) ns name m) w = run_state (reconcileLoop E j 10 ns name m) w"
proof (induction j arbitrary: m w)
  case 0
  show ?case by simp
next
  case (Suc j)
  have next_round: "run_state (State_Monad.bind (getMigration E ns name) (\<lambda>f. case f of
        Inl err \<Rightarrow> go_return (res_done, ignore_not_found err)
      | Inr m' \<Rightarrow> reconcileLoop E j (10 + i) ns name m')) w1 =
    run_state (State_Monad.bind (getMigration E ns name) (\<lambda>f. case f of
        Inl err \<Rightarrow> go_return (res_done, ignore_not_found err)
      | Inr m' \<Rightarrow> reconcileLoop E j 10 ns name m')) w1" for w1
  proof -
    obtain f w2 where f: "run_state (getMigration E ns name) w1 = (f, w2)" by fastforce
    then show ?thesis
      using Suc.IH [OF getMigration_shows(2) [OF assms(1)]] by (cases f) simp_all
  qed
  obtain r w1 where "run_state (handlePhase E 10 m) w = (r, w1)" by fastforce
  then show ?case
    using handlePhase_fuel [OF assms Suc.prems, of i] next_round [of w1] by simp
qed

end
