(* ===== verification/Tracking.thy ===== *)
theory Tracking
  imports Reconcile
begin

text \<open>
  The abstract machine behind the handlers. Its state is the pair of phase and sub-phase that the API server
  holds; its steps are the edges of \<open>phase_targets\<close> and, within a phase, those of \<open>swap_targets\<close>.
  \<open>tracks V f\<close> says that what \<open>f\<close> does to the server's pair is exactly what the status patches on its
  trace say. With it the contracts on traces become a simulation: every handler, the swap loop and the whole of
  \<open>Reconcile\<close> move the server along paths of the abstract machine.
\<close>

section \<open>The trace tells the server's state\<close>

named_theorems tracks_intro \<comment> \<open>syntax-directed rules for \<open>tracks\<close>\<close>

definition merged_pair :: "event list \<Rightarrow> string \<times> string \<Rightarrow> string \<times> string" where
  "merged_pair es v = (merged_phase (fst v) es, merged_subPhase (snd v) es)"

definition tracks :: "('w \<Rightarrow> string \<times> string) \<Rightarrow> ('w, 'a) go \<Rightarrow> bool" where
  "tracks V f \<longleftrightarrow> (\<forall>w. \<exists>es. trace (snd (run_state f w)) = trace w @ es \<and>
     V (ext (snd (run_state f w))) = merged_pair es (V (ext w)))"

lemma merged_phase_append: "merged_phase p (xs @ ys) = merged_phase (merged_phase p xs) ys"
  by (induction p xs rule: merged_phase.induct) simp_all

lemma merged_subPhase_append: "merged_subPhase s (xs @ ys) = merged_subPhase (merged_subPhase s xs) ys"
  by (induction s xs rule: merged_subPhase.induct) simp_all

lemma merged_pair_append: "merged_pair (xs @ ys) v = merged_pair ys (merged_pair xs v)"
  by (simp add: merged_pair_def merged_phase_append merged_subPhase_append)

lemma tracks_return [tracks_intro]: "tracks V (go_return a)"
  by (simp add: tracks_def merged_pair_def)

lemma tracks_bind [tracks_intro]:
  fixes f :: "('w, 'a) go" and g :: "'a \<Rightarrow> ('w, 'b) go"
  assumes "tracks V f" "\<And>a. tracks V (g a)"
  shows "tracks V (State_Monad.bind f g)"
  unfolding tracks_def
proof
  fix w :: "'w world"
  obtain a w1 where r1: "run_state f w = (a, w1)" by fastforce
  obtain b w2 where r2: "run_state (g a) w1 = (b, w2)" by fastforce
  obtain xs where xs: "trace w1 = trace w @ xs" "V (ext w1) = merged_pair xs (V (ext w))"
    using assms(1) r1 unfolding tracks_def by (metis snd_conv)
  obtain ys where ys: "trace w2 = trace w1 @ ys" "V (ext w2) = merged_pair ys (V (ext w1))"
    using assms(2) r2 unfolding tracks_def by (metis snd_conv)
  show "\<exists>es. trace (snd (run_state (State_Monad.bind f g) w)) = trace w @ es \<and>
      V (ext (snd (run_state (State_Monad.bind f g) w))) = merged_pair es (V (ext w))"
    using r1 r2 xs ys by (intro exI [of _ "xs @ ys"]) (simp add: merged_pair_append)
qed

lemma tracks_cases [tracks_intro]:
  "(b \<Longrightarrow> tracks V f) \<Longrightarrow> (\<not> b \<Longrightarrow> tracks V f') \<Longrightarrow> tracks V (if b then f else f')"
  "(\<And>a. tracks V (h a)) \<Longrightarrow> (\<And>a. tracks V (h' a)) \<Longrightarrow> tracks V (case_sum h h' s)"
  "tracks V f \<Longrightarrow> (\<And>a. x = Some a \<Longrightarrow> tracks V (k a)) \<Longrightarrow> tracks V (case_option f k x)"
  "(\<And>a b. tracks V (l a b)) \<Longrightarrow> tracks V (case_prod l y)"
  "tracks V f \<Longrightarrow> (\<And>a as. tracks V (j a as)) \<Longrightarrow> tracks V (case_list f j z)"
  by (cases b; cases s; cases x; cases y; cases z; simp)+

text \<open>A call that is no status patch leaves the pair alone, on the trace and at the server.\<close>

fun no_patch :: "event \<Rightarrow> bool" where
  "no_patch (EvPatchStatus b m ok) \<longleftrightarrow> False"
| "no_patch _ \<longleftrightarrow> True"

lemma merged_no_patch: "no_patch e \<Longrightarrow> merged_pair [e] v = v"
  by (cases e) (simp_all add: merged_pair_def)

lemma tracks_ext_call:
  fixes f :: "'w \<Rightarrow> 'r \<times> 'w"
  assumes "leaves_view V f" "\<And>r. ev r = [] \<or> (\<exists>e. ev r = [e] \<and> no_patch e)"
  shows "tracks V (ext_call f ev)"
  unfolding tracks_def
proof
  fix w :: "'w world"
  have "merged_pair (ev (fst (f (ext w)))) v = v" for v
    using assms(2) [of "fst (f (ext w))"] by (auto simp: merged_no_patch) (simp add: merged_pair_def)
  then show "\<exists>es. trace (snd (run_state (ext_call f ev) w)) = trace w @ es \<and>
      V (ext (snd (run_state (ext_call f ev) w))) = merged_pair es (V (ext w))"
    using assms(1) by (intro exI [of _ "ev (fst (f (ext w)))"]) (simp add: run_ext_call leaves_view_def)
qed

lemma shows_leaves: "shows_view V f \<Longrightarrow> leaves_view V f"
  by (simp add: shows_view_def leaves_view_def)

lemma tracks_calls [tracks_intro]:
  assumes "single_writer E V"
  shows "tracks V (getMigration E ns n)" "tracks V (updateMigration E m)" "tracks V (getPod E ns n)"
    "tracks V (getJob E ns n)" "tracks V (getSts E ns n)" "tracks V (getRs E ns n)"
    "tracks V (getDeployment E ns n)" "tracks V (listPods E ns l)" "tracks V (patchPod E pb pp)"
    "tracks V (patchSts E sb ss)" "tracks V (patchDeployment E db dd)" "tracks V (createJob E jj)"
    "tracks V (createPod E pp)" "tracks V (deletePod E pp g)" "tracks V (now E)"
  using assms by (simp_all add: call_defs tracks_ext_call single_writer_def shows_leaves)

lemma tracks_broker_calls [tracks_intro]:
  assumes "single_writer E V"
  shows "tracks V (brokerConnect E u)" "tracks V (brokerClose E)" "tracks V (createSecondaryQueue E q x k)"
    "tracks V (unbindQueue E q x)" "tracks V (deleteSecondaryQueue E q q' x)" "tracks V (getQueueDepth E q)"
    "tracks V (getQueueStats E q)" "tracks V (sendControlMessage E c t l)" "tracks V (bindQueue E q x k)"
    "tracks V (declareAndBindQueue E q x)" "tracks V (deleteQueue E q)" "tracks V (httpPost E url body)"
  using assms by (simp_all add: call_defs tracks_ext_call single_writer_def)

lemma tracks_checkpoint [tracks_intro]:
  assumes "single_writer E V" "kubelet_checkpoint E = Some ck"
  shows "tracks V (checkpointContainer ck a b c d)"
  using assms by (simp add: call_defs tracks_ext_call single_writer_def)

lemma tracks_patchStatus [tracks_intro]:
  fixes E :: "'w env"
  assumes "single_writer E V"
  shows "tracks V (patchStatus E base obj)"
  unfolding tracks_def
proof
  fix w :: "'w world"
  obtain r x where r: "api_patchStatus E base obj (ext w) = (r, x)" by fastforce
  have "patches_view E V" using assms by (simp add: single_writer_def)
  note patches_viewD(1) [OF this r]
  then have "V x = merged_pair [EvPatchStatus base obj (ok_sum r)] (V (ext w))"
    by (cases "ok_sum r") (simp_all add: merged_pair_def merged_view_def)
  then show "\<exists>es. trace (snd (run_state (patchStatus E base obj) w)) = trace w @ es \<and>
      V (ext (snd (run_state (patchStatus E base obj) w))) = merged_pair es (V (ext w))"
    using r by (simp add: patchStatus_def run_ext_call)
qed

section \<open>Every handler\<close>

lemma tracks_helpers [tracks_intro]:
  assumes "single_writer E V"
  shows "tracks V (since E t)" "tracks V (stampTiming E k m)" "tracks V (elapsedSince E k m)"
    "tracks V (pollingBackoff E m k)" "tracks V (findAgentPodIP E n)" "tracks V (callAgent E ip path body)"
    "tracks V (patchStatusIgnore E base m)" "tracks V (transitionPhase E m base p)" "tracks V (failMigration E m x)"
  unfolding since_def stampTiming_def elapsedSince_def pollingBackoff_def findAgentPodIP_def callAgent_def
    patchStatusIgnore_def transitionPhase_def failMigration_def Let_def
  by (intro tracks_intro assms)+

lemma tracks_recordOwner: "single_writer E V \<Longrightarrow> tracks V (recordOwner E refs m)"
  by (induction refs arbitrary: m) (auto intro!: tracks_intro)

lemma tracks_handlePending: "single_writer E V \<Longrightarrow> tracks V (handlePending E m)"
  unfolding handlePending_def persistStrategy_def Let_def by (intro tracks_intro tracks_recordOwner)

lemma tracks_takeCheckpoint: "single_writer E V \<Longrightarrow> tracks V (takeCheckpoint E m)"
  unfolding takeCheckpoint_def by (cases "kubelet_checkpoint E") (auto intro!: tracks_intro)

lemma tracks_handleCheckpointing: "single_writer E V \<Longrightarrow> tracks V (handleCheckpointing E m)"
  unfolding handleCheckpointing_def Let_def by (intro tracks_takeCheckpoint tracks_intro)

lemma tracks_starts [tracks_intro]:
  assumes "single_writer E V"
  shows "tracks V (recordStart E k m)" "tracks V (finishStart E k m)"
  unfolding recordStart_def finishStart_def Let_def by (intro tracks_intro assms)+

lemma tracks_handleTransferring: "single_writer E V \<Longrightarrow> tracks V (handleTransferring E m)"
  unfolding handleTransferring_def handleTransferringViaJob_def createTransferJob_def callAgentRegistryPush_def Let_def
  by (intro tracks_intro)

lemma tracks_handleRestoring: "single_writer E V \<Longrightarrow> tracks V (handleRestoring E m)"
  unfolding handleRestoring_def targetPodExists_def waitForSourceRemoval_def createTargetPod_def gatherSource_def Let_def
  by (intro tracks_intro)

lemma tracks_handleReplaying: "single_writer E V \<Longrightarrow> tracks V (handleReplaying E m)"
  unfolding handleReplaying_def startReplay_def replayDrained_def replayDrainCheck_def replayCutoffCheck_def Let_def
  by (intro tracks_intro)

lemma tracks_swapPatch [tracks_intro]: "single_writer E V \<Longrightarrow> tracks V (swapPatch E base m k)"
  unfolding swapPatch_def by (intro tracks_intro)

lemma tracks_swap_blocks [tracks_intro]:
  assumes "single_writer E V"
  shows "tracks V (removeServiceLabels E m p)" "tracks V (scaleUp E m n)"
  unfolding removeServiceLabels_def scaleUp_def by (intro tracks_intro assms)+

lemma tracks_cutoff_stages:
  assumes "single_writer E V"
  shows "tracks V (handleSwapPrepare E m)" "tracks V (handleSwapTransfer E m)"
    "tracks V (handleSwapCreateReplacement E m)" "tracks V (handleSwapMiniReplay E m)"
    "tracks V (handleSwapTrafficSwitch E m)"
  unfolding handleSwapPrepare_def earlyScaleDown_def dropSourcePod_def handleSwapTransfer_def
    handleSwapTransferViaJob_def callAgentLocalLoad_def handleSwapCreateReplacement_def replacementRunning_def
    removeOriginalPod_def scaleDownOriginal_def createReplacementPod_def replacementLabels_def
    handleSwapMiniReplay_def startMiniReplay_def handleSwapTrafficSwitch_def deleteShadowPod_def
    scaleUpForAdoption_def Let_def
  by (intro tracks_intro assms)+

lemma tracks_handleSwapReCheckpoint: "single_writer E V \<Longrightarrow> tracks V (handleSwapReCheckpoint E m)"
  unfolding handleSwapReCheckpoint_def Let_def
  by (cases "kubelet_checkpoint E") (simp_all, (intro tracks_intro; assumption)+)

lemma tracks_rollback [tracks_intro]: "single_writer E V \<Longrightarrow> tracks V (handleSwapFenceRollback E m)"
  unfolding handleSwapFenceRollback_def Let_def by (intro tracks_intro)

lemma tracks_fence_stages:
  assumes "single_writer E V"
  shows "tracks V (handleSwapPreFenceDrain E m)" "tracks V (handleSwapExchangeFence E m)"
    "tracks V (handleSwapParallelDrain E m)" "tracks V (handleSwapFenceCutover E m)"
  unfolding handleSwapPreFenceDrain_def startPreFence_def decideFence_def leavePreFence_def
    handleSwapExchangeFence_def applyFence_def recordFence_def handleSwapParallelDrain_def trackDrain_def
    drainStalled_def handleSwapFenceCutover_def killShadowPod_def drainBuffer_def finishCutover_def Let_def
  by (intro tracks_intro assms)+

lemma tracks_swapDispatch: "single_writer E V \<Longrightarrow> tracks V (swapDispatch E m)"
  unfolding swapDispatch_def Let_def
  by (intro tracks_intro tracks_cutoff_stages tracks_handleSwapReCheckpoint tracks_fence_stages)

lemma tracks_handleIdentitySwap: "single_writer E V \<Longrightarrow> tracks V (handleIdentitySwap E n m)"
proof (induction n arbitrary: m)
  case (Suc n)
  then show ?case by (simp, intro tracks_intro tracks_swapDispatch)
qed (simp add: tracks_return)

lemma tracks_handleFinalizing: "single_writer E V \<Longrightarrow> tracks V (handleFinalizing E n m)"
  unfolding handleFinalizing_def endReplay_def removeSource_def pinDeployment_def restoreSts_def releaseTarget_def
    completeMigration_def Let_def
  by (intro tracks_intro tracks_handleIdentitySwap)

lemma tracks_handlePhase: "single_writer E V \<Longrightarrow> tracks V (handlePhase E n m)"
  unfolding handlePhase_def Let_def
  by (intro tracks_intro tracks_handlePending tracks_handleCheckpointing tracks_handleTransferring
      tracks_handleRestoring tracks_handleReplaying tracks_handleFinalizing)

section \<open>The abstract machine\<close>

inductive migration_step :: "string \<times> string \<Rightarrow> string \<times> string \<Rightarrow> bool" where
  start: "migration_step ('''', s) (PhasePending, s)"
| advance: "p \<noteq> PhaseFinalizing \<Longrightarrow> q \<in> set (phase_targets p) \<Longrightarrow> migration_step (p, s) (q, s)"
| swap: "t \<in> set (swap_targets s) \<Longrightarrow> migration_step (PhaseFinalizing, s) (PhaseFinalizing, t)"
| complete: "migration_step (PhaseFinalizing, s) (PhaseCompleted, '''')"

inductive_cases migration_stepE: "migration_step (p, s) (q, t)"

text \<open>Nothing leads out of the two terminal phases.\<close>

lemma terminal_stuck: "migration_step v v' \<Longrightarrow> fst v \<noteq> PhaseCompleted \<and> fst v \<noteq> PhaseFailed"
  by (induction rule: migration_step.induct) (auto simp: phase_targets_def split: if_splits)

lemma tracks_emits:
  assumes "tracks V f" "emits P f" "run_state f w = (a, w')"
  obtains es where "list_all P es" "V (ext w') = merged_pair es (V (ext w))"
proof -
  obtain es where es: "trace w' = trace w @ es" "V (ext w') = merged_pair es (V (ext w))"
    using assms(1,3) unfolding tracks_def by (metis snd_conv)
  moreover obtain es' where "trace w' = trace w @ es'" "list_all P es'"
    using emitsD [OF assms(2,3)] by blast
  ultimately show thesis by (intro that [of es]) simp_all
qed

text \<open>The phase handlers before the last one: one edge of the phase machine at most, and no sub-phase set.\<close>

fun keeps_subPhase :: "event \<Rightarrow> bool" where
  "keeps_subPhase (EvPatchStatus b m ok) \<longleftrightarrow> subPhase m = subPhase b"
| "keeps_subPhase _ \<longleftrightarrow> True"

lemma merged_keeps: "list_all keeps_subPhase es \<Longrightarrow> merged_subPhase s es = s"
  by (induction s es rule: merged_subPhase.induct) simp_all

lemma keeps_replayDrainCheck: "emits keeps_subPhase (replayDrainCheck E m d)"
  unfolding replayDrainCheck_def Let_def by (intro emits_intro) (simp_all add: timing_put_simps)

lemma emits_keeps_subPhase:
  "emits keeps_subPhase (handlePending E m)" "emits keeps_subPhase (handleCheckpointing E m)"
  "emits keeps_subPhase (handleTransferring E m)" "emits keeps_subPhase (handleRestoring E m)"
  "emits keeps_subPhase (handleReplaying E m)"
proof -
  show "emits keeps_subPhase (handlePending E m)"
  proof -
    have own: "emits keeps_subPhase (State_Monad.bind (recordOwner E refs (capturePod p c t b))
        (\<lambda>m3. transitionPhase E m3 b PhaseCheckpointing))" for refs p c t b
      unfolding emits_def
      by (rule yields_bind [OF yields_recordOwner])
        (auto simp: only_owner_changedD(2) emits_def [symmetric] intro!: emits_intro)
    show ?thesis
      unfolding handlePending_def by (intro own emits_intro) simp_all
  qed
  have start: "emits keeps_subPhase (recordStart E k m)" for k m
    by (intro emits_intro) (simp add: timing_put_simps)
  have ck: "emits keeps_subPhase (State_Monad.bind (takeCheckpoint E m) (\<lambda>k. case k of
      Inl err \<Rightarrow> failMigration E m (x err)
    | Inr m1 \<Rightarrow> State_Monad.bind (since E t) (\<lambda>d. transitionPhase E (recordPhaseTiming n d m1) m p)))" for x t n p
    unfolding emits_def
    by (rule yields_bind [OF yields_takeCheckpoint])
      (auto split: sum.split intro!: emits_intro simp: emits_def [symmetric])
  show "emits keeps_subPhase (handleCheckpointing E m)"
    unfolding handleCheckpointing_def Let_def by (intro ck emits_intro) simp_all
  show "emits keeps_subPhase (handleTransferring E m)"
    unfolding handleTransferring_def handleTransferringViaJob_def createTransferJob_def Let_def
    by (intro start emits_finishStart_bind emits_intro) auto
  show "emits keeps_subPhase (handleRestoring E m)"
    unfolding handleRestoring_def targetPodExists_def Let_def
    by (intro start emits_finishStart_bind emits_intro) auto
  show "emits keeps_subPhase (handleReplaying E m)"
    unfolding handleReplaying_def replayDrained_def replayCutoffCheck_def Let_def
    by (intro keeps_replayDrainCheck emits_finishStart_bind emits_intro) (auto simp: timing_put_simps)
qed

section \<open>The simulation\<close>

lemma early_phase_step:
  assumes "single_writer E V" "phase m \<noteq> PhaseFinalizing" "V (ext w) = view_of m"
    and run: "run_state (handlePhase E n m) w = (r, w')"
  shows "migration_step\<^sup>=\<^sup>= (V (ext w)) (V (ext w'))"
proof -
  have "emits keeps_subPhase (handlePhase E n m)"
    using assms(2) unfolding handlePhase_def Let_def
    by (auto intro!: emits_keeps_subPhase emits_return)
  then obtain xs where xs: "list_all keeps_subPhase xs" "V (ext w') = merged_pair xs (V (ext w))"
    using tracks_emits [OF tracks_handlePhase [OF assms(1)] _ run] by blast
  obtain es where es: "list_all (phase_legal (phase_targets (phase m))) es"
    "V (ext w') = merged_pair es (V (ext w))"
    using tracks_emits [OF tracks_handlePhase [OF assms(1)] emits_handlePhase_legal run] by blast
  have "snd (V (ext w')) = subPhase m"
    using xs assms(3) by (simp add: merged_pair_def merged_keeps view_of_def)
  moreover have "fst (V (ext w')) \<in> insert (phase m) (set (phase_targets (phase m)))"
    using merged_phase_legal [OF es(1), of "phase m" "insert (phase m) (set (phase_targets (phase m)))"]
      es(2) assms(3) by (auto simp: merged_pair_def view_of_def)
  ultimately have "V (ext w') = (fst (V (ext w')), subPhase m)" and
    "fst (V (ext w')) = phase m \<or> fst (V (ext w')) \<in> set (phase_targets (phase m))"
    by (auto intro: prod_eqI)
  then show ?thesis
    using assms(2, 3) migration_step.advance [of "phase m"] unfolding view_of_def by (metis (lifting) sup2I1 sup2I2)
qed

text \<open>A stage of the swap: the phase stays, the sub-phase moves along one edge at most.\<close>

lemma swapDispatch_step:
  assumes "single_writer E V" "agrees p s m" "holds V p s (ext w)"
    and run: "run_state (swapDispatch E m) w = (r, w')"
  shows "fst (V (ext w')) = p" "snd (V (ext w')) \<in> insert s (set (swap_targets s))"
proof -
  obtain es where es: "list_all (swap_legal (swap_targets s)) es" "V (ext w') = merged_pair es (V (ext w))"
    using tracks_emits [OF tracks_swapDispatch [OF assms(1)] emits_swapDispatch_legal run] assms(2)
    by (auto simp: agrees_def)
  have "list_all (phase_legal []) es"
    using es(1) by (auto simp: list_all_iff intro: swap_legal_phase)
  then have "merged_phase p es \<in> {p}" by (rule merged_phase_legal) simp_all
  then show "fst (V (ext w')) = p" using es(2) assms(3) by (simp add: merged_pair_def holds_def)
  have "merged_subPhase s es \<in> insert s (set (swap_targets s))"
    by (rule merged_subPhase_legal [OF es(1)]) auto
  then show "snd (V (ext w')) \<in> insert s (set (swap_targets s))"
    using es(2) assms(3) by (simp add: merged_pair_def holds_def)
qed

lemma ends_swapPatch_not_done:
  "(\<And>m'. \<not> sw_done (k m')) \<Longrightarrow> ends P (swapPatch E base m k) (\<lambda>r _. \<not> sw_done r)"
  unfolding swapPatch_def by (intro ends_seq [OF ends_any] ends_return) (simp split: sum.split)

lemmas never_done_rules = ends_swapPatch_not_done ends_intro ends_seq [OF ends_any] ends_return

text \<open>The swap reports that it is done only with the sub-phase cleared, or when it does not know it.\<close>

lemma never_done:
  "ends P (handleSwapPrepare E m) (\<lambda>r _. \<not> sw_done r)" "ends P (handleSwapTransfer E m) (\<lambda>r _. \<not> sw_done r)"
  "ends P (handleSwapReCheckpoint E m) (\<lambda>r _. \<not> sw_done r)"
  "ends P (handleSwapCreateReplacement E m) (\<lambda>r _. \<not> sw_done r)"
  "ends P (handleSwapMiniReplay E m) (\<lambda>r _. \<not> sw_done r)"
proof -
  show "ends P (handleSwapPrepare E m) (\<lambda>r _. \<not> sw_done r)"
    unfolding handleSwapPrepare_def Let_def by (intro never_done_rules) simp_all
  show "ends P (handleSwapTransfer E m) (\<lambda>r _. \<not> sw_done r)"
    unfolding handleSwapTransfer_def handleSwapTransferViaJob_def Let_def
    by (intro never_done_rules) (simp_all split: option.split)
  show "ends P (handleSwapReCheckpoint E m) (\<lambda>r _. \<not> sw_done r)"
    unfolding handleSwapReCheckpoint_def Let_def by (intro never_done_rules) simp_all
  have down: "ends P (scaleDownOriginal E m) (\<lambda>s _. \<forall>r. s = Inl r \<longrightarrow> \<not> sw_done r)" for P
    unfolding scaleDownOriginal_def by (intro never_done_rules) (auto split: option.splits if_splits)
  show "ends P (handleSwapCreateReplacement E m) (\<lambda>r _. \<not> sw_done r)"
    unfolding handleSwapCreateReplacement_def replacementRunning_def removeOriginalPod_def createReplacementPod_def Let_def
    by (intro ends_result_bind [OF down] never_done_rules) simp_all
  have mini: "ends P (startMiniReplay E m' q) (\<lambda>s _. \<forall>r. s = Inl r \<longrightarrow> \<not> sw_done r)" for P m' q
    unfolding startMiniReplay_def Let_def by (intro never_done_rules) auto
  show "ends P (handleSwapMiniReplay E m) (\<lambda>r _. \<not> sw_done r)"
    unfolding handleSwapMiniReplay_def Let_def
    by (intro ends_result_bind [OF mini] never_done_rules) simp_all
qed

lemma never_done_fence:
  "ends P (handleSwapPreFenceDrain E m) (\<lambda>r _. \<not> sw_done r)"
  "ends P (handleSwapExchangeFence E m) (\<lambda>r _. \<not> sw_done r)"
  "ends P (handleSwapParallelDrain E m) (\<lambda>r _. \<not> sw_done r)"
proof -
  have pre: "ends P (startPreFence E m' q) (\<lambda>s _. \<forall>r. s = Inl r \<longrightarrow> \<not> sw_done r)" for P m' q
    unfolding startPreFence_def Let_def by (intro never_done_rules) auto
  show "ends P (handleSwapPreFenceDrain E m) (\<lambda>r _. \<not> sw_done r)"
    unfolding handleSwapPreFenceDrain_def leavePreFence_def Let_def
    by (intro ends_result_bind [OF pre] never_done_rules) simp_all
  show "ends P (handleSwapExchangeFence E m) (\<lambda>r _. \<not> sw_done r)"
    unfolding handleSwapExchangeFence_def recordFence_def Let_def by (intro never_done_rules) simp_all
  have rollback: "ends P (handleSwapFenceRollback E m') (\<lambda>r _. \<not> sw_done r)" for P m'
    unfolding handleSwapFenceRollback_def Let_def by (intro never_done_rules) simp_all
  have track: "ends P (trackDrain E m' d) (\<lambda>t _. \<forall>r. t = Inl (Inl r) \<longrightarrow> \<not> sw_done r)" for P m' d
    unfolding trackDrain_def Let_def by (intro never_done_rules) auto
  show "ends P (handleSwapParallelDrain E m) (\<lambda>r _. \<not> sw_done r)"
    unfolding handleSwapParallelDrain_def Let_def
    by (intro rollback ends_result_bind [OF track] never_done_rules) simp_all
qed

lemma ends_swapPatch_done:
  assumes "single_writer E V" "agrees p s base"
  shows "ends (holds V p s) (swapPatch E base m sw_finished) (\<lambda>r x. sw_done r \<longrightarrow> snd (V x) = subPhase m)"
  unfolding swapPatch_def
  by (rule ends_seq [OF ends_patchStatus [OF assms]], rule ends_return) (auto simp: holds_def split: sum.splits)

lemma done_clears:
  assumes sw: "single_writer E V"
  shows "ends (holds V (phase m) (subPhase m)) (handleSwapTrafficSwitch E m) (\<lambda>r x. sw_done r \<longrightarrow> snd (V x) = '''')"
    "ends (holds V (phase m) (subPhase m)) (handleSwapFenceCutover E m) (\<lambda>r x. sw_done r \<longrightarrow> snd (V x) = '''')"
proof -
  have patch: "ends (holds V p s) (swapPatch E base m' sw_finished) (\<lambda>r x. sw_done r \<longrightarrow> snd (V x) = '''')"
    if "agrees p s base" "subPhase m' = ''''" for p s base m'
    using ends_swapPatch_done [OF sw that(1)] that(2) by metis
  show "ends (holds V (phase m) (subPhase m)) (handleSwapTrafficSwitch E m) (\<lambda>r x. sw_done r \<longrightarrow> snd (V x) = '''')"
    unfolding handleSwapTrafficSwitch_def
    by (intro patch ends_intro ends_bind ends_return steady_intro sw) simp_all
  have finish: "ends (holds V p s) (finishCutover E cfg m') (\<lambda>r x. sw_done r \<longrightarrow> snd (V x) = '''')"
    if "agrees p s m'" for p s cfg m'
    unfolding finishCutover_def Let_def
    by (intro patch ends_intro ends_bind steady_intro sw) (use that in simp_all)
  have drain: "ends (holds V p s) (drainBuffer E m' q) (\<lambda>d x. case d of
      Inl r \<Rightarrow> \<not> sw_done r | Inr m1 \<Rightarrow> holds V p s x \<and> agrees p s m1)" if "agrees p s m'" for p s m' q
  proof -
    have "ends P (drainBuffer E m' q) (\<lambda>d _. \<forall>r. d = Inl r \<longrightarrow> \<not> sw_done r)" for P
      unfolding drainBuffer_def Let_def
      by (intro ends_intro ends_seq [OF ends_any] ends_return) auto
    from this [of "holds V p s"] ends_drainBuffer [OF sw that, of q]
    show ?thesis by (auto simp: ends_def split: sum.splits)
  qed
  have after: "ends (\<lambda>x. case d of Inl r \<Rightarrow> \<not> sw_done r | Inr m1 \<Rightarrow> holds V p s x \<and> agrees p s m1)
      (case d of Inl r \<Rightarrow> go_return r | Inr m1 \<Rightarrow> finishCutover E cfg m1) (\<lambda>r x. sw_done r \<longrightarrow> snd (V x) = '''')"
    for d p s cfg
    by (cases d) (auto intro!: ends_return ends_conj_pre finish)
  show "ends (holds V (phase m) (subPhase m)) (handleSwapFenceCutover E m) (\<lambda>r x. sw_done r \<longrightarrow> snd (V x) = '''')"
    unfolding handleSwapFenceCutover_def Let_def
    by (intro ends_seq [OF drain after] finish ends_intro ends_bind ends_return steady_intro sw) simp_all
qed

text \<open>The end of the whole swap: a path of sub-phases within the phase, with the sub-phase cleared when it is done.\<close>

definition unknown_subPhase :: "string \<Rightarrow> bool" where
  "unknown_subPhase s \<longleftrightarrow> swap_targets s = []"

definition swap_edge :: "string \<Rightarrow> string \<Rightarrow> bool" where
  "swap_edge s t \<longleftrightarrow> t \<in> set (swap_targets s)"

lemma swap_targets_not_unknown: "t \<in> set (swap_targets s) \<Longrightarrow> \<not> unknown_subPhase t"
proof -
  assume "t \<in> set (swap_targets s)"
  then have "t \<in> set all_subPhases" using swap_targets_known by blast
  moreover have "\<forall>t \<in> set all_subPhases. \<not> unknown_subPhase t"
    by (simp add: all_subPhases_def unknown_subPhase_def swap_targets_def)
  ultimately show ?thesis by blast
qed

lemma swapDispatch_done:
  assumes "single_writer E V" "agrees p s m"
  shows "ends (holds V p s) (swapDispatch E m)
    (\<lambda>r x. sw_done r \<longrightarrow> snd (V x) = '''' \<or> snd (V x) = s \<and> unknown_subPhase s)"
proof -
  have m: "p = phase m" "s = subPhase m" using assms(2) by (simp_all add: agrees_def)
  have not: "ends P f (\<lambda>r x. sw_done r \<longrightarrow> R x)" if "ends P f (\<lambda>r _. \<not> sw_done r)" for P f R
    using that by (rule ends_mono) simp
  have clear: "ends P f (\<lambda>r x. sw_done r \<longrightarrow> snd (V x) = '''' \<or> R x)"
    if "ends P f (\<lambda>r x. sw_done r \<longrightarrow> snd (V x) = '''')" for P f R
    using that by (rule ends_mono) simp
  show ?thesis
    unfolding swapDispatch_def Let_def m
    by (intro ends_if clear [OF done_clears(1) [OF assms(1)]] clear [OF done_clears(2) [OF assms(1)]]
        not [OF never_done(1)] not [OF never_done(2)] not [OF never_done(3)] not [OF never_done(4)]
        not [OF never_done(5)] not [OF never_done_fence(1)] not [OF never_done_fence(2)]
        not [OF never_done_fence(3)] ends_return)
      (simp_all add: holds_def unknown_subPhase_def swap_targets_def)
qed

definition swap_ends :: "('w \<Rightarrow> string \<times> string) \<Rightarrow> string \<Rightarrow> string \<Rightarrow> swap_result \<Rightarrow> 'w \<Rightarrow> bool" where
  "swap_ends V p s r x \<longleftrightarrow> fst (V x) = p \<and> swap_edge\<^sup>*\<^sup>* s (snd (V x)) \<and>
     (sw_done r \<longrightarrow> snd (V x) = '''' \<or> snd (V x) = s \<and> unknown_subPhase s)"

lemma ends_swap:
  assumes sw: "single_writer E V"
  shows "agrees p s m \<Longrightarrow> ends (holds V p s) (handleIdentitySwap E n m) (swap_ends V p s)"
proof (induction n arbitrary: m s)
  case 0
  show ?case by (simp, rule ends_return) (simp add: holds_def swap_ends_def)
next
  case (Suc n)
  have first: "ends (holds V p s) (swapDispatch E m) (\<lambda>r x. \<exists>t. holds V p t x \<and> swap_edge\<^sup>=\<^sup>= s t \<and>
      (sw_done r \<longrightarrow> t = '''' \<or> t = s \<and> unknown_subPhase s))"
  proof (rule endsI)
    fix w r w' assume w: "holds V p s (ext w)" and r: "run_state (swapDispatch E m) w = (r, w')"
    from swapDispatch_step [OF sw Suc.prems w r] endsD [OF swapDispatch_done [OF sw Suc.prems] w r]
    show "\<exists>t. holds V p t (ext w') \<and> swap_edge\<^sup>=\<^sup>= s t \<and> (sw_done r \<longrightarrow> t = '''' \<or> t = s \<and> unknown_subPhase s)"
      by (intro exI [of _ "snd (V (ext w'))"]) (auto simp: holds_def swap_edge_def intro: prod_eqI)
  qed
  have next_round: "ends (holds V p t) (State_Monad.bind (getMigration E ns name) (\<lambda>f. case f of
        Inl err \<Rightarrow> go_return (sw_fail o' err) | Inr m' \<Rightarrow> handleIdentitySwap E n m')) (swap_ends V p s)"
    if t: "swap_edge\<^sup>=\<^sup>= s t" for t ns name o'
  proof (rule ends_fact_bind [OF ends_getMigration [OF sw]])
    fix f :: "go_error + StatefulMigration" assume f: "\<forall>m'. f = Inr m' \<longrightarrow> agrees p t m'"
    have "ends (holds V p t) (handleIdentitySwap E n m') (swap_ends V p s)" if "agrees p t m'" for m'
      using Suc.IH [OF that] t swap_targets_not_unknown
      by (elim ends_mono) (auto simp: swap_ends_def swap_edge_def intro: converse_rtranclp_into_rtranclp)
    then show "ends (holds V p t) (case f of Inl err \<Rightarrow> go_return (sw_fail o' err)
        | Inr m' \<Rightarrow> handleIdentitySwap E n m') (swap_ends V p s)"
      using f t by (cases f) (auto intro!: ends_return simp: swap_ends_def holds_def)
  qed
  have stop: "ends (\<lambda>x. \<exists>t. holds V p t x \<and> swap_edge\<^sup>=\<^sup>= s t \<and> (sw_done r \<longrightarrow> t = '''' \<or> t = s \<and> unknown_subPhase s))
      (go_return r) (swap_ends V p s)" for r
    by (rule ends_return) (auto simp: swap_ends_def holds_def)
  have go_on: "ends (\<lambda>x. \<exists>t. holds V p t x \<and> swap_edge\<^sup>=\<^sup>= s t \<and> R t) f (swap_ends V p s)"
    if "\<And>t. swap_edge\<^sup>=\<^sup>= s t \<Longrightarrow> ends (holds V p t) f (swap_ends V p s)" for R f
    using that unfolding ends_def by blast
  show ?case
    by (simp, rule ends_seq [OF first], rule ends_if, rule stop, rule go_on, rule next_round)
qed

text \<open>The last phase as a whole.\<close>

definition finalizing_source_ends ::
    "('w \<Rightarrow> string \<times> string) \<Rightarrow> string \<Rightarrow> string \<Rightarrow> reply + StatefulMigration \<Rightarrow> 'w \<Rightarrow> bool" where
  "finalizing_source_ends V p s r x \<longleftrightarrow> (\<exists>t. holds V p t x \<and> swap_edge\<^sup>*\<^sup>* s t \<and>
     (\<forall>m1. r = Inr m1 \<longrightarrow> t = '''' \<or> t = s))"

lemma ends_removeSource_swap:
  assumes sw: "single_writer E V" and m: "agrees p s m"
  shows "ends (holds V p s) (removeSource E n m) (finalizing_source_ends V p s)"
proof -
  have leave: "ends (holds V p s) (go_return r) (finalizing_source_ends V p s)" for r
    by (rule ends_return) (auto simp: finalizing_source_ends_def)
  have after: "ends (swap_ends V p s r) (go_return (case sw_err r of
          Some err \<Rightarrow> Inl (sw_res r, Some err)
        | None \<Rightarrow> if \<not> sw_done r then Inl (sw_res r, None) else Inr (sw_obj r))) (finalizing_source_ends V p s)" for r
  proof (rule ends_return)
    fix x assume "swap_ends V p s r x"
    then show "finalizing_source_ends V p s (case sw_err r of
          Some err \<Rightarrow> Inl (sw_res r, Some err)
        | None \<Rightarrow> if \<not> sw_done r then Inl (sw_res r, None) else Inr (sw_obj r)) x"
      by (auto simp: swap_ends_def finalizing_source_ends_def holds_def split: option.split intro!: exI [of _ "snd (V x)"] prod_eqI)
  qed
  show ?thesis
    unfolding removeSource_def
    by (intro ends_if ends_sum ends_seq [OF ends_swap [OF sw m] after] ends_bind leave steady_intro sw)
qed

lemma ends_patch_merged:
  assumes "single_writer E V"
  shows "ends (holds V p s) (patchStatus E base obj) (\<lambda>r x. V x = (p, s) \<or> V x = merged_view base obj (p, s))"
proof (rule endsI)
  fix w r w' assume w: "holds V p s (ext w)" and r: "run_state (patchStatus E base obj) w = (r, w')"
  obtain r' x where r': "api_patchStatus E base obj (ext w) = (r', x)" by fastforce
  have "patches_view E V" using assms by (simp add: single_writer_def)
  from patches_viewD(1) [OF this r'] show "V (ext w') = (p, s) \<or> V (ext w') = merged_view base obj (p, s)"
    using w r r' by (auto simp: patchStatus_def run_ext_call holds_def)
qed

lemma steady_finalizing [steady_intro]:
  assumes "single_writer E V"
  shows "steady (holds V p s) (pinDeployment E m)" "steady (holds V p s) (restoreSts E m)"
  unfolding pinDeployment_def restoreSts_def releaseTarget_def by (intro steady_intro assms)+

lemma ends_completeMigration:
  assumes sw: "single_writer E V" and "agrees PhaseFinalizing s base" "t = '''' \<or> t = s"
  shows "ends (holds V PhaseFinalizing t) (completeMigration E base m)
    (\<lambda>_ x. V x = (PhaseFinalizing, t) \<or> V x = (PhaseCompleted, ''''))"
proof -
  have patch: "ends (holds V PhaseFinalizing t) (patchStatus E base (set_subPhase '''' (set_phase PhaseCompleted m')))
      (\<lambda>_ x. V x = (PhaseFinalizing, t) \<or> V x = (PhaseCompleted, ''''))" for m'
    by (rule ends_mono [OF ends_patch_merged [OF sw]])
      (use assms(2,3) in \<open>auto simp: merged_view_def agrees_def split: if_splits\<close>)
  show ?thesis
    unfolding completeMigration_def Let_def
    by (intro ends_bind ends_prod ends_seq [OF patch] ends_return steady_intro sw)
qed

lemma ends_handleFinalizing_steps:
  assumes sw: "single_writer E V" and m: "agrees PhaseFinalizing s m"
  shows "ends (holds V PhaseFinalizing s) (handleFinalizing E n m) (\<lambda>_ x. migration_step\<^sup>*\<^sup>* (PhaseFinalizing, s) (V x))"
proof -
  let ?Q = "\<lambda>_ x. migration_step\<^sup>*\<^sup>* (PhaseFinalizing, s) (V x)"
  have path: "migration_step\<^sup>*\<^sup>* (PhaseFinalizing, s) (PhaseFinalizing, t)" if "swap_edge\<^sup>*\<^sup>* s t" for t
    using that by (induction rule: rtranclp_induct)
      (auto intro: rtranclp.rtrancl_into_rtrancl migration_step.swap simp: swap_edge_def)
  have stop: "ends (holds V PhaseFinalizing t) (go_return r) ?Q" if "swap_edge\<^sup>*\<^sup>* s t" for t r
    using path [OF that] by (auto intro!: ends_return simp: holds_def)
  have complete: "ends (holds V PhaseFinalizing t) (completeMigration E m m1) ?Q"
    if "swap_edge\<^sup>*\<^sup>* s t" "t = '''' \<or> t = s" for t m1
    using path [OF that(1)] migration_step.complete
    by (intro ends_mono [OF ends_completeMigration [OF sw m that(2)]])
      (auto intro: rtranclp.rtrancl_into_rtrancl)
  have after: "ends (finalizing_source_ends V PhaseFinalizing s rs) (case rs of
       Inl r \<Rightarrow> go_return r
     | Inr m1 \<Rightarrow> do {
         d \<leftarrow> pinDeployment E m1;
         case d of
           Some err \<Rightarrow> go_return (res_done, Some err)
         | None \<Rightarrow> do {
             a \<leftarrow> restoreSts E m1;
             case a of
               Some err \<Rightarrow> go_return (res_done, Some err)
             | None \<Rightarrow> completeMigration E m m1
           } }) ?Q" for rs
  proof -
    have "ends (holds V PhaseFinalizing t) (case rs of Inl r \<Rightarrow> go_return r
       | Inr m1 \<Rightarrow> do {
         d \<leftarrow> pinDeployment E m1;
         case d of Some err \<Rightarrow> go_return (res_done, Some err)
         | None \<Rightarrow> do {
             a \<leftarrow> restoreSts E m1;
             case a of Some err \<Rightarrow> go_return (res_done, Some err)
             | None \<Rightarrow> completeMigration E m m1 } }) ?Q"
      if "swap_edge\<^sup>*\<^sup>* s t" "\<forall>m1. rs = Inr m1 \<longrightarrow> t = '''' \<or> t = s" for t
      using that by (cases rs) (auto intro!: stop complete ends_option ends_bind steady_intro sw)
    then show ?thesis unfolding ends_def finalizing_source_ends_def by blast
  qed
  have "agrees PhaseFinalizing s m' \<Longrightarrow> ends (holds V PhaseFinalizing s) (removeSource E n m')
      (finalizing_source_ends V PhaseFinalizing s)" for m'
    by (rule ends_removeSource_swap [OF sw])
  then show ?thesis
    unfolding handleFinalizing_def Let_def
    by (intro ends_recordStart [OF sw] ends_option ends_seq [OF _ after] ends_bind stop steady_intro sw)
      (use m in simp_all)
qed

section \<open>Reconcile\<close>

lemma ends_handlePhase_steps:
  assumes sw: "single_writer E V"
  shows "ends (\<lambda>x. V x = view_of m) (handlePhase E n m) (\<lambda>_ x. migration_step\<^sup>*\<^sup>* (view_of m) (V x))"
proof (cases "phase m = PhaseFinalizing")
  case True
  then have "ends (holds V PhaseFinalizing (subPhase m)) (handleFinalizing E n m)
      (\<lambda>_ x. migration_step\<^sup>*\<^sup>* (PhaseFinalizing, subPhase m) (V x))"
    by (intro ends_handleFinalizing_steps [OF sw]) (simp add: agrees_def)
  then show ?thesis using True by (simp add: handlePhase_def ends_def holds_def view_of_def)
next
  case False
  show ?thesis
  proof (rule endsI)
    fix w r w' assume "V (ext w) = view_of m" "run_state (handlePhase E n m) w = (r, w')"
    from early_phase_step [OF sw False this] this(1)
    show "migration_step\<^sup>*\<^sup>* (view_of m) (V (ext w'))" by auto
  qed
qed

lemma ends_initPhase_steps:
  assumes sw: "single_writer E V" and "phase m = ''''"
  shows "ends (\<lambda>x. V x = view_of m) (initPhase E m) (\<lambda>_ x. migration_step\<^sup>*\<^sup>* (view_of m) (V x))"
proof -
  have "ends (holds V '''' (subPhase m)) (patchStatus E m (set_phase PhasePending m))
      (\<lambda>_ x. migration_step\<^sup>*\<^sup>* ('''', subPhase m) (V x))"
    by (rule ends_mono [OF ends_patch_merged [OF sw]])
      (auto simp: merged_view_def assms(2) intro: r_into_rtranclp [of migration_step, OF migration_step.start])
  then show ?thesis
    unfolding initPhase_def
    by (intro ends_seq [where R = "\<lambda>_ x. migration_step\<^sup>*\<^sup>* (view_of m) (V x)"] ends_return)
      (simp_all add: ends_def holds_def view_of_def assms(2))
qed

lemma ends_refetch:
  assumes sw: "single_writer E V" and "\<And>m. ends (\<lambda>x. V x = view_of m) (h m) (\<lambda>_ x. migration_step\<^sup>*\<^sup>* (view_of m) (V x))"
  shows "ends (\<lambda>x. migration_step\<^sup>*\<^sup>* v (V x)) (State_Monad.bind (getMigration E ns name)
    (\<lambda>f. case f of Inl err \<Rightarrow> go_return (g err) | Inr m \<Rightarrow> h m)) (\<lambda>_ x. migration_step\<^sup>*\<^sup>* v (V x))"
proof (rule endsI)
  fix w r w' assume v: "migration_step\<^sup>*\<^sup>* v (V (ext w))" and run: "run_state (State_Monad.bind (getMigration E ns name)
    (\<lambda>f. case f of Inl err \<Rightarrow> go_return (g err) | Inr m \<Rightarrow> h m)) w = (r, w')"
  obtain f w1 where f: "run_state (getMigration E ns name) w = (f, w1)" by fastforce
  show "migration_step\<^sup>*\<^sup>* v (V (ext w'))"
  proof (cases f)
    case (Inl err)
    have "V (ext w1) = V (ext w)"
      using endsD [OF ends_getMigration [OF sw] _ f, of "fst (V (ext w))" "snd (V (ext w))"]
      by (simp add: holds_def)
    then show ?thesis using v run f Inl by simp
  next
    case (Inr m)
    have m: "V (ext w1) = V (ext w)" "V (ext w1) = view_of m"
      using getMigration_shows [OF sw f [unfolded Inr]] by simp_all
    have "run_state (h m) w1 = (r, w')" using run f Inr by simp
    from endsD [OF assms(2) m(2) this] show ?thesis using v m by simp
  qed
qed

lemma ends_reconcileLoop_steps:
  assumes sw: "single_writer E V"
  shows "ends (\<lambda>x. V x = view_of m) (reconcileLoop E k n ns name m) (\<lambda>_ x. migration_step\<^sup>*\<^sup>* (view_of m) (V x))"
proof (induction k arbitrary: m)
  case 0
  show ?case by (simp, rule ends_return) simp
next
  case (Suc k)
  show ?case
    by (simp, intro conjI impI ends_initPhase_steps [OF sw] ends_seq [OF ends_handlePhase_steps [OF sw]]
        ends_refetch [OF sw] Suc.IH ends_if ends_return) simp_all
qed

lemma ends_Reconcile_steps:
  assumes "single_writer E V"
  shows "ends (\<lambda>x. V x = v) (Reconcile E k n ns name) (\<lambda>_ x. migration_step\<^sup>*\<^sup>* v (V x))"
  unfolding Reconcile_def
  by (rule ends_pre [OF ends_refetch [OF assms ends_reconcileLoop_steps [OF assms]]]) simp

section \<open>The invariant of the stored object\<close>

definition all_phases :: "string list" where
  "all_phases = ['''', PhasePending, PhaseCheckpointing, PhaseTransferring, PhaseRestoring, PhaseReplaying,
     PhaseFinalizing, PhaseCompleted, PhaseFailed]"

definition view_ok :: "string \<times> string \<Rightarrow> bool" where
  "view_ok v \<longleftrightarrow> fst v \<in> set all_phases \<and> snd v \<in> set all_subPhases \<and> (snd v \<noteq> '''' \<longrightarrow> fst v = PhaseFinalizing)"

lemma phase_targets_known: "set (phase_targets p) \<subseteq> set all_phases"
  by (simp add: phase_targets_def all_phases_def Collect_conv_if)

lemma finalizing_known: "PhaseFinalizing \<in> set all_phases" "PhasePending \<in> set all_phases" "PhaseCompleted \<in> set all_phases"
    "'''' \<in> set all_subPhases"
  by (simp_all add: all_phases_def all_subPhases_def)

lemma migration_step_ok: "migration_step v v' \<Longrightarrow> view_ok v \<Longrightarrow> view_ok v'"
proof (induction rule: migration_step.induct)
  case (start s)
  then show ?case by (simp add: view_ok_def finalizing_known)
next
  case (advance p q s)
  then show ?case using phase_targets_known [of p] by (auto simp only: view_ok_def fst_conv snd_conv)
next
  case (swap t s)
  then show ?case using swap_targets_known [of s] finalizing_known by (auto simp only: view_ok_def fst_conv snd_conv)
next
  case (complete s)
  then show ?case by (simp add: view_ok_def finalizing_known)
qed
lemma migration_steps_ok: "migration_step\<^sup>*\<^sup>* v v' \<Longrightarrow> view_ok v \<Longrightarrow> view_ok v'"
  by (induction rule: rtranclp_induct) (simp_all add: migration_step_ok)

end
