(* ===== verification/MockBroker.thy ===== *)
theory MockBroker
  imports Broker
begin

text \<open>
  The in-memory broker of \<open>internal/messaging/mock.go\<close>, which the controller's tests run on:
  the queues with their depths, the control messages sent, and the error-injection fields.
  The mutex has no counterpart: an operation is one step of the model.
\<close>

record mock_control_message =
  mcm_targetPod :: string
  mcm_type :: ControlMessageType
  mcm_payload :: payload

record mock_broker =
  mk_connected :: bool
  mk_queues :: "(string \<times> int) list"
  mk_controlMessages :: "mock_control_message list"
  mk_connectErr :: "go_error option"
  mk_createQueueErr :: "go_error option"
  mk_deleteQueueErr :: "go_error option"
  mk_depthErr :: "go_error option"
  mk_sendErr :: "go_error option"
  mk_closeErr :: "go_error option"

definition NewMockBrokerClient :: mock_broker where
  "NewMockBrokerClient = \<lparr>mk_connected = False, mk_queues = [], mk_controlMessages = [],
     mk_connectErr = None, mk_createQueueErr = None, mk_deleteQueueErr = None,
     mk_depthErr = None, mk_sendErr = None, mk_closeErr = None\<rparr>"

definition mock_connect :: "string \<Rightarrow> mock_broker \<Rightarrow> go_error option \<times> mock_broker" where
  "mock_connect url s = (case mk_connectErr s of Some e \<Rightarrow> (Some e, s)
     | None \<Rightarrow> (None, s\<lparr>mk_connected := True\<rparr>))"

definition mock_close :: "mock_broker \<Rightarrow> go_error option \<times> mock_broker" where
  "mock_close s = (mk_closeErr s, s\<lparr>mk_connected := False\<rparr>)"

definition mock_createSecondaryQueue ::
  "string \<Rightarrow> string \<Rightarrow> string \<Rightarrow> mock_broker \<Rightarrow> (go_error + string) \<times> mock_broker" where
  "mock_createSecondaryQueue primary ex rk s = (case mk_createQueueErr s of Some e \<Rightarrow> (Inl e, s)
     | None \<Rightarrow> (Inr (replay_queue primary),
                s\<lparr>mk_queues := AList.update (replay_queue primary) 0 (mk_queues s)\<rparr>))"

definition mock_unbindQueue :: "string \<Rightarrow> string \<Rightarrow> mock_broker \<Rightarrow> go_error option \<times> mock_broker" where
  "mock_unbindQueue q ex s = (None, s)"

definition mock_deleteSecondaryQueue ::
  "string \<Rightarrow> string \<Rightarrow> string \<Rightarrow> mock_broker \<Rightarrow> go_error option \<times> mock_broker" where
  "mock_deleteSecondaryQueue sec prim ex s = (case mk_deleteQueueErr s of Some e \<Rightarrow> (Some e, s)
     | None \<Rightarrow> (None, s\<lparr>mk_queues := AList.delete sec (mk_queues s)\<rparr>))"

text \<open>Reading a missing key of a Go map gives the zero value.\<close>

definition mock_depth_of :: "mock_broker \<Rightarrow> string \<Rightarrow> int" where
  "mock_depth_of s q = (case map_of (mk_queues s) q of None \<Rightarrow> 0 | Some d \<Rightarrow> d)"

definition mock_getQueueDepth :: "string \<Rightarrow> mock_broker \<Rightarrow> (go_error + int) \<times> mock_broker" where
  "mock_getQueueDepth q s = (case mk_depthErr s of Some e \<Rightarrow> (Inl e, s)
     | None \<Rightarrow> (Inr (mock_depth_of s q), s))"

definition mock_sendControlMessage ::
  "string \<Rightarrow> ControlMessageType \<Rightarrow> payload \<Rightarrow> mock_broker \<Rightarrow> go_error option \<times> mock_broker" where
  "mock_sendControlMessage p ty pl s = (case mk_sendErr s of Some e \<Rightarrow> (Some e, s)
     | None \<Rightarrow> (None, s\<lparr>mk_controlMessages := mk_controlMessages s @
         [\<lparr>mcm_targetPod = p, mcm_type = ty, mcm_payload = pl\<rparr>]\<rparr>))"

definition mock_bindQueue ::
  "string \<Rightarrow> string \<Rightarrow> string \<Rightarrow> mock_broker \<Rightarrow> go_error option \<times> mock_broker" where
  "mock_bindQueue q ex rk s = (None, s)"

definition mock_purgeQueue :: "string \<Rightarrow> mock_broker \<Rightarrow> go_error option \<times> mock_broker" where
  "mock_purgeQueue q s = (None, s\<lparr>mk_queues := AList.update q 0 (mk_queues s)\<rparr>)"

definition mock_getQueueStats :: "string \<Rightarrow> mock_broker \<Rightarrow> (go_error + int \<times> int) \<times> mock_broker" where
  "mock_getQueueStats q s = (case mk_depthErr s of Some e \<Rightarrow> (Inl e, s)
     | None \<Rightarrow> (Inr (mock_depth_of s q, 0), s))"

definition mock_declareAndBindQueue ::
  "string \<Rightarrow> string \<Rightarrow> mock_broker \<Rightarrow> go_error option \<times> mock_broker" where
  "mock_declareAndBindQueue q ex s = (case mk_createQueueErr s of Some e \<Rightarrow> (Some e, s)
     | None \<Rightarrow> (None, if map_of (mk_queues s) q = None
                      then s\<lparr>mk_queues := AList.update q 0 (mk_queues s)\<rparr> else s))"

definition mock_deleteQueue :: "string \<Rightarrow> mock_broker \<Rightarrow> go_error option \<times> mock_broker" where
  "mock_deleteQueue q s = (case mk_deleteQueueErr s of Some e \<Rightarrow> (Some e, s)
     | None \<Rightarrow> (None, s\<lparr>mk_queues := AList.delete q (mk_queues s)\<rparr>))"

definition mock_setQueueDepth :: "string \<Rightarrow> int \<Rightarrow> mock_broker \<Rightarrow> mock_broker" where
  "mock_setQueueDepth q d s = s\<lparr>mk_queues := AList.update q d (mk_queues s)\<rparr>"

definition mock_client :: "mock_broker broker_client" where
  "mock_client = \<lparr>br_connect = mock_connect, br_close = mock_close,
     br_createSecondaryQueue = mock_createSecondaryQueue, br_unbindQueue = mock_unbindQueue,
     br_deleteSecondaryQueue = mock_deleteSecondaryQueue, br_getQueueDepth = mock_getQueueDepth,
     br_sendControlMessage = mock_sendControlMessage, br_bindQueue = mock_bindQueue,
     br_purgeQueue = mock_purgeQueue, br_getQueueStats = mock_getQueueStats,
     br_declareAndBindQueue = mock_declareAndBindQueue, br_deleteQueue = mock_deleteQueue\<rparr>"

lemmas mock_defs = mock_connect_def mock_close_def mock_createSecondaryQueue_def
  mock_unbindQueue_def mock_deleteSecondaryQueue_def mock_getQueueDepth_def
  mock_sendControlMessage_def mock_bindQueue_def mock_purgeQueue_def mock_getQueueStats_def
  mock_declareAndBindQueue_def mock_deleteQueue_def mock_setQueueDepth_def

interpretation mock: broker_contract mock_client mk_connected
  by unfold_locales (auto simp: mock_client_def mock_defs split: option.splits)

section \<open>Facts of the mock\<close>

lemma mock_depth_update [simp]:
  "mock_depth_of (s\<lparr>mk_queues := AList.update q d (mk_queues s)\<rparr>) q' = (if q' = q then d else mock_depth_of s q')"
  by (simp add: mock_depth_of_def update_conv')

lemma mock_depth_delete [simp]:
  "mock_depth_of (s\<lparr>mk_queues := AList.delete q (mk_queues s)\<rparr>) q' = (if q' = q then 0 else mock_depth_of s q')"
  by (simp add: mock_depth_of_def delete_conv')

text \<open>Declaring a queue that exists keeps its messages: the operation may be repeated.\<close>

lemma mock_declare_idem:
  assumes "mock_declareAndBindQueue q ex s = (None, s1)"
  shows "mock_declareAndBindQueue q ex s1 = (None, s1) \<and> mock_depth_of s1 q' = mock_depth_of s q'"
  using assms by (auto simp: mock_defs mock_depth_of_def update_conv' split: option.splits if_splits)

end
