(* ===== verification/FakeCluster.thy ===== *)
theory FakeCluster
  imports Termination Tracking MockBroker
begin

text \<open>
  A cluster in memory, as the controller's tests use one: a store of objects in place of the API server, the
  mock broker, an agent that always answers 200, a clock that advances by a second with each reading. Created pods run
  at once and created jobs have succeeded. It is an outside world in which every hypothesis of the
  development holds, and the handlers can be run on it; no lemma about the handlers depends on it.
\<close>

section \<open>The store\<close>

record fake_cluster =
  fk_migration :: StatefulMigration
  fk_pods :: "pod list"
  fk_jobs :: "job list"
  fk_sts :: "statefulset list"
  fk_rs :: "replicaset list"
  fk_deployments :: "deployment list"
  fk_broker :: mock_broker
  fk_clock :: int

definition fake_not_found :: "go_error" where
  "fake_not_found = ApiError NotFound ''not found''"

definition fake_find :: "('a \<Rightarrow> bool) \<Rightarrow> 'a list \<Rightarrow> go_error + 'a" where
  "fake_find P xs = (case find P xs of None \<Rightarrow> Inl fake_not_found | Some x \<Rightarrow> Inr x)"

definition is_pod :: "string \<Rightarrow> string \<Rightarrow> pod \<Rightarrow> bool" where
  "is_pod ns n p \<longleftrightarrow> pod_namespace p = ns \<and> pod_name p = n"

definition fake_getMigration :: "string \<Rightarrow> string \<Rightarrow> fake_cluster \<Rightarrow> (go_error + StatefulMigration) \<times> fake_cluster" where
  "fake_getMigration ns n w = (if mig_namespace (fk_migration w) = ns \<and> mig_name (fk_migration w) = n
     then Inr (fk_migration w) else Inl fake_not_found, w)"

text \<open>An update replaces the object but for its status, which is a subresource.\<close>

definition fake_updateMigration :: "StatefulMigration \<Rightarrow> fake_cluster \<Rightarrow> (go_error + StatefulMigration) \<times> fake_cluster" where
  "fake_updateMigration m w = (let m' = m\<lparr>mig_status := mig_status (fk_migration w)\<rparr>
     in (Inr m', w\<lparr>fk_migration := m'\<rparr>))"

text \<open>A merge patch: a field that differs from that of the base is set, key by key in the timings.\<close>

definition merge_field :: "('s \<Rightarrow> 'a) \<Rightarrow> (('a \<Rightarrow> 'a) \<Rightarrow> 's \<Rightarrow> 's) \<Rightarrow> 's \<Rightarrow> 's \<Rightarrow> 's \<Rightarrow> 's" where
  "merge_field get upd base obj cur = (if get obj = get base then cur else upd (\<lambda>_. get obj) cur)"

definition merge_timings :: "smap \<Rightarrow> smap \<Rightarrow> smap \<Rightarrow> smap" where
  "merge_timings base obj cur =
     fold (\<lambda>(k, v) t. if map_of base k = Some v then t else sm_put k v t) obj
       (fold (\<lambda>(k, _) t. if map_of obj k = None then sm_del k t else t) base cur)"

definition merge_timings_field ::
    "StatefulMigrationStatus \<Rightarrow> StatefulMigrationStatus \<Rightarrow> StatefulMigrationStatus \<Rightarrow> StatefulMigrationStatus" where
  "merge_timings_field base obj cur =
     st_phaseTimings_update (\<lambda>c. Some (merge_timings (case st_phaseTimings base of None \<Rightarrow> [] | Some t \<Rightarrow> t)
       (case st_phaseTimings obj of None \<Rightarrow> [] | Some t \<Rightarrow> t) (case c of None \<Rightarrow> [] | Some t \<Rightarrow> t))) cur"

definition merge_status ::
    "StatefulMigrationStatus \<Rightarrow> StatefulMigrationStatus \<Rightarrow> StatefulMigrationStatus \<Rightarrow> StatefulMigrationStatus" where
  "merge_status base obj cur =
     (merge_field st_phase st_phase_update base obj
     (merge_field st_sourceNode st_sourceNode_update base obj
     (merge_field st_checkpointID st_checkpointID_update base obj
     (merge_field st_targetPod st_targetPod_update base obj
     (merge_field st_containerName st_containerName_update base obj
     (merge_field st_conditions st_conditions_update base obj
     (merge_field st_startTime st_startTime_update base obj
     (merge_field st_statefulSetName st_statefulSetName_update base obj
     (merge_field st_deploymentName st_deploymentName_update base obj
     (merge_field st_originalReplicas st_originalReplicas_update base obj
     (merge_field st_sourcePodLabels st_sourcePodLabels_update base obj
     (merge_field st_sourceContainers st_sourceContainers_update base obj
     (merge_field st_swapSubPhase st_swapSubPhase_update base obj
     (merge_field st_replacementPod st_replacementPod_update base obj
     (merge_timings_field base obj cur)))))))))))))))"

definition fake_patchStatus ::
    "StatefulMigration \<Rightarrow> StatefulMigration \<Rightarrow> fake_cluster \<Rightarrow> (go_error + StatefulMigration) \<times> fake_cluster" where
  "fake_patchStatus base obj w =
     (let m = set_status (merge_status (mig_status base) (mig_status obj)) (fk_migration w)
      in (Inr m, w\<lparr>fk_migration := m\<rparr>))"

section \<open>The other objects\<close>

definition fake_patchPod :: "pod \<Rightarrow> pod \<Rightarrow> fake_cluster \<Rightarrow> go_error option \<times> fake_cluster" where
  "fake_patchPod base p w =
     (None, w\<lparr>fk_pods := map (\<lambda>q. if is_pod (pod_namespace p) (pod_name p) q then p else q) (fk_pods w)\<rparr>)"

text \<open>A StatefulSet scaled to zero loses its pods at once.\<close>

definition owned_by_sts :: "statefulset \<Rightarrow> pod \<Rightarrow> bool" where
  "owned_by_sts s p \<longleftrightarrow> pod_namespace p = sts_namespace s \<and>
     list_ex (\<lambda>r. ref_kind r = ''StatefulSet'' \<and> ref_name r = sts_name s) (pod_ownerReferences p)"

definition fake_patchSts :: "statefulset \<Rightarrow> statefulset \<Rightarrow> fake_cluster \<Rightarrow> go_error option \<times> fake_cluster" where
  "fake_patchSts base s w =
     (None, w\<lparr>fk_sts := map (\<lambda>q. if sts_namespace q = sts_namespace s \<and> sts_name q = sts_name s then s else q) (fk_sts w),
       fk_pods := (if sts_replicas s = Some 0 then filter (\<lambda>p. \<not> owned_by_sts s p) (fk_pods w) else fk_pods w)\<rparr>)"

definition fake_patchDeployment :: "deployment \<Rightarrow> deployment \<Rightarrow> fake_cluster \<Rightarrow> go_error option \<times> fake_cluster" where
  "fake_patchDeployment base d w =
     (None, w\<lparr>fk_deployments := map (\<lambda>q. if dep_namespace q = dep_namespace d \<and> dep_name q = dep_name d then d else q)
       (fk_deployments w)\<rparr>)"

definition fake_createJob :: "job \<Rightarrow> fake_cluster \<Rightarrow> go_error option \<times> fake_cluster" where
  "fake_createJob j w = (None, w\<lparr>fk_jobs := j\<lparr>job_succeeded := 1\<rparr> # fk_jobs w\<rparr>)"

definition fake_createPod :: "pod \<Rightarrow> fake_cluster \<Rightarrow> go_error option \<times> fake_cluster" where
  "fake_createPod p w =
     (if find (is_pod (pod_namespace p) (pod_name p)) (fk_pods w) \<noteq> None
      then (Some (ApiError AlreadyExists ''already exists''), w)
      else (None, w\<lparr>fk_pods := p\<lparr>pod_phase := ''Running'', pod_podIP := ''10.0.0.9''\<rparr> # fk_pods w\<rparr>))"

definition fake_deletePod :: "pod \<Rightarrow> int option \<Rightarrow> fake_cluster \<Rightarrow> go_error option \<times> fake_cluster" where
  "fake_deletePod p grace w =
     (None, w\<lparr>fk_pods := filter (\<lambda>q. \<not> is_pod (pod_namespace p) (pod_name p) q) (fk_pods w)\<rparr>)"

section \<open>The environment\<close>

definition on_broker :: "(mock_broker \<Rightarrow> 'r \<times> mock_broker) \<Rightarrow> fake_cluster \<Rightarrow> 'r \<times> fake_cluster" where
  "on_broker f w = (case f (fk_broker w) of (r, b) \<Rightarrow> (r, w\<lparr>fk_broker := b\<rparr>))"

definition fake_broker :: "fake_cluster broker_client" where
  "fake_broker = \<lparr>br_connect = \<lambda>u. on_broker (mock_connect u), br_close = on_broker mock_close,
     br_createSecondaryQueue = \<lambda>q x k. on_broker (mock_createSecondaryQueue q x k),
     br_unbindQueue = \<lambda>q x. on_broker (mock_unbindQueue q x),
     br_deleteSecondaryQueue = \<lambda>q p x. on_broker (mock_deleteSecondaryQueue q p x),
     br_getQueueDepth = \<lambda>q. on_broker (mock_getQueueDepth q),
     br_sendControlMessage = \<lambda>p t l. on_broker (mock_sendControlMessage p t l),
     br_bindQueue = \<lambda>q x k. on_broker (mock_bindQueue q x k), br_purgeQueue = \<lambda>q. on_broker (mock_purgeQueue q),
     br_getQueueStats = \<lambda>q. on_broker (mock_getQueueStats q),
     br_declareAndBindQueue = \<lambda>q x. on_broker (mock_declareAndBindQueue q x),
     br_deleteQueue = \<lambda>q. on_broker (mock_deleteQueue q)\<rparr>"

definition fake_setCondition :: "condition list \<Rightarrow> condition \<Rightarrow> condition list" where
  "fake_setCondition cs c = c # filter (\<lambda>d. cond_type d \<noteq> cond_type c) cs"

definition fake_controllerRef :: "StatefulMigration \<Rightarrow> owner_ref" where
  "fake_controllerRef m = \<lparr>ref_apiVersion = ''migration.ms2m.io/v1alpha1'', ref_kind = ''StatefulMigration'',
     ref_name = mig_name m, ref_uid = mig_uid m, ref_controller = True\<rparr>"

text \<open>The parameter is what the kubelet answers to a checkpoint request.\<close>

definition fake_env :: "string list \<Rightarrow> fake_cluster env" where
  "fake_env items = \<lparr>
     api_getMigration = fake_getMigration,
     api_getPod = \<lambda>ns n w. (fake_find (is_pod ns n) (fk_pods w), w),
     api_getJob = \<lambda>ns n w. (fake_find (\<lambda>j. job_namespace j = ns \<and> job_name j = n) (fk_jobs w), w),
     api_getSts = \<lambda>ns n w. (fake_find (\<lambda>s. sts_namespace s = ns \<and> sts_name s = n) (fk_sts w), w),
     api_getRs = \<lambda>ns n w. (fake_find (\<lambda>s. rs_namespace s = ns \<and> rs_name s = n) (fk_rs w), w),
     api_getDeployment = \<lambda>ns n w. (fake_find (\<lambda>d. dep_namespace d = ns \<and> dep_name d = n) (fk_deployments w), w),
     api_listPods = \<lambda>ns l w. (Inr (filter (\<lambda>p. pod_namespace p = ns \<and>
       list_all (\<lambda>(k, v). map_of (pod_labels p) k = Some v) l) (fk_pods w)), w),
     api_updateMigration = fake_updateMigration,
     api_patchStatus = fake_patchStatus,
     api_patchPod = fake_patchPod, api_patchSts = fake_patchSts, api_patchDeployment = fake_patchDeployment,
     api_createJob = fake_createJob, api_createPod = fake_createPod, api_deletePod = fake_deletePod,
     broker = fake_broker,
     kubelet_checkpoint = Some (\<lambda>node ns p c w. (Inr items, w)),
     http_newRequestErr = \<lambda>_. None,
     http_post = \<lambda>url body w. (Inr (200, ''''), w),
     clock_now = \<lambda>w. (fk_clock w, w\<lparr>fk_clock := fk_clock w + 1 * second\<rparr>),
     setStatusCondition = fake_setCondition,
     newControllerRef = fake_controllerRef\<rparr>"

definition fake_view :: "fake_cluster \<Rightarrow> string \<times> string" where
  "fake_view w = view_of (fk_migration w)"

lemma fake_leaves:
  "leaves_view fake_view (on_broker f)" "leaves_view fake_view (\<lambda>w. (g w, w))"
  "leaves_view fake_view (fake_patchPod pb p)" "leaves_view fake_view (fake_patchSts sb s)"
  "leaves_view fake_view (fake_patchDeployment db d)" "leaves_view fake_view (fake_createJob j)"
  "leaves_view fake_view (fake_createPod p)" "leaves_view fake_view (fake_deletePod p gr)"
  "leaves_view fake_view (\<lambda>w. (fk_clock w, w\<lparr>fk_clock := fk_clock w + x\<rparr>))"
  by (simp_all add: leaves_view_def on_broker_def fake_view_def fake_patchPod_def fake_patchSts_def
      fake_patchDeployment_def fake_createJob_def fake_createPod_def fake_deletePod_def split: prod.split)

lemma merge_status_view:
  "st_phase (merge_status b s c) = (if st_phase s = st_phase b then st_phase c else st_phase s)"
  "st_swapSubPhase (merge_status b s c) =
     (if st_swapSubPhase s = st_swapSubPhase b then st_swapSubPhase c else st_swapSubPhase s)"
  by (simp_all add: merge_status_def merge_field_def merge_timings_field_def)

text \<open>The store is an API server whose phase and sub-phase only this controller writes.\<close>

theorem fake_single_writer: "single_writer (fake_env items) fake_view"
proof -
  have "patches_view (fake_env items) fake_view"
    by (simp add: patches_view_def fake_env_def fake_patchStatus_def fake_view_def view_of_def merged_view_def
        merge_status_view Let_def)
  moreover have "shows_view fake_view (fake_getMigration ns n)" "shows_view fake_view (fake_updateMigration m)" for ns n m
    by (auto simp: shows_view_def fake_getMigration_def fake_updateMigration_def fake_view_def view_of_def Let_def)
  ultimately show ?thesis
    unfolding single_writer_def by (simp add: fake_env_def fake_broker_def fake_leaves)
qed

lemma fake_gives_items: "items \<noteq> [] \<Longrightarrow> kubelet_gives_items (fake_env items)"
  by (simp add: kubelet_gives_items_def fake_env_def)

section \<open>A migration to run\<close>

definition fake_spec :: "string \<Rightarrow> string \<Rightarrow> string \<Rightarrow> StatefulMigrationSpec" where
  "fake_spec strat transfer swapMode = \<lparr>spec_sourcePod = ''app-0'', spec_containerName = '''', spec_targetNode = ''node-b'',
     spec_checkpointImageRepository = ''registry/ckpt'', spec_replayCutoffSeconds = 120, spec_replayMode = ''Cutoff'',
     spec_messageQueueConfig = \<lparr>queueName = ''orders'', brokerURL = ''amqp://broker'', exchangeName = ''orders.x'',
       routingKey = ''rk''\<rparr>,
     spec_migrationStrategy = strat, spec_transferMode = transfer, spec_identitySwapMode = swapMode\<rparr>"

definition fake_status :: "string \<Rightarrow> string \<Rightarrow> StatefulMigrationStatus" where
  "fake_status p s = \<lparr>st_phase = p, st_sourceNode = ''node-a'', st_checkpointID = ''/ckpt.tar'', st_targetPod = '''',
     st_containerName = ''main'', st_conditions = [], st_startTime = Some 0, st_phaseTimings = Some [],
     st_statefulSetName = ''app'', st_deploymentName = '''', st_originalReplicas = 0,
     st_sourcePodLabels = [(''app'', ''orders'')], st_sourceContainers = [], st_swapSubPhase = s, st_replacementPod = ''''\<rparr>"

definition fake_migration :: "StatefulMigrationSpec \<Rightarrow> StatefulMigrationStatus \<Rightarrow> StatefulMigration" where
  "fake_migration spec status = \<lparr>mig_name = ''mig'', mig_namespace = ''default'', mig_uid = ''u1'',
     mig_spec = spec, mig_status = status\<rparr>"

definition fake_container :: container where
  "fake_container = \<lparr>c_name = ''main'', c_image = ''orders:1'', c_imagePullPolicy = ''IfNotPresent'',
     c_ports = [(''http'', 8080)], c_env = [], c_args = [], c_volumeMounts = [], c_securityContext = None\<rparr>"

definition fake_source_pod :: pod where
  "fake_source_pod = \<lparr>pod_name = ''app-0'', pod_namespace = ''default'', pod_labels = [(''app'', ''orders'')],
     pod_annotations = [], pod_ownerReferences = [\<lparr>ref_apiVersion = ''apps/v1'', ref_kind = ''StatefulSet'',
       ref_name = ''app'', ref_uid = ''s1'', ref_controller = True\<rparr>],
     pod_deletionTimestamp = None, pod_nodeName = ''node-a'', pod_containers = [fake_container],
     pod_phase = ''Running'', pod_podIP = ''10.0.0.1''\<rparr>"

definition fake_start :: "StatefulMigration \<Rightarrow> fake_cluster" where
  "fake_start m = \<lparr>fk_migration = m, fk_pods = [fake_source_pod], fk_jobs = [],
     fk_sts = [\<lparr>sts_name = ''app'', sts_namespace = ''default'', sts_replicas = Some 1, sts_nodeSelector = [],
       sts_updateRevision = ''rev1''\<rparr>],
     fk_rs = [], fk_deployments = [], fk_broker = NewMockBrokerClient, fk_clock = 1700000000 * second\<rparr>"

definition fake_world :: "StatefulMigration \<Rightarrow> fake_cluster world" where
  "fake_world m = \<lparr>ext = fake_start m, trace = []\<rparr>"

lemma fake_world_view [simp]: "fake_view (ext (fake_world m)) = view_of m"
  by (simp add: fake_world_def fake_start_def fake_view_def)

end
