(* ===== verification/Routing.thy ===== *)
theory Routing
  imports Reconcile
begin

text \<open>
  Where a message published to the exchange goes. The abstract state is the set of queues that are
  certainly bound to the exchange; each broker call moves it. A migration keeps its messages as long as at every
  moment the primary queue or the fence buffer queue is bound: then a message published between any
  two calls is kept in a queue that the migrated application reads later. The theory proves this for every
  prefix of the calls of the handlers, and shows the one place where it depends on luck.
\<close>

section \<open>The abstract topology\<close>

text \<open>
  One call. A failed call to unbind or delete may still have taken effect, so it counts as done; a failed
  call to bind counts as not done.
\<close>

fun bound_step :: "string \<Rightarrow> string set \<Rightarrow> event \<Rightarrow> string set" where
  "bound_step ex B (EvBind q x ok) = (if ok \<and> x = ex then insert q B else B)"
| "bound_step ex B (EvDeclareBind q x ok) = (if ok \<and> x = ex then insert q B else B)"
| "bound_step ex B (EvCreateSecondary q x rk ok) = (if ok \<and> x = ex then insert q (insert (replay_queue q) B) else B)"
| "bound_step ex B (EvUnbind q x ok) = (if x = ex then B - {q} else B)"
| "bound_step ex B (EvDeleteSecondary q p x ok) = B - {q}"
| "bound_step ex B (EvDeleteQueue q ok) = B - {q}"
| "bound_step ex B _ = B"

definition bound_after :: "string \<Rightarrow> string set \<Rightarrow> event list \<Rightarrow> string set" where
  "bound_after ex B es = foldl (bound_step ex) B es"

definition serves :: "string \<Rightarrow> string set \<Rightarrow> bool" where
  "serves q B \<longleftrightarrow> q \<in> B \<or> fence_buffer_queue q \<in> B"

text \<open>Every prefix of the calls leaves the primary or the buffer queue bound.\<close>

fun routed :: "string \<Rightarrow> string \<Rightarrow> string set \<Rightarrow> event list \<Rightarrow> bool" where
  "routed ex q B [] \<longleftrightarrow> serves q B"
| "routed ex q B (e # es) \<longleftrightarrow> serves q B \<and> routed ex q (bound_step ex B e) es"

lemma routed_prefixes:
  "routed ex q B es \<longleftrightarrow> (\<forall>n \<le> length es. serves q (bound_after ex B (take n es)))"
proof (induction es arbitrary: B)
  case Nil
  show ?case by (simp add: bound_after_def)
next
  case (Cons e es)
  have "(\<forall>n \<le> length (e # es). serves q (bound_after ex B (take n (e # es)))) \<longleftrightarrow>
      serves q B \<and> (\<forall>n \<le> length es. serves q (bound_after ex (bound_step ex B e) (take n es)))"
    (is "?l \<longleftrightarrow> ?r")
  proof
    assume l: ?l
    have "serves q B" using l [rule_format, of 0] by (simp add: bound_after_def)
    moreover have "serves q (bound_after ex (bound_step ex B e) (take n es))" if "n \<le> length es" for n
      using l [rule_format, of "Suc n"] that by (simp add: bound_after_def)
    ultimately show ?r by blast
  next
    assume r: ?r
    show ?l
    proof (intro allI impI)
      fix n assume "n \<le> length (e # es)"
      then show "serves q (bound_after ex B (take n (e # es)))"
        using r by (cases n) (simp_all add: bound_after_def)
    qed
  qed
  then show ?case using Cons by simp
qed

text \<open>A call is harmless when it neither unbinds nor deletes one of the two queues.\<close>

fun harmless :: "string \<Rightarrow> event \<Rightarrow> bool" where
  "harmless q (EvUnbind q' x ok) \<longleftrightarrow> q' \<noteq> q \<and> q' \<noteq> fence_buffer_queue q"
| "harmless q (EvDeleteSecondary q' p x ok) \<longleftrightarrow> q' \<noteq> q \<and> q' \<noteq> fence_buffer_queue q"
| "harmless q (EvDeleteQueue q' ok) \<longleftrightarrow> q' \<noteq> q \<and> q' \<noteq> fence_buffer_queue q"
| "harmless q _ \<longleftrightarrow> True"

lemma harmless_step:
  assumes "harmless q e" and "p = q \<or> p = fence_buffer_queue q" and "p \<in> B"
  shows "p \<in> bound_step ex B e"
  using assms by (cases e) auto

lemma harmless_routed: "list_all (harmless q) es \<Longrightarrow> serves q B \<Longrightarrow> routed ex q B es"
proof (induction es arbitrary: B)
  case Nil
  then show ?case by simp
next
  case (Cons e es)
  then have "harmless q e" "list_all (harmless q) es" by simp_all
  moreover have "serves q (bound_step ex B e)"
    using harmless_step [OF \<open>harmless q e\<close>] Cons.prems(2) unfolding serves_def by metis
  ultimately show ?case using Cons by simp
qed

lemma routed_append:
  "routed ex q B (xs @ ys) \<longleftrightarrow> routed ex q B xs \<and> routed ex q (bound_after ex B xs) ys"
proof (induction xs arbitrary: B)
  case Nil
  then show ?case by (cases ys) (auto simp: bound_after_def)
next
  case (Cons x xs)
  then show ?case by (simp add: bound_after_def)
qed

text \<open>After calls of which the last ones are harmless, only the first ones have to be looked at.\<close>

lemma routed_harmless_tail:
  assumes "routed ex q B xs" "list_all (harmless q) ys"
  shows "routed ex q B (xs @ ys)"
proof -
  have "serves q (bound_after ex B xs)"
    using assms(1) [unfolded routed_prefixes, rule_format, of "length xs"] by simp
  then show ?thesis using assms by (simp add: routed_append harmless_routed)
qed

section \<open>The handlers that do not touch the two queues\<close>

lemma emits_harmless_fail [emits_intro]: "emits (harmless q) (failMigration E m r)"
  by (intro emits_intro) simp

lemma emits_harmless_start: "emits (harmless q) (recordStart E k m)"
  by (intro emits_intro) simp

lemma harmless_replaying: "emits (harmless (queueName (mqCfg m))) (handleReplaying E m)"
  unfolding handleReplaying_def replayDrained_def replayDrainCheck_def replayCutoffCheck_def Let_def
  by (intro emits_intro) (simp_all add: queue_distinct)

lemma harmless_phases:
  "emits (harmless q) (handlePending E m)" "emits (harmless q) (handleCheckpointing E m)"
  "emits (harmless q) (handleTransferring E m)" "emits (harmless q) (handleRestoring E m)"
  unfolding handlePending_def handleCheckpointing_def handleTransferring_def handleTransferringViaJob_def
    handleRestoring_def targetPodExists_def Let_def
  by (intro emits_harmless_start emits_intro; simp)+

lemma harmless_cutoff_stages:
  "emits (harmless (queueName (mqCfg m))) (handleSwapPrepare E m)"
  "emits (harmless (queueName (mqCfg m))) (handleSwapReCheckpoint E m)"
  "emits (harmless (queueName (mqCfg m))) (handleSwapTransfer E m)"
  "emits (harmless (queueName (mqCfg m))) (handleSwapCreateReplacement E m)"
  "emits (harmless (queueName (mqCfg m))) (handleSwapMiniReplay E m)"
  "emits (harmless (queueName (mqCfg m))) (handleSwapTrafficSwitch E m)"
  "emits (harmless (queueName (mqCfg m))) (handleSwapPreFenceDrain E m)"
  unfolding handleSwapPrepare_def handleSwapReCheckpoint_def handleSwapTransfer_def handleSwapTransferViaJob_def
    handleSwapCreateReplacement_def replacementRunning_def removeOriginalPod_def scaleDownOriginal_def
    createReplacementPod_def handleSwapMiniReplay_def startMiniReplay_def handleSwapTrafficSwitch_def
    handleSwapPreFenceDrain_def startPreFence_def leavePreFence_def Let_def
  by (intro emits_intro; simp add: queue_distinct)+

section \<open>The fence\<close>

text \<open>The calls of the topology change, from its possible outcomes.\<close>

lemma routed_applyFence:
  assumes "p \<in> B" "s \<noteq> fence_buffer_queue p"
  shows "yields (applyFence E p s (fence_buffer_queue p) ex) (\<lambda>r es. routed ex p B es)"
  unfolding applyFence_def
  by (intro yields_intro)
    (auto simp: serves_def assms(1) queue_distinct assms(2) [symmetric] assms(2))

lemma routed_applyFence_again:
  assumes "fence_buffer_queue p \<in> B" "s \<noteq> fence_buffer_queue p"
  shows "yields (applyFence E p s (fence_buffer_queue p) ex) (\<lambda>r es. routed ex p B es)"
  unfolding applyFence_def
  by (intro yields_intro)
    (auto simp: serves_def assms(1) queue_distinct assms(2) [symmetric] assms(2))

lemma harmless_recordFence: "emits (harmless q) (recordFence E m a b)"
  unfolding recordFence_def Let_def by (intro emits_intro) simp

lemma routed_fence:
  assumes "serves (queueName (mqCfg m)) B"
  shows "yields (handleSwapExchangeFence E m) (\<lambda>r es. routed (exchangeName (mqCfg m)) (queueName (mqCfg m)) B es)"
proof -
  let ?q = "queueName (mqCfg m)" and ?ex = "exchangeName (mqCfg m)"
  have fence: "yields (applyFence E ?q (replay_queue ?q) (fence_buffer_queue ?q) ?ex) (\<lambda>r es. routed ?ex ?q B es)"
    using assms unfolding serves_def
    by (elim disjE) (simp_all add: routed_applyFence routed_applyFence_again queue_distinct)
  have rest_none: "yields (recordFence E m' a b) (\<lambda>_ es'. routed ?ex ?q B (es @ es'))"
    if "routed ?ex ?q B es" for m' a b es
    by (rule yields_mono [OF harmless_recordFence [unfolded emits_def]]) (erule routed_harmless_tail [OF that])
  have rest_err: "yields (go_return r) (\<lambda>_ es'. routed ?ex ?q B (es @ es'))" if "routed ?ex ?q B es" for r es
    using that by (simp add: yields_return)
  show ?thesis
    unfolding handleSwapExchangeFence_def Let_def
    by (intro yields_intro yields_bind [where f = "applyFence _ _ _ _ _"])
      (use assms fence in \<open>auto intro!: rest_none rest_err\<close>)
qed

section \<open>The cutover and the roll-back\<close>

text \<open>Calls that may remove the buffer queue, but not the primary queue.\<close>

fun keeps_primary :: "string \<Rightarrow> event \<Rightarrow> bool" where
  "keeps_primary q (EvUnbind q' x ok) \<longleftrightarrow> q' \<noteq> q"
| "keeps_primary q (EvDeleteSecondary q' p x ok) \<longleftrightarrow> q' \<noteq> q"
| "keeps_primary q (EvDeleteQueue q' ok) \<longleftrightarrow> q' \<noteq> q"
| "keeps_primary q _ \<longleftrightarrow> True"

lemma keeps_primary_step: "keeps_primary q e \<Longrightarrow> q \<in> B \<Longrightarrow> q \<in> bound_step ex B e"
  by (cases e) auto

lemma keeps_primary_routed: "list_all (keeps_primary q) es \<Longrightarrow> q \<in> B \<Longrightarrow> routed ex q B es"
proof (induction es arbitrary: B)
  case Nil
  then show ?case by (simp add: serves_def)
next
  case (Cons e es)
  then show ?case using keeps_primary_step [of q e B ex] by (simp add: serves_def)
qed

lemma keeps_drainBuffer: "emits (keeps_primary q) (drainBuffer E m b)"
  unfolding drainBuffer_def Let_def by (intro emits_intro) simp_all

lemma keeps_finishCutover: "emits (keeps_primary (queueName cfg)) (finishCutover E cfg m)"
  unfolding finishCutover_def Let_def by (intro emits_intro) (simp_all add: queue_distinct)

text \<open>What follows the successful rebinding of the primary queue.\<close>

lemma routed_after_bind:
  assumes "routed ex q B xs" "emits (keeps_primary q) f"
  shows "yields f (\<lambda>_ es. routed ex q B (xs @ EvBind q ex True # es))"
proof (rule yields_mono [OF assms(2) [unfolded emits_def]])
  fix es assume es: "list_all (keeps_primary q) es"
  have "serves q (bound_after ex B xs)"
    using assms(1) [unfolded routed_prefixes, rule_format, of "length xs"] by simp
  then have "routed ex q (bound_after ex B xs) (EvBind q ex True # es)"
    using keeps_primary_routed [OF es] by simp
  then show "routed ex q B (xs @ EvBind q ex True # es)" using assms(1) by (simp add: routed_append)
qed

lemma routed_snoc_failed_bind: "routed ex q B xs \<Longrightarrow> routed ex q B (xs @ [EvBind q' ex False])"
  by (rule routed_harmless_tail) simp_all

lemma routed_cutover:
  assumes "serves (queueName (mqCfg m)) B"
  shows "yields (handleSwapFenceCutover E m) (\<lambda>r es. routed (exchangeName (mqCfg m)) (queueName (mqCfg m)) B es)"
proof -
  let ?q = "queueName (mqCfg m)" and ?ex = "exchangeName (mqCfg m)"
  have kill: "emits (harmless ?q) (killShadowPod E m')" for m' by (intro emits_intro) simp
  have rest: "emits (keeps_primary ?q) (do {
         _ \<leftarrow> unbindQueue E (fence_buffer_queue ?q) ?ex;
         st \<leftarrow> getQueueStats E (fence_buffer_queue ?q);
         if 0 < statsTotal st then do {
           d \<leftarrow> drainBuffer E m' (fence_buffer_queue ?q);
           case d of Inl r \<Rightarrow> go_return r | Inr m1 \<Rightarrow> finishCutover E (mqCfg m) m1
         } else finishCutover E (mqCfg m) m'
       })" for m'
    by (intro emits_intro keeps_drainBuffer keeps_finishCutover) (simp_all add: queue_distinct)
  have ok: "yields (case b of None \<Rightarrow> f | Some err \<Rightarrow> go_return (r err))
      (\<lambda>_ es. routed ?ex ?q B (xs @ EvBind ?q ?ex (b = None) # es))"
    if "list_all (harmless ?q) xs" and "emits (keeps_primary ?q) f" for b f r xs
    using routed_after_bind [OF harmless_routed [OF that(1) assms] that(2)]
      routed_snoc_failed_bind [OF harmless_routed [OF that(1) assms]]
    by (cases b) (auto intro: yields_return)
  show ?thesis
    unfolding handleSwapFenceCutover_def Let_def ensure_simps
    by (intro yields_emits_bind [OF kill] yields_broker ok rest) assumption
qed

section \<open>The properties\<close>

text \<open>
  C4: On every path of the exchange fence, whatever calls fail and wherever the handler stops, the primary queue
  or the buffer queue is bound to the exchange after each call, provided one of them is bound when the handler
  starts: no message published meanwhile is lost. The statement takes any set of bound queues with the
  primary queue, or with the buffer queue after a fence that stopped half-way.
\<close>

theorem fence_never_unroutes:
  "yields (handleSwapExchangeFence E m) (\<lambda>r es.
     routed (exchangeName (mqCfg m)) (queueName (mqCfg m)) (insert (queueName (mqCfg m)) B) es \<and>
     routed (exchangeName (mqCfg m)) (queueName (mqCfg m)) (insert (fence_buffer_queue (queueName (mqCfg m))) B) es)"
  by (rule yields_conj; rule routed_fence) (simp_all add: serves_def)

text \<open>
  C5: The same holds of the cutover: the primary queue is bound again before the buffer queue is unbound and
  deleted, and when the rebinding fails the handler stops with the buffer queue still bound.
\<close>

theorem cutover_never_unroutes:
  "yields (handleSwapFenceCutover E m) (\<lambda>r es.
     routed (exchangeName (mqCfg m)) (queueName (mqCfg m)) (insert (queueName (mqCfg m)) B) es \<and>
     routed (exchangeName (mqCfg m)) (queueName (mqCfg m)) (insert (fence_buffer_queue (queueName (mqCfg m))) B) es)"
  by (rule yields_conj; rule routed_cutover) (simp_all add: serves_def)



section \<open>After a roll-back\<close>

text \<open>The calls that take a queue from the exchange, and the patches that send the migration on to the mini-replay.\<close>

fun unbinds :: "string \<Rightarrow> event \<Rightarrow> bool" where
  "unbinds q (EvUnbind q' ex ok) \<longleftrightarrow> q' = q"
| "unbinds q (EvDeleteQueue q' ok) \<longleftrightarrow> q' = q"
| "unbinds q (EvDeleteSecondary q' p ex ok) \<longleftrightarrow> q' = q"
| "unbinds q _ \<longleftrightarrow> False"

fun hands_to_replay :: "event \<Rightarrow> bool" where
  "hands_to_replay (EvPatchStatus base m ok) \<longleftrightarrow>
     subPhase m = ''MiniReplay'' \<and> timing_get ''Swap.MiniReplay.start'' m \<noteq> None"
| "hands_to_replay _ \<longleftrightarrow> True"

lemma timing_get_subPhase: "timing_get k (set_subPhase s m) = timing_get k m"
  by (simp add: timing_get_def)

lemma miniReplay_unbinds:
  "yields (handleSwapMiniReplay E m) (\<lambda>r es.
     list_ex (unbinds (replay_queue (queueName (mqCfg m)))) es \<longleftrightarrow> timing_get ''Swap.MiniReplay.start'' m = None)"
proof -
  let ?m = "ensurePhaseTimings m" and ?q = "replay_queue (queueName (mqCfg (ensurePhaseTimings m)))"
  have start: "yields (startMiniReplay E ?m ?q)
      (\<lambda>s es. list_ex (unbinds ?q) es \<longleftrightarrow> timing_get ''Swap.MiniReplay.start'' m = None)"
    unfolding startMiniReplay_def Let_def by (intro yields_intro) simp_all
  have rest: "yields f (\<lambda>r es. list_ex (unbinds ?q) (es0 @ es) \<longleftrightarrow> list_ex (unbinds ?q) es0)"
    if "emits (\<lambda>e. \<not> unbinds ?q e) f" for f :: "('a, swap_result) go" and es0
    using that unfolding emits_def by (rule yields_mono) (auto simp: list_ex_iff list_all_iff)
  show ?thesis
    unfolding handleSwapMiniReplay_def Let_def
    proof (rule yields_bind [OF start], goal_cases)
    case (1 s es)
    have "emits (\<lambda>e. \<not> unbinds ?q e) (case s of Inl r \<Rightarrow> go_return r
        | Inr m1 \<Rightarrow> do {
            q \<leftarrow> getQueueDepth E ?q;
            case q of
              Inl err \<Rightarrow> go_return (sw_fail m1 (Wrapped ''get swap queue depth'' err))
            | Inr depth \<Rightarrow> do {
                e \<leftarrow> elapsedSince E ''Swap.MiniReplay.start'' m1;
                if depth = 0 \<or> miniReplayCutoff < duration_or_zero e
                then swapPatch E m1 (set_subPhase ''TrafficSwitch'' (timing_del ''Swap.MiniReplay.start'' m1)) sw_next
                else go_return (sw_wait m1 (1 * second))
              }
          })"
      by (intro emits_intro) simp_all
    from rest [OF this, of es] 1 show ?case by simp
  qed
qed

lemma rollback_binds_replay:
  "yields (handleSwapFenceRollback E m) (\<lambda>r es.
     list_ex (\<lambda>e. \<exists>ok. e = EvBind (replay_queue (queueName (mqCfg m))) (exchangeName (mqCfg m)) ok) es \<and>
     list_all (\<lambda>e. \<not> unbinds (replay_queue (queueName (mqCfg m))) e \<and> hands_to_replay e) es)"
  unfolding handleSwapFenceRollback_def Let_def
  by (intro yields_intro) (auto simp: queue_distinct timing_get_put timing_get_subPhase)


end
