(* ===== verification/RabbitMQ.thy ===== *)
theory RabbitMQ
  imports Broker
begin

text \<open>
  The production broker client, \<open>internal/messaging/rabbitmq.go\<close>. The AMQP library is a parameter: the record
  \<open>amqp\<close> holds the calls the client makes on connections and channels (handles of type \<open>'h\<close>), each
  a function on the state \<open>'n\<close> of the network and the server. The client itself keeps the two
  pointers \<open>conn\<close> and \<open>ch\<close>, each possibly nil. The theory shows that this client keeps the
  contract of theory \<open>Broker\<close> whatever the AMQP library does.
\<close>

section \<open>The AMQP library\<close>

datatype json_tree = JText string | JObject "(string \<times> json_tree) list"

record ('h, 'n) amqp =
  amqp_dial :: "string \<Rightarrow> 'n \<Rightarrow> (go_error + 'h) \<times> 'n"
  amqp_channel :: "'h \<Rightarrow> 'n \<Rightarrow> (go_error + 'h) \<times> 'n"
  amqp_closeConn :: "'h \<Rightarrow> 'n \<Rightarrow> go_error option \<times> 'n"
  amqp_closeChannel :: "'h \<Rightarrow> 'n \<Rightarrow> go_error option \<times> 'n"
  amqp_exchangeDeclare :: "'h \<Rightarrow> string \<Rightarrow> string \<Rightarrow> 'n \<Rightarrow> go_error option \<times> 'n"
  amqp_queueDeclare :: "'h \<Rightarrow> string \<Rightarrow> 'n \<Rightarrow> go_error option \<times> 'n"
  amqp_queueBind :: "'h \<Rightarrow> string \<Rightarrow> string \<Rightarrow> string \<Rightarrow> 'n \<Rightarrow> go_error option \<times> 'n"
  amqp_queueUnbind :: "'h \<Rightarrow> string \<Rightarrow> string \<Rightarrow> string \<Rightarrow> 'n \<Rightarrow> go_error option \<times> 'n"
  amqp_queueDelete :: "'h \<Rightarrow> string \<Rightarrow> 'n \<Rightarrow> go_error option \<times> 'n"
  amqp_queueInspect :: "'h \<Rightarrow> string \<Rightarrow> 'n \<Rightarrow> (go_error + int) \<times> 'n"
  amqp_queuePurge :: "'h \<Rightarrow> string \<Rightarrow> 'n \<Rightarrow> go_error option \<times> 'n"
  amqp_publish :: "'h \<Rightarrow> string \<Rightarrow> string \<Rightarrow> json_tree \<Rightarrow> 'n \<Rightarrow> go_error option \<times> 'n"

section \<open>The client\<close>

record ('h, 'n) rabbit =
  rb_conn :: "'h option"
  rb_ch :: "'h option"
  rb_net :: 'n

definition NewRabbitMQClient :: "'n \<Rightarrow> ('h, 'n) rabbit" where
  "NewRabbitMQClient net = \<lparr>rb_conn = None, rb_ch = None, rb_net = net\<rparr>"

definition not_connected :: go_error where
  "not_connected = ErrorString ''broker channel not connected''"

text \<open>A call on the channel, with the result of the call.\<close>

definition on_net :: "('n \<Rightarrow> 'r \<times> 'n) \<Rightarrow> ('h, 'n) rabbit \<Rightarrow> 'r \<times> ('h, 'n) rabbit" where
  "on_net f s = (case f (rb_net s) of (r, n) \<Rightarrow> (r, s\<lparr>rb_net := n\<rparr>))"

definition rabbit_close :: "('h, 'n) amqp \<Rightarrow> ('h, 'n) rabbit \<Rightarrow> go_error option \<times> ('h, 'n) rabbit" where
  "rabbit_close A s =
     (let (firstErr, s1) = (case rb_ch s of
             None \<Rightarrow> (None, s)
           | Some ch \<Rightarrow> (case on_net (amqp_closeChannel A ch) s of (e, s') \<Rightarrow> (e, s'\<lparr>rb_ch := None\<rparr>)))
      in case rb_conn s1 of
           None \<Rightarrow> (firstErr, s1)
         | Some conn \<Rightarrow> (case on_net (amqp_closeConn A conn) s1 of
               (e, s') \<Rightarrow> (if e \<noteq> None \<and> firstErr = None then e else firstErr, s'\<lparr>rb_conn := None\<rparr>)))"

definition rabbit_connect ::
    "('h, 'n) amqp \<Rightarrow> string \<Rightarrow> ('h, 'n) rabbit \<Rightarrow> go_error option \<times> ('h, 'n) rabbit" where
  "rabbit_connect A url s0 =
     (let s = (if rb_ch s0 \<noteq> None \<or> rb_conn s0 \<noteq> None then snd (rabbit_close A s0) else s0)
      in case on_net (amqp_dial A url) s of
           (Inl err, s1) \<Rightarrow> (Some (Wrapped ''amqp dial'' err), s1)
         | (Inr conn, s1) \<Rightarrow> (case on_net (amqp_channel A conn) s1 of
               (Inl err, s2) \<Rightarrow> (Some (Wrapped ''amqp open channel'' err), snd (on_net (amqp_closeConn A conn) s2))
             | (Inr ch, s2) \<Rightarrow> (None, s2\<lparr>rb_conn := Some conn, rb_ch := Some ch\<rparr>)))"

text \<open>Sequences of calls that stop at the first error, which is wrapped with its message.\<close>

fun run_calls :: "(string \<times> ('n \<Rightarrow> go_error option \<times> 'n)) list \<Rightarrow> ('h, 'n) rabbit \<Rightarrow>
    go_error option \<times> ('h, 'n) rabbit" where
  "run_calls [] s = (None, s)"
| "run_calls ((msg, f) # fs) s = (case on_net f s of
     (Some err, s1) \<Rightarrow> (Some (Wrapped msg err), s1)
   | (None, s1) \<Rightarrow> run_calls fs s1)"

definition with_channel :: "('h \<Rightarrow> (string \<times> ('n \<Rightarrow> go_error option \<times> 'n)) list) \<Rightarrow> ('h, 'n) rabbit \<Rightarrow>
    go_error option \<times> ('h, 'n) rabbit" where
  "with_channel calls s = (case rb_ch s of None \<Rightarrow> (Some not_connected, s) | Some ch \<Rightarrow> run_calls (calls ch) s)"

definition rabbit_createSecondaryQueue ::
    "('h, 'n) amqp \<Rightarrow> string \<Rightarrow> string \<Rightarrow> string \<Rightarrow> ('h, 'n) rabbit \<Rightarrow> (go_error + string) \<times> ('h, 'n) rabbit" where
  "rabbit_createSecondaryQueue A primaryQueue exName rk s =
     (let secondaryQueue = replay_queue primaryQueue;
          (e, s') = with_channel (\<lambda>ch. [
            (''declare exchange '' @ quote exName, amqp_exchangeDeclare A ch exName ''fanout''),
            (''declare queue '' @ quote secondaryQueue, amqp_queueDeclare A ch secondaryQueue),
            (''bind primary queue '' @ quote primaryQueue @ '' to '' @ quote exName,
               amqp_queueBind A ch primaryQueue '''' exName),
            (''bind secondary queue '' @ quote secondaryQueue @ '' to '' @ quote exName,
               amqp_queueBind A ch secondaryQueue '''' exName)]) s
      in (case e of Some err \<Rightarrow> Inl err | None \<Rightarrow> Inr secondaryQueue, s'))"

definition rabbit_unbindQueue ::
    "('h, 'n) amqp \<Rightarrow> string \<Rightarrow> string \<Rightarrow> ('h, 'n) rabbit \<Rightarrow> go_error option \<times> ('h, 'n) rabbit" where
  "rabbit_unbindQueue A q ex = with_channel (\<lambda>ch. [
     (''unbind queue '' @ quote q @ '' from '' @ quote ex, amqp_queueUnbind A ch q '''' ex)])"

definition rabbit_deleteSecondaryQueue ::
    "('h, 'n) amqp \<Rightarrow> string \<Rightarrow> string \<Rightarrow> string \<Rightarrow> ('h, 'n) rabbit \<Rightarrow> go_error option \<times> ('h, 'n) rabbit" where
  "rabbit_deleteSecondaryQueue A sec prim ex = with_channel (\<lambda>ch. [
     (''unbind secondary queue '' @ quote sec @ '' from '' @ quote ex, amqp_queueUnbind A ch sec '''' ex),
     (''delete queue '' @ quote sec, amqp_queueDelete A ch sec)])"

definition rabbit_getQueueDepth ::
    "('h, 'n) amqp \<Rightarrow> string \<Rightarrow> ('h, 'n) rabbit \<Rightarrow> (go_error + int) \<times> ('h, 'n) rabbit" where
  "rabbit_getQueueDepth A q s = (case rb_ch s of
      None \<Rightarrow> (Inl not_connected, s)
    | Some ch \<Rightarrow> (case on_net (amqp_queueInspect A ch q) s of
          (Inl err, s') \<Rightarrow> (Inl (Wrapped (''inspect queue '' @ quote q) err), s')
        | (Inr messages, s') \<Rightarrow> (Inr messages, s')))"

text \<open>
  The envelope of a control message; \<open>omitempty\<close> leaves a nil or empty payload out, and the members of a
  map are written in key order.
\<close>

definition controlBody :: "ControlMessageType \<Rightarrow> payload \<Rightarrow> json_tree" where
  "controlBody ty pl = JObject ((''type'', JText (control_type_string ty)) #
     (case pl of None \<Rightarrow> [] | Some [] \<Rightarrow> []
      | Some kvs \<Rightarrow> [(''payload'', JObject (map (\<lambda>(k, v). (k, JText v)) kvs))]))"

definition control_queue :: "string \<Rightarrow> string" where
  "control_queue targetPod = ''ms2m.control.'' @ targetPod"

definition rabbit_sendControlMessage ::
    "('h, 'n) amqp \<Rightarrow> string \<Rightarrow> ControlMessageType \<Rightarrow> payload \<Rightarrow> ('h, 'n) rabbit \<Rightarrow>
      go_error option \<times> ('h, 'n) rabbit" where
  "rabbit_sendControlMessage A targetPod ty pl = with_channel (\<lambda>ch. [
     (''declare control queue '' @ quote (control_queue targetPod), amqp_queueDeclare A ch (control_queue targetPod)),
     (''publish control message to '' @ quote (control_queue targetPod),
        amqp_publish A ch '''' (control_queue targetPod) (controlBody ty pl))])"

definition rabbit_bindQueue ::
    "('h, 'n) amqp \<Rightarrow> string \<Rightarrow> string \<Rightarrow> string \<Rightarrow> ('h, 'n) rabbit \<Rightarrow> go_error option \<times> ('h, 'n) rabbit" where
  "rabbit_bindQueue A q ex rk = with_channel (\<lambda>ch. [
     (''bind queue '' @ quote q @ '' to '' @ quote ex, amqp_queueBind A ch q '''' ex)])"

definition rabbit_purgeQueue ::
    "('h, 'n) amqp \<Rightarrow> string \<Rightarrow> ('h, 'n) rabbit \<Rightarrow> go_error option \<times> ('h, 'n) rabbit" where
  "rabbit_purgeQueue A q = with_channel (\<lambda>ch. [(''purge queue '' @ quote q, amqp_queuePurge A ch q)])"

definition rabbit_getQueueStats ::
    "('h, 'n) amqp \<Rightarrow> string \<Rightarrow> ('h, 'n) rabbit \<Rightarrow> (go_error + int \<times> int) \<times> ('h, 'n) rabbit" where
  "rabbit_getQueueStats A q s = (case rb_ch s of
      None \<Rightarrow> (Inl not_connected, s)
    | Some ch \<Rightarrow> (case on_net (amqp_queueInspect A ch q) s of
          (Inl err, s') \<Rightarrow> (Inl (Wrapped (''inspect queue '' @ quote q) err), s')
        | (Inr messages, s') \<Rightarrow> (Inr (messages, 0), s')))"

definition rabbit_declareAndBindQueue ::
    "('h, 'n) amqp \<Rightarrow> string \<Rightarrow> string \<Rightarrow> ('h, 'n) rabbit \<Rightarrow> go_error option \<times> ('h, 'n) rabbit" where
  "rabbit_declareAndBindQueue A q ex = with_channel (\<lambda>ch. [
     (''declare queue '' @ quote q, amqp_queueDeclare A ch q),
     (''bind queue '' @ quote q @ '' to '' @ quote ex, amqp_queueBind A ch q '''' ex)])"

definition rabbit_deleteQueue ::
    "('h, 'n) amqp \<Rightarrow> string \<Rightarrow> ('h, 'n) rabbit \<Rightarrow> go_error option \<times> ('h, 'n) rabbit" where
  "rabbit_deleteQueue A q = with_channel (\<lambda>ch. [(''delete queue '' @ quote q, amqp_queueDelete A ch q)])"

definition rabbit_client :: "('h, 'n) amqp \<Rightarrow> ('h, 'n) rabbit broker_client" where
  "rabbit_client A = \<lparr>br_connect = rabbit_connect A, br_close = rabbit_close A,
     br_createSecondaryQueue = rabbit_createSecondaryQueue A, br_unbindQueue = rabbit_unbindQueue A,
     br_deleteSecondaryQueue = rabbit_deleteSecondaryQueue A, br_getQueueDepth = rabbit_getQueueDepth A,
     br_sendControlMessage = rabbit_sendControlMessage A, br_bindQueue = rabbit_bindQueue A,
     br_purgeQueue = rabbit_purgeQueue A, br_getQueueStats = rabbit_getQueueStats A,
     br_declareAndBindQueue = rabbit_declareAndBindQueue A, br_deleteQueue = rabbit_deleteQueue A\<rparr>"

definition rb_connected :: "('h, 'n) rabbit \<Rightarrow> bool" where
  "rb_connected s \<longleftrightarrow> rb_conn s \<noteq> None \<and> rb_ch s \<noteq> None"

section \<open>The contract holds\<close>

lemma on_net_simps [simp]:
  "rb_conn (snd (on_net f s)) = rb_conn s" "rb_ch (snd (on_net f s)) = rb_ch s"
  "on_net f s = (r, s') \<Longrightarrow> rb_conn s' = rb_conn s" "on_net f s = (r, s') \<Longrightarrow> rb_ch s' = rb_ch s"
  by (auto simp: on_net_def split: prod.splits)

lemma run_calls_keeps: "rb_conn (snd (run_calls fs s)) = rb_conn s \<and> rb_ch (snd (run_calls fs s)) = rb_ch s"
  by (induction fs s rule: run_calls.induct) (auto split: prod.splits option.splits)

lemma with_channel_keeps [simp]:
  "rb_conn (snd (with_channel f s)) = rb_conn s" "rb_ch (snd (with_channel f s)) = rb_ch s"
  by (simp_all add: with_channel_def run_calls_keeps split: option.splits)

lemma rabbit_close_drops [simp]: "rb_conn (snd (rabbit_close A s)) = None" "rb_ch (snd (rabbit_close A s)) = None"
  by (auto simp: rabbit_close_def Let_def split: option.splits prod.splits)

lemma rabbit_connect_result:
  "rb_connected (snd (rabbit_connect A url s)) \<longleftrightarrow> fst (rabbit_connect A url s) = None"
  by (auto simp: rabbit_connect_def rb_connected_def Let_def split: prod.splits sum.splits if_splits)

interpretation rabbit: broker_contract "rabbit_client A" rb_connected for A
proof unfold_locales
  fix q ex rk s n
  assume "fst (br_createSecondaryQueue (rabbit_client A) q ex rk s) = Inr n"
  then show "n = replay_queue q"
    by (auto simp: rabbit_client_def rabbit_createSecondaryQueue_def Let_def split: prod.splits option.splits)
next
  fix q s
  show "fst (br_getQueueStats (rabbit_client A) q s) =
      (case fst (br_getQueueDepth (rabbit_client A) q s) of Inl e \<Rightarrow> Inl e | Inr d \<Rightarrow> Inr (d, 0))"
    by (auto simp: rabbit_client_def rabbit_getQueueStats_def rabbit_getQueueDepth_def
        split: option.splits prod.splits sum.splits)
next
  fix url s
  assume "fst (br_connect (rabbit_client A) url s) = None"
  then show "rb_connected (snd (br_connect (rabbit_client A) url s))"
    by (simp add: rabbit_client_def rabbit_connect_result)
next
  fix s
  show "\<not> rb_connected (snd (br_close (rabbit_client A) s))"
    by (simp add: rabbit_client_def rb_connected_def)
next
  fix q and s :: "('a, 'b) rabbit"
  assume "rb_connected s"
  then show "rb_connected (snd (br_getQueueDepth (rabbit_client A) q s))"
    by (auto simp: rabbit_client_def rb_connected_def rabbit_getQueueDepth_def split: option.splits prod.splits sum.splits)
qed

end
