(* ===== verification/RabbitRouting.thy ===== *)
theory RabbitRouting
  imports Routing RabbitMQ
begin

text \<open>
  From the trace to the broker. Theory \<open>Routing\<close> counts, call by call, which queues are certainly bound; here this count is
  shown to be right for the RabbitMQ client on any AMQP library whose server keeps its bindings, and
  carried from the trace of a handler to the bindings the server holds when the handler is done.
\<close>

section \<open>A server that keeps its bindings\<close>

text \<open>
  \<open>T\<close> tells the bindings of the server, as pairs of queue and exchange. A bind call that succeeds adds its binding, an unbind
  removes at most its own, deleting a queue at most those of the queue, and no other call removes a binding.
\<close>

definition grows :: "('n \<Rightarrow> 'a set) \<Rightarrow> ('n \<Rightarrow> 'r \<times> 'n) \<Rightarrow> bool" where
  "grows T f \<longleftrightarrow> (\<forall>n. T n \<subseteq> T (snd (f n)))"

definition amqp_bindings :: "('h, 'n) amqp \<Rightarrow> ('n \<Rightarrow> (string \<times> string) set) \<Rightarrow> bool" where
  "amqp_bindings A T \<longleftrightarrow>
     (\<forall>ch q k x n. T n \<subseteq> T (snd (amqp_queueBind A ch q k x n)) \<and>
        (fst (amqp_queueBind A ch q k x n) = None \<longrightarrow> (q, x) \<in> T (snd (amqp_queueBind A ch q k x n)))) \<and>
     (\<forall>ch q k x n. T n - {(q, x)} \<subseteq> T (snd (amqp_queueUnbind A ch q k x n))) \<and>
     (\<forall>ch q n. T n - {q} \<times> UNIV \<subseteq> T (snd (amqp_queueDelete A ch q n))) \<and>
     (\<forall>u. grows T (amqp_dial A u)) \<and> (\<forall>c. grows T (amqp_channel A c)) \<and> (\<forall>c. grows T (amqp_closeConn A c)) \<and>
     (\<forall>c. grows T (amqp_closeChannel A c)) \<and> (\<forall>c x t. grows T (amqp_exchangeDeclare A c x t)) \<and>
     (\<forall>c q. grows T (amqp_queueDeclare A c q)) \<and> (\<forall>c q. grows T (amqp_queueInspect A c q)) \<and>
     (\<forall>c q. grows T (amqp_queuePurge A c q)) \<and> (\<forall>c x k b. grows T (amqp_publish A c x k b))"

section \<open>What a broker must do\<close>

text \<open>Each operation leaves at least the queues bound that the count keeps; \<open>R\<close> tells the queues bound to the exchange.\<close>

definition counted :: "string \<Rightarrow> ('b \<Rightarrow> string set) \<Rightarrow> ('b \<Rightarrow> 'r \<times> 'b) \<Rightarrow> ('r \<Rightarrow> event list) \<Rightarrow> bool" where
  "counted ex R f ev \<longleftrightarrow> (\<forall>s. bound_after ex (R s) (ev (fst (f s))) \<subseteq> R (snd (f s)))"

definition broker_sound :: "'b broker_client \<Rightarrow> string \<Rightarrow> ('b \<Rightarrow> string set) \<Rightarrow> bool" where
  "broker_sound B ex R \<longleftrightarrow>
     (\<forall>u. grows R (br_connect B u)) \<and> grows R (br_close B) \<and>
     (\<forall>q. grows R (br_getQueueDepth B q)) \<and> (\<forall>q. grows R (br_getQueueStats B q)) \<and>
     (\<forall>p t l. grows R (br_sendControlMessage B p t l)) \<and>
     (\<forall>q x k. counted ex R (br_createSecondaryQueue B q x k) (\<lambda>r. [EvCreateSecondary q x k (ok_sum r)])) \<and>
     (\<forall>q x. counted ex R (br_unbindQueue B q x) (\<lambda>r. [EvUnbind q x (r = None)])) \<and>
     (\<forall>s p x. counted ex R (br_deleteSecondaryQueue B s p x) (\<lambda>r. [EvDeleteSecondary s p x (r = None)])) \<and>
     (\<forall>q x k. counted ex R (br_bindQueue B q x k) (\<lambda>r. [EvBind q x (r = None)])) \<and>
     (\<forall>q x. counted ex R (br_declareAndBindQueue B q x) (\<lambda>r. [EvDeclareBind q x (r = None)])) \<and>
     (\<forall>q. counted ex R (br_deleteQueue B q) (\<lambda>r. [EvDeleteQueue q (r = None)]))"

definition bound_queues :: "('n \<Rightarrow> (string \<times> string) set) \<Rightarrow> string \<Rightarrow> ('h, 'n) rabbit \<Rightarrow> string set" where
  "bound_queues T ex s = {q. (q, ex) \<in> T (rb_net s)}"

lemma bound_after_simps [simp]:
  "bound_after ex B [] = B" "bound_after ex B (e # es) = bound_after ex (bound_step ex B e) es"
  "bound_after ex B (xs @ ys) = bound_after ex (bound_after ex B xs) ys"
  by (simp_all add: bound_after_def)

text \<open>What one call on the network keeps: everything but the bindings in \<open>X\<close>.\<close>

definition keeps_but :: "('a set) \<Rightarrow> ('n \<Rightarrow> 'a set) \<Rightarrow> ('n \<Rightarrow> 'r \<times> 'n) \<Rightarrow> bool" where
  "keeps_but X T f \<longleftrightarrow> (\<forall>n. T n - X \<subseteq> T (snd (f n)))"

lemma grows_keeps: "grows T f \<Longrightarrow> keeps_but X T f"
  by (auto simp: grows_def keeps_but_def)

lemma on_net_keeps: "keeps_but X T f \<Longrightarrow> on_net f s = (r, s') \<Longrightarrow> T (rb_net s) - X \<subseteq> T (rb_net s')"
  by (cases "f (rb_net s)") (use spec in \<open>fastforce simp: keeps_but_def on_net_def\<close>)

lemma on_net_grows: "grows T f \<Longrightarrow> on_net f s = (r, s') \<Longrightarrow> T (rb_net s) \<subseteq> T (rb_net s')"
  using on_net_keeps [OF grows_keeps, of T f s r s' "{}"] by simp

lemma run_calls_keeps_but:
  "list_all (\<lambda>(msg, f). keeps_but X T f) fs \<Longrightarrow> run_calls fs s = (r, s') \<Longrightarrow> T (rb_net s) - X \<subseteq> T (rb_net s')"
proof (induction fs s arbitrary: r s' rule: run_calls.induct)
  case (2 msg f fs s)
  obtain e s1 where f: "on_net f s = (e, s1)" by fastforce
  have first: "T (rb_net s) - X \<subseteq> T (rb_net s1)" by (rule on_net_keeps [OF _ f]) (use 2(2) in simp)
  show ?case
  proof (cases e)
    case None
    then have "T (rb_net s1) - X \<subseteq> T (rb_net s')" using 2(1) [OF f [symmetric] None] 2(2, 3) f by simp
    then show ?thesis using first by blast
  next
    case (Some err)
    then show ?thesis using 2(3) f first by simp
  qed
qed simp

lemma run_calls_done:
  assumes "run_calls ((msg, f) # fs) s = (None, s')"
  obtains s1 where "on_net f s = (None, s1)" "run_calls fs s1 = (None, s')"
  using assms by (auto split: prod.splits option.splits)

section \<open>The RabbitMQ client is such a broker\<close>

lemma amqp_grows:
  assumes "amqp_bindings A T"
  shows "grows T (amqp_dial A u)" "grows T (amqp_channel A c)" "grows T (amqp_closeConn A c)" "grows T (amqp_closeChannel A c)"
    "grows T (amqp_exchangeDeclare A c x t)" "grows T (amqp_queueDeclare A c q)" "grows T (amqp_queueInspect A c q)"
    "grows T (amqp_queuePurge A c q)" "grows T (amqp_publish A c x k b)" "grows T (amqp_queueBind A c q k x)"
  using assms by (simp_all add: amqp_bindings_def grows_def)

lemma amqp_keeps:
  assumes "amqp_bindings A T"
  shows "keeps_but {(q, x)} T (amqp_queueUnbind A c q k x)" "keeps_but ({q} \<times> UNIV) T (amqp_queueDelete A c q)"
  using assms by (simp_all add: amqp_bindings_def keeps_but_def)

lemma amqp_bound:
  assumes "amqp_bindings A T" "on_net (amqp_queueBind A c q k x) s = (None, s')"
  shows "(q, x) \<in> T (rb_net s')"
proof -
  obtain r n where b: "amqp_queueBind A c q k x (rb_net s) = (r, n)" by fastforce
  then have "r = None" "rb_net s' = n" using assms(2) by (auto simp: on_net_def)
  moreover have "fst (amqp_queueBind A c q k x (rb_net s)) = None \<longrightarrow> (q, x) \<in> T (snd (amqp_queueBind A c q k x (rb_net s)))"
    using assms(1) by (simp add: amqp_bindings_def)
  ultimately show ?thesis by (simp add: b)
qed

lemma rabbit_close_grows:
  assumes A: "amqp_bindings A T"
  shows "T (rb_net s) \<subseteq> T (rb_net (snd (rabbit_close A s)))"
proof -
  define s1 where "s1 = (case rb_ch s of None \<Rightarrow> s | Some ch \<Rightarrow> (snd (on_net (amqp_closeChannel A ch) s))\<lparr>rb_ch := None\<rparr>)"
  have first: "T (rb_net s) \<subseteq> T (rb_net s1)"
    using on_net_grows [OF amqp_grows(4) [OF A] surjective_pairing, of s] by (auto simp: s1_def split: option.split)
  have "snd (rabbit_close A s) = (case rb_conn s1 of None \<Rightarrow> s1
      | Some conn \<Rightarrow> (snd (on_net (amqp_closeConn A conn) s1))\<lparr>rb_conn := None\<rparr>)"
    by (auto simp: rabbit_close_def s1_def Let_def split: option.splits prod.splits)
  then show ?thesis
    using first on_net_grows [OF amqp_grows(3) [OF A] surjective_pairing, of s1] by (auto split: option.split)
qed

lemma rabbit_connect_grows:
  assumes A: "amqp_bindings A T"
  shows "T (rb_net s) \<subseteq> T (rb_net (snd (rabbit_connect A url s)))"
proof -
  define s1 where "s1 = (if rb_ch s \<noteq> None \<or> rb_conn s \<noteq> None then snd (rabbit_close A s) else s)"
  have close: "T (rb_net s) \<subseteq> T (rb_net s1)" using rabbit_close_grows [OF A] by (simp add: s1_def)
  obtain d s2 where d: "on_net (amqp_dial A url) s1 = (d, s2)" by fastforce
  have dial: "T (rb_net s1) \<subseteq> T (rb_net s2)" by (rule on_net_grows [OF amqp_grows(1) [OF A] d])
  show ?thesis
  proof (cases d)
    case (Inl err)
    then show ?thesis using close dial d unfolding rabbit_connect_def Let_def s1_def [symmetric] by simp
  next
    case (Inr conn)
    obtain c s3 where c: "on_net (amqp_channel A conn) s2 = (c, s3)" by fastforce
    have channel: "T (rb_net s2) \<subseteq> T (rb_net s3)" by (rule on_net_grows [OF amqp_grows(2) [OF A] c])
    have "T (rb_net s3) \<subseteq> T (rb_net (snd (on_net (amqp_closeConn A conn) s3)))"
      by (rule on_net_grows [OF amqp_grows(3) [OF A] surjective_pairing])
    then show ?thesis using close dial channel d c Inr
      unfolding rabbit_connect_def Let_def s1_def [symmetric] by (cases c) auto
  qed
qed

text \<open>An operation on the channel: without a channel nothing happens, otherwise its calls run.\<close>

lemma with_channel_keeps_but:
  assumes "\<And>ch. list_all (\<lambda>(msg, f). keeps_but X T f) (calls ch)" "with_channel calls s = (r, s')"
  shows "T (rb_net s) - X \<subseteq> T (rb_net s')"
proof (cases "rb_ch s")
  case None
  then show ?thesis using assms(2) by (auto simp: with_channel_def)
next
  case (Some ch)
  then have "run_calls (calls ch) s = (r, s')" using assms(2) by (simp add: with_channel_def)
  then show ?thesis by (rule run_calls_keeps_but [OF assms(1)])
qed

lemma with_channel_done:
  assumes "with_channel calls s = (None, s')"
  obtains ch where "run_calls (calls ch) s = (None, s')"
  using assms by (auto simp: with_channel_def split: option.splits)

lemma rabbit_bind_calls:
  assumes A: "amqp_bindings A T" and "run_calls [(msg, amqp_queueBind A ch q k x)] s = (None, s')"
  shows "(q, x) \<in> T (rb_net s')"
  using assms(2) by (elim run_calls_done) (auto dest: amqp_bound [OF A])

lemma counted_bound:
  assumes "\<And>s r s'. f s = (r, s') \<Longrightarrow> bound_after ex (bound_queues T ex s) (ev r) \<subseteq> bound_queues T ex s'"
  shows "counted ex (bound_queues T ex) f ev"
  using assms by (simp add: counted_def)

lemma grows_bound: "(\<And>s. T (rb_net s) \<subseteq> T (rb_net (snd (f s)))) \<Longrightarrow> grows (bound_queues T ex) f"
  by (auto simp: grows_def bound_queues_def)

lemma bind_counted:
  assumes A: "amqp_bindings A T" and f: "rabbit_bindQueue A q x k s = (r, s')"
  shows "T (rb_net s) \<subseteq> T (rb_net s')" "r = None \<Longrightarrow> (q, x) \<in> T (rb_net s')"
proof -
  show "T (rb_net s) \<subseteq> T (rb_net s')"
    using with_channel_keeps_but [OF _ f [unfolded rabbit_bindQueue_def], of "{}" T] by (simp add: grows_keeps amqp_grows [OF A])
  show "(q, x) \<in> T (rb_net s')" if "r = None"
    using f that unfolding rabbit_bindQueue_def by (auto elim: with_channel_done dest!: rabbit_bind_calls [OF A])
qed

lemma declare_counted:
  assumes A: "amqp_bindings A T" and f: "rabbit_declareAndBindQueue A q x s = (r, s')"
  shows "T (rb_net s) \<subseteq> T (rb_net s')" "r = None \<Longrightarrow> (q, x) \<in> T (rb_net s')"
proof -
  show "T (rb_net s) \<subseteq> T (rb_net s')"
    using with_channel_keeps_but [OF _ f [unfolded rabbit_declareAndBindQueue_def], of "{}" T]
    by (simp add: grows_keeps amqp_grows [OF A])
  show "(q, x) \<in> T (rb_net s')" if none: "r = None"
  proof -
    obtain ch where "run_calls [(''declare queue '' @ quote q, amqp_queueDeclare A ch q),
        (''bind queue '' @ quote q @ '' to '' @ quote x, amqp_queueBind A ch q '''' x)] s = (None, s')"
      by (rule with_channel_done [OF f [unfolded rabbit_declareAndBindQueue_def none]])
    then show ?thesis by (elim run_calls_done) (auto dest: amqp_bound [OF A])
  qed
qed

lemma create_counted:
  assumes A: "amqp_bindings A T" and f: "rabbit_createSecondaryQueue A q x k s = (r, s')"
  shows "T (rb_net s) \<subseteq> T (rb_net s')" "r = Inr n \<Longrightarrow> {(q, x), (replay_queue q, x)} \<subseteq> T (rb_net s')"
proof -
  obtain e where e: "with_channel (\<lambda>ch. [
            (''declare exchange '' @ quote x, amqp_exchangeDeclare A ch x ''fanout''),
            (''declare queue '' @ quote (replay_queue q), amqp_queueDeclare A ch (replay_queue q)),
            (''bind primary queue '' @ quote q @ '' to '' @ quote x, amqp_queueBind A ch q '''' x),
            (''bind secondary queue '' @ quote (replay_queue q) @ '' to '' @ quote x,
               amqp_queueBind A ch (replay_queue q) '''' x)]) s = (e, s')" "r = Inr n \<Longrightarrow> e = None"
    using f by (auto simp: rabbit_createSecondaryQueue_def Let_def split: prod.splits option.splits)
  show "T (rb_net s) \<subseteq> T (rb_net s')"
    using with_channel_keeps_but [OF _ e(1), of "{}" T] by (simp add: grows_keeps amqp_grows [OF A])
  show "{(q, x), (replay_queue q, x)} \<subseteq> T (rb_net s')" if ok: "r = Inr n"
  proof -
    obtain ch where "run_calls [
            (''declare exchange '' @ quote x, amqp_exchangeDeclare A ch x ''fanout''),
            (''declare queue '' @ quote (replay_queue q), amqp_queueDeclare A ch (replay_queue q)),
            (''bind primary queue '' @ quote q @ '' to '' @ quote x, amqp_queueBind A ch q '''' x),
            (''bind secondary queue '' @ quote (replay_queue q) @ '' to '' @ quote x,
               amqp_queueBind A ch (replay_queue q) '''' x)] s = (None, s')"
      by (rule with_channel_done [OF e(1) [unfolded e(2) [OF ok]]])
    then show ?thesis
    proof (elim run_calls_done)
      fix s1 s2 s3 s4
      assume b3: "on_net (amqp_queueBind A ch q '''' x) s2 = (None, s3)"
        and b4: "on_net (amqp_queueBind A ch (replay_queue q) '''' x) s3 = (None, s4)" and last: "run_calls [] s4 = (None, s')"
      show "{(q, x), (replay_queue q, x)} \<subseteq> T (rb_net s')"
        using amqp_bound [OF A b3] amqp_bound [OF A b4] on_net_grows [OF amqp_grows(10) [OF A] b4] last by auto
    qed
  qed
qed

text \<open>The count is a lower bound of the server's bindings after every operation of the client.\<close>

lemma rabbit_broker_sound:
  assumes A: "amqp_bindings A T"
  shows "broker_sound (rabbit_client A) ex (bound_queues T ex)"
proof -
  have calls: "T (rb_net s) \<subseteq> T (rb_net (snd (rabbit_sendControlMessage A p ty pl s)))" for s p ty pl
  proof -
    have "T (rb_net s) - {} \<subseteq> T (rb_net (snd (rabbit_sendControlMessage A p ty pl s)))"
      unfolding rabbit_sendControlMessage_def
      by (rule with_channel_keeps_but [OF _ surjective_pairing]) (simp add: grows_keeps amqp_grows [OF A])
    then show ?thesis by simp
  qed
  have inspect: "T (rb_net s) \<subseteq> T (rb_net (snd (rabbit_getQueueDepth A q s)))"
    "T (rb_net s) \<subseteq> T (rb_net (snd (rabbit_getQueueStats A q s)))" for s q
    by (auto simp: rabbit_getQueueDepth_def rabbit_getQueueStats_def split: option.split prod.splits sum.splits
        dest: on_net_grows [OF amqp_grows(7) [OF A]])
  have unbind: "T (rb_net s) - {(q, x)} \<subseteq> T (rb_net s')" if "rabbit_unbindQueue A q x s = (r, s')" for q x s r s'
    using with_channel_keeps_but [OF _ that [unfolded rabbit_unbindQueue_def], of "{(q, x)}" T] by (simp add: amqp_keeps [OF A])
  have delete: "T (rb_net s) - {q} \<times> UNIV \<subseteq> T (rb_net s')" if "rabbit_deleteQueue A q s = (r, s')" for q s r s'
    using with_channel_keeps_but [OF _ that [unfolded rabbit_deleteQueue_def], of "{q} \<times> UNIV" T] by (simp add: amqp_keeps [OF A])
  have "keeps_but ({q} \<times> UNIV) T (amqp_queueUnbind A ch q '''' x)" for ch q x
    using amqp_keeps(1) [OF A, of q x ch "''''"] by (auto simp: keeps_but_def)
  then have secondary: "T (rb_net s) - {q} \<times> UNIV \<subseteq> T (rb_net s')" if "rabbit_deleteSecondaryQueue A q p x s = (r, s')"
    for q p x s r s'
    using with_channel_keeps_but [OF _ that [unfolded rabbit_deleteSecondaryQueue_def], of "{q} \<times> UNIV" T]
    by (simp add: amqp_keeps [OF A])
  show ?thesis
    unfolding broker_sound_def rabbit_client_def broker_client.simps
    apply (intro conjI allI grows_bound counted_bound rabbit_connect_grows [OF A] rabbit_close_grows [OF A] inspect calls)
    subgoal for q x k s r s' using create_counted [OF A, of q x k s r s'] by (cases r) (auto simp: bound_queues_def)
    subgoal for q x s r s' using unbind [of q x s r s'] by (auto simp: bound_queues_def)
    subgoal for q p x s r s' using secondary [of q p x s r s'] by (auto simp: bound_queues_def)
    subgoal for q x k s r s' using bind_counted [OF A, of q x k s r s'] by (auto simp: bound_queues_def)
    subgoal for q x s r s' using declare_counted [OF A, of q x s r s'] by (auto simp: bound_queues_def)
    subgoal for q s r s' using delete [of q s r s'] by (auto simp: bound_queues_def)
    done
qed

section \<open>From the trace of a handler to the server\<close>

named_theorems covers_intro \<comment> \<open>syntax-directed rules for \<open>covers\<close>\<close>

text \<open>No other call of the controller removes a binding.\<close>

definition others_keep :: "'w env \<Rightarrow> ('w \<Rightarrow> string set) \<Rightarrow> bool" where
  "others_keep E R \<longleftrightarrow> (\<forall>ns n. grows R (api_getPod E ns n)) \<and> (\<forall>ns n. grows R (api_getSts E ns n)) \<and>
     (\<forall>b m. grows R (api_patchStatus E b m)) \<and> (\<forall>b s. grows R (api_patchSts E b s)) \<and>
     (\<forall>p g. grows R (api_deletePod E p g)) \<and> grows R (clock_now E)"

definition keeps_bindings :: "'w env \<Rightarrow> string \<Rightarrow> ('w \<Rightarrow> string set) \<Rightarrow> bool" where
  "keeps_bindings E ex R \<longleftrightarrow> broker_sound (broker E) ex R \<and> others_keep E R"

definition covers :: "string \<Rightarrow> ('w \<Rightarrow> string set) \<Rightarrow> ('w, 'a) go \<Rightarrow> bool" where
  "covers ex R f \<longleftrightarrow> (\<forall>w. \<exists>es. trace (snd (run_state f w)) = trace w @ es \<and>
     bound_after ex (R (ext w)) es \<subseteq> R (ext (snd (run_state f w))))"

lemma bound_step_mono: "B \<subseteq> B' \<Longrightarrow> bound_step ex B e \<subseteq> bound_step ex B' e"
  by (cases e) auto

lemma bound_after_mono: "B \<subseteq> B' \<Longrightarrow> bound_after ex B es \<subseteq> bound_after ex B' es"
  by (induction es arbitrary: B B') (simp_all add: bound_step_mono)

lemma covers_return [covers_intro]: "covers ex R (go_return a)"
  by (simp add: covers_def)

lemma covers_bind [covers_intro]:
  fixes f :: "('w, 'a) go" and g :: "'a \<Rightarrow> ('w, 'b) go"
  assumes "covers ex R f" "\<And>a. covers ex R (g a)"
  shows "covers ex R (State_Monad.bind f g)"
  unfolding covers_def
proof
  fix w :: "'w world"
  obtain a w1 where r1: "run_state f w = (a, w1)" by fastforce
  obtain b w2 where r2: "run_state (g a) w1 = (b, w2)" by fastforce
  obtain xs where xs: "trace w1 = trace w @ xs" "bound_after ex (R (ext w)) xs \<subseteq> R (ext w1)"
    using assms(1) r1 unfolding covers_def by (metis snd_conv)
  obtain ys where ys: "trace w2 = trace w1 @ ys" "bound_after ex (R (ext w1)) ys \<subseteq> R (ext w2)"
    using assms(2) r2 unfolding covers_def by (metis snd_conv)
  have "bound_after ex (R (ext w)) (xs @ ys) \<subseteq> R (ext w2)"
    using bound_after_mono [OF xs(2), of ex ys] ys(2) by simp
  then show "\<exists>es. trace (snd (run_state (State_Monad.bind f g) w)) = trace w @ es \<and>
      bound_after ex (R (ext w)) es \<subseteq> R (ext (snd (run_state (State_Monad.bind f g) w)))"
    using r1 r2 xs(1) ys(1) by (intro exI [of _ "xs @ ys"]) simp
qed

lemma covers_cases [covers_intro]:
  "(b \<Longrightarrow> covers ex R f) \<Longrightarrow> (\<not> b \<Longrightarrow> covers ex R f') \<Longrightarrow> covers ex R (if b then f else f')"
  "(\<And>a. covers ex R (h a)) \<Longrightarrow> (\<And>a. covers ex R (h' a)) \<Longrightarrow> covers ex R (case_sum h h' s)"
  "covers ex R f \<Longrightarrow> (\<And>a. covers ex R (k a)) \<Longrightarrow> covers ex R (case_option f k x)"
  "(\<And>a c. covers ex R (l a c)) \<Longrightarrow> covers ex R (case_prod l y)"
  by (cases b; cases s; cases x; cases y; simp)+

lemma covers_counted: "counted ex R f ev \<Longrightarrow> covers ex R (ext_call f ev)"
  by (simp add: covers_def counted_def run_ext_call)

lemma covers_grows:
  assumes "grows R f" "\<And>r B. bound_after ex B (ev r) = B"
  shows "covers ex R (ext_call f ev)"
  using assms by (simp add: covers_def grows_def run_ext_call)

lemma covers_calls [covers_intro]:
  assumes "keeps_bindings E ex R"
  shows "covers ex R (getQueueDepth E q)" "covers ex R (getQueueStats E q)" "covers ex R (sendControlMessage E p ty pl)"
    "covers ex R (unbindQueue E q x)" "covers ex R (deleteSecondaryQueue E q p x)" "covers ex R (bindQueue E q x k)"
    "covers ex R (declareAndBindQueue E q x)" "covers ex R (deleteQueue E q)"
    "covers ex R (getPod E ns n)" "covers ex R (getSts E ns n)" "covers ex R (patchStatus E b m)"
    "covers ex R (patchSts E sb s)" "covers ex R (deletePod E po g)" "covers ex R (now E)"
  using assms by (simp_all add: call_defs keeps_bindings_def others_keep_def broker_sound_def covers_counted covers_grows)

lemma covers_helpers [covers_intro]:
  assumes "keeps_bindings E ex R"
  shows "covers ex R (stampTiming E k m)" "covers ex R (elapsedSince E k m)" "covers ex R (since E t)"
    "covers ex R (patchStatusIgnore E b m)" "covers ex R (swapPatch E b m c)"
    "covers ex R (scaleUp E m n)" "covers ex R (killShadowPod E m)"
  unfolding stampTiming_def elapsedSince_def since_def patchStatusIgnore_def swapPatch_def scaleUp_def killShadowPod_def Let_def
  by (intro covers_intro assms)+

lemma covers_fence_stages:
  assumes "keeps_bindings E ex R"
  shows "covers ex R (handleSwapExchangeFence E m)" "covers ex R (handleSwapFenceCutover E m)"
  unfolding handleSwapExchangeFence_def applyFence_def recordFence_def handleSwapFenceCutover_def drainBuffer_def
    finishCutover_def Let_def
  by (intro covers_intro assms)+

lemma serves_mono: "serves q B \<Longrightarrow> B \<subseteq> B' \<Longrightarrow> serves q B'"
  by (auto simp: serves_def)

lemma routed_end: "routed ex q B es \<Longrightarrow> serves q (bound_after ex B es)"
  by (induction es arbitrary: B) auto

lemma stage_keeps_serving:
  assumes "covers ex R f" "yields f (\<lambda>r es. routed ex q (R (ext w)) es)" "run_state f w = (r, w')"
  shows "serves q (R (ext w'))"
proof -
  obtain es where es: "trace w' = trace w @ es" "bound_after ex (R (ext w)) es \<subseteq> R (ext w')"
    using assms(1, 3) unfolding covers_def by (metis snd_conv)
  obtain es' where "trace w' = trace w @ es'" "routed ex q (R (ext w)) es'"
    using yieldsD [OF assms(2, 3)] by blast
  then show ?thesis using es serves_mono [OF routed_end] by auto
qed

text \<open>
  C6: The fence at the server itself. With the RabbitMQ client, on a server that keeps its bindings, and with nobody else
  unbinding the queues of this migration meanwhile: when the primary or the buffer queue is bound to the exchange before the
  exchange fence or the cutover, then one of them still is when the handler is done, whatever calls have failed.
\<close>

theorem fence_stages_keep_server_routed:
  assumes "amqp_bindings A T" "broker E = rabbit_client A" "others_keep E (bound_queues T (exchangeName (mqCfg m)))"
    and "serves (queueName (mqCfg m)) (bound_queues T (exchangeName (mqCfg m)) (ext w))"
  shows "serves (queueName (mqCfg m)) (bound_queues T (exchangeName (mqCfg m))
      (ext (snd (run_state (handleSwapExchangeFence E m) w)))) \<and>
    serves (queueName (mqCfg m)) (bound_queues T (exchangeName (mqCfg m))
      (ext (snd (run_state (handleSwapFenceCutover E m) w))))"
proof -
  let ?ex = "exchangeName (mqCfg m)"
  have "keeps_bindings E ?ex (bound_queues T ?ex)"
    using rabbit_broker_sound [OF assms(1), of ?ex] assms(2, 3) by (simp add: keeps_bindings_def)
  note covers = covers_fence_stages [OF this, of m]
  from stage_keeps_serving [OF covers(1) routed_fence [OF assms(4)] surjective_pairing]
    stage_keeps_serving [OF covers(2) routed_cutover [OF assms(4)] surjective_pairing]
  show ?thesis ..
qed

end
