(* ===== verification/Kubelet.thy ===== *)
theory Kubelet
  imports Prelude GoText
begin

text \<open>
  The kubelet client of \<open>internal/kubelet/client.go\<close>, and the image built from a checkpoint,
  \<open>internal/checkpoint/image.go\<close>. The REST client of the Kubernetes library and the container-registry library
  are parameters.
\<close>

section \<open>Checkpoint\<close>

text \<open>
  The reply to a POST on the path of a node: its error, its status code, and its body or the error of
  reading it. The body is decoded by \<open>json.Unmarshal\<close> into the list \<open>items\<close>.
\<close>

record rest_result =
  rr_error :: "go_error option"
  rr_statusCode :: int
  rr_raw :: "go_error + string"

record 'w rest_client =
  rest_post :: "string \<Rightarrow> string \<Rightarrow> string list \<Rightarrow> 'w \<Rightarrow> rest_result \<times> 'w"
  rest_unmarshal :: "string \<Rightarrow> go_error + string list"

definition missing_parameters :: "string \<Rightarrow> string \<Rightarrow> string \<Rightarrow> string \<Rightarrow> go_error" where
  "missing_parameters nodeName namespace podName containerName =
     ErrorString (''all checkpoint parameters are required (node='' @ quote nodeName @ '', ns='' @ quote namespace @
       '', pod='' @ quote podName @ '', container='' @ quote containerName @ '')'')"

definition checkpoint_result ::
    "'w rest_client \<Rightarrow> string \<Rightarrow> string \<Rightarrow> string \<Rightarrow> string \<Rightarrow> rest_result \<Rightarrow> go_error + string list" where
  "checkpoint_result R nodeName namespace podName containerName result =
     (let what = namespace @ ''/'' @ podName @ ''/'' @ containerName in
      case rr_error result of
        Some err \<Rightarrow> Inl (Wrapped (''checkpoint request for container '' @ what @ '' on node '' @ nodeName @ '' failed'') err)
      | None \<Rightarrow>
          if rr_statusCode result \<noteq> 200
          then Inl (ErrorString (''checkpoint returned unexpected status '' @ show_int (rr_statusCode result) @
                 '' for '' @ what @ '' on '' @ nodeName))
          else (case rr_raw result of
              Inl err \<Rightarrow> Inl (Wrapped ''reading checkpoint response body'' err)
            | Inr rawBody \<Rightarrow> (case rest_unmarshal R rawBody of
                  Inl err \<Rightarrow> Inl (Wrapped ''parsing checkpoint response'' err)
                | Inr items \<Rightarrow> Inr items)))"

definition Checkpoint ::
    "'w rest_client \<Rightarrow> string \<Rightarrow> string \<Rightarrow> string \<Rightarrow> string \<Rightarrow> 'w \<Rightarrow> (go_error + string list) \<times> 'w" where
  "Checkpoint R nodeName namespace podName containerName w =
     (if nodeName = '''' \<or> namespace = '''' \<or> podName = '''' \<or> containerName = ''''
      then (Inl (missing_parameters nodeName namespace podName containerName), w)
      else (case rest_post R ''nodes'' nodeName [''proxy'', ''checkpoint'', namespace, podName, containerName] w of
          (result, w') \<Rightarrow> (checkpoint_result R nodeName namespace podName containerName result, w')))"

text \<open>
  The checkpoint request gives items back exactly when no parameter is empty, the request to the node's checkpoint end point
  was answered with status 200, and the body could be read and parsed; the items are those of the body.
\<close>

lemma Checkpoint_ok_iff:
  "fst (Checkpoint R n ns p c w) = Inr items \<longleftrightarrow>
     n \<noteq> '''' \<and> ns \<noteq> '''' \<and> p \<noteq> '''' \<and> c \<noteq> '''' \<and>
     (let r = fst (rest_post R ''nodes'' n [''proxy'', ''checkpoint'', ns, p, c] w) in
        rr_error r = None \<and> rr_statusCode r = 200 \<and>
        (\<exists>body. rr_raw r = Inr body \<and> rest_unmarshal R body = Inr items))"
  by (auto simp: Checkpoint_def checkpoint_result_def Let_def split: prod.splits option.splits sum.splits if_splits)

text \<open>With a parameter missing nothing is sent.\<close>

lemma Checkpoint_missing:
  "n = '''' \<or> ns = '''' \<or> p = '''' \<or> c = '''' \<Longrightarrow> snd (Checkpoint R n ns p c w) = w"
  by (auto simp: Checkpoint_def)

section \<open>The checkpoint image\<close>

record ('layer, 'img) image_lib =
  img_layerFromFile :: "string \<Rightarrow> go_error + 'layer"
  img_empty :: 'img
  img_mediaType :: "'img \<Rightarrow> string \<Rightarrow> 'img"
  img_configMediaType :: "'img \<Rightarrow> string \<Rightarrow> 'img"
  img_appendLayers :: "'img \<Rightarrow> 'layer \<Rightarrow> go_error + 'img"
  img_annotations :: "'img \<Rightarrow> (string \<times> string) list \<Rightarrow> 'img"

definition checkpoint_annotation :: string where
  "checkpoint_annotation = ''io.kubernetes.cri-o.annotations.checkpoint.name''"

definition BuildCheckpointImage :: "('layer, 'img) image_lib \<Rightarrow> string \<Rightarrow> string \<Rightarrow> go_error + 'img" where
  "BuildCheckpointImage L checkpointPath containerName = (case img_layerFromFile L checkpointPath of
      Inl err \<Rightarrow> Inl (Wrapped ''creating layer from checkpoint'' err)
    | Inr layer \<Rightarrow>
        (let base = img_mediaType L (img_empty L) ''application/vnd.oci.image.manifest.v1+json'';
             base' = img_configMediaType L base ''application/vnd.oci.image.config.v1+json''
         in case img_appendLayers L base' layer of
              Inl err \<Rightarrow> Inl (Wrapped ''appending layer to image'' err)
            | Inr img \<Rightarrow> Inr (if containerName \<noteq> ''''
                 then img_annotations L img [(checkpoint_annotation, containerName)] else img)))"

end
