(* ===== verification/Agent.thy ===== *)
theory Agent
  imports Helpers Kubelet
begin

text \<open>
  The node agent, \<open>cmd/ms2m-agent/main.go\<close>: the upload handler \<open>ServeHTTP\<close>, \<open>localLoad\<close> and \<open>registryPush\<close>, their HTTP
  handlers, and \<open>main\<close> with its command line. The node is a parameter: the record \<open>host\<close> holds the file system, the image
  library, \<open>skopeo\<close> and the registry client, each a function on an unknown state. The calls that make or remove files and
  those that load or push an image are put on a trace.
\<close>

section \<open>The node\<close>

record ('w, 'layer, 'img, 'file) host =
  h_images :: "'w \<Rightarrow> ('layer, 'img) image_lib"
  h_join :: "string \<Rightarrow> string \<Rightarrow> string"
  h_unixNano :: "'w \<Rightarrow> int \<times> 'w"
  h_create :: "string \<Rightarrow> 'w \<Rightarrow> go_error option \<times> 'w"
  h_copy :: "string \<Rightarrow> 'file \<Rightarrow> 'w \<Rightarrow> go_error option \<times> 'w"
  h_mkdirAll :: "string \<Rightarrow> 'w \<Rightarrow> go_error option \<times> 'w"
  h_mkdirTemp :: "string \<Rightarrow> 'w \<Rightarrow> (go_error + string) \<times> 'w"
  h_remove :: "string \<Rightarrow> 'w \<Rightarrow> go_error option \<times> 'w"
  h_removeAll :: "string \<Rightarrow> 'w \<Rightarrow> go_error option \<times> 'w"
  h_layoutWrite :: "string \<Rightarrow> 'w \<Rightarrow> go_error option \<times> 'w"
  h_appendImage :: "string \<Rightarrow> 'img \<Rightarrow> 'w \<Rightarrow> go_error option \<times> 'w"
  h_command :: "string \<Rightarrow> string list \<Rightarrow> 'w \<Rightarrow> (string \<times> go_error option) \<times> 'w"
  h_cranePush :: "'img \<Rightarrow> string \<Rightarrow> bool \<Rightarrow> 'w \<Rightarrow> go_error option \<times> 'w"
  h_getenv :: "string \<Rightarrow> string"
  h_listen :: "string \<Rightarrow> 'w \<Rightarrow> go_error option \<times> 'w"

datatype host_event =
    HMake string bool
  | HRemove string bool
  | HLoad string string bool
  | HPush string bool bool

record 'w node =
  nd_ext :: 'w
  nd_trace :: "host_event list"

type_synonym ('w, 'a) hgo = "('w node, 'a) state"

definition host_call :: "('w \<Rightarrow> 'r \<times> 'w) \<Rightarrow> ('r \<Rightarrow> host_event list) \<Rightarrow> ('w, 'r) hgo" where
  "host_call f ev = State (\<lambda>w. case f (nd_ext w) of (r, x) \<Rightarrow> (r, w\<lparr>nd_ext := x, nd_trace := nd_trace w @ ev r\<rparr>))"

lemma run_host_call:
  "run_state (host_call f ev) w =
     (fst (f (nd_ext w)), w\<lparr>nd_ext := snd (f (nd_ext w)), nd_trace := nd_trace w @ ev (fst (f (nd_ext w)))\<rparr>)"
  by (simp add: host_call_def split: prod.split)

text \<open>\<open>leaves f Q\<close>: from every state of the node, the result of \<open>f\<close> and the events it adds satisfy \<open>Q\<close>.\<close>

named_theorems leaves_intro \<comment> \<open>syntax-directed rules for \<open>leaves\<close>\<close>

definition leaves :: "('w, 'a) hgo \<Rightarrow> ('a \<Rightarrow> host_event list \<Rightarrow> bool) \<Rightarrow> bool" where
  "leaves f Q \<longleftrightarrow> (\<forall>w. \<exists>es. nd_trace (snd (run_state f w)) = nd_trace w @ es \<and> Q (fst (run_state f w)) es)"

lemma leaves_return [leaves_intro]: "Q a [] \<Longrightarrow> leaves (State_Monad.return a) Q"
  by (simp add: leaves_def)

lemma leaves_call: "(\<And>r. Q r (ev r)) \<Longrightarrow> leaves (host_call f ev) Q"
  by (simp add: leaves_def run_host_call)

lemma leaves_bind:
  fixes f :: "('w, 'a) hgo" and g :: "'a \<Rightarrow> ('w, 'b) hgo"
  assumes "leaves f R" and "\<And>a es. R a es \<Longrightarrow> leaves (g a) (\<lambda>b es'. Q b (es @ es'))"
  shows "leaves (State_Monad.bind f g) Q"
  unfolding leaves_def
proof
  fix w :: "'w node"
  obtain a w1 where f: "run_state f w = (a, w1)" by fastforce
  obtain b w2 where g: "run_state (g a) w1 = (b, w2)" by fastforce
  from assms(1) f obtain es where es: "nd_trace w1 = nd_trace w @ es" "R a es"
    unfolding leaves_def by (metis fst_conv snd_conv)
  from assms(2) [OF es(2)] g obtain es' where "nd_trace w2 = nd_trace w1 @ es'" "Q b (es @ es')"
    unfolding leaves_def by (metis fst_conv snd_conv)
  with es f g show "\<exists>es. nd_trace (snd (run_state (State_Monad.bind f g) w)) = nd_trace w @ es \<and>
      Q (fst (run_state (State_Monad.bind f g) w)) es"
    by (intro exI [of _ "es @ es'"]) simp
qed

lemma leaves_mono: "leaves f R \<Longrightarrow> (\<And>a es. R a es \<Longrightarrow> Q a es) \<Longrightarrow> leaves f Q"
  unfolding leaves_def by blast

lemma leaves_call_bind [leaves_intro]:
  "(\<And>r. leaves (g r) (\<lambda>b es. Q b (ev r @ es))) \<Longrightarrow> leaves (State_Monad.bind (host_call f ev) g) Q"
  by (rule leaves_bind [where R = "\<lambda>r es. es = ev r"], rule leaves_call) simp_all

lemma leaves_cases [leaves_intro]:
  "(b \<Longrightarrow> leaves f Q) \<Longrightarrow> (\<not> b \<Longrightarrow> leaves f' Q) \<Longrightarrow> leaves (if b then f else f') Q"
  "(\<And>a. s = Inl a \<Longrightarrow> leaves (h a) Q) \<Longrightarrow> (\<And>a. s = Inr a \<Longrightarrow> leaves (h' a) Q) \<Longrightarrow> leaves (case_sum h h' s) Q"
  "(x = None \<Longrightarrow> leaves f Q) \<Longrightarrow> (\<And>a. x = Some a \<Longrightarrow> leaves (k a) Q) \<Longrightarrow> leaves (case_option f k x) Q"
  "(\<And>a c. y = (a, c) \<Longrightarrow> leaves (l a c) Q) \<Longrightarrow> leaves (case_prod l y) Q"
  by (cases b; cases s; cases x; cases y; simp)+

section \<open>Building an image\<close>

text \<open>\<open>checkpoint.BuildCheckpointImage\<close> reads the file as it is at that moment.\<close>

definition buildImage :: "('w, 'layer, 'img, 'file) host \<Rightarrow> string \<Rightarrow> string \<Rightarrow> ('w, go_error + 'img) hgo" where
  "buildImage H tarPath containerName =
     State (\<lambda>w. (BuildCheckpointImage (h_images H (nd_ext w)) tarPath containerName, w))"

text \<open>
  The OCI layout in \<open>layoutDir\<close>, from an empty index and the image; \<open>wrap\<close> is how the caller reports an error.
\<close>

definition writeLayout ::
    "('w, 'layer, 'img, 'file) host \<Rightarrow> string \<Rightarrow> 'img \<Rightarrow> ('w, (string \<times> go_error) option) hgo" where
  "writeLayout H layoutDir img = do {
     e \<leftarrow> host_call (h_layoutWrite H layoutDir) (\<lambda>_. []);
     case e of
       Some err \<Rightarrow> State_Monad.return (Some (''write layout'', err))
     | None \<Rightarrow> do {
         a \<leftarrow> host_call (h_appendImage H layoutDir img) (\<lambda>_. []);
         State_Monad.return (map_option (\<lambda>err. (''append image'', err)) a)
       }
   }"

definition skopeoCopy :: "('w, 'layer, 'img, 'file) host \<Rightarrow> string \<Rightarrow> string \<Rightarrow> ('w, go_error option) hgo" where
  "skopeoCopy H layoutDir imageTag = do {
     r \<leftarrow> host_call (h_command H ''skopeo'' [''copy'', ''oci:'' @ layoutDir, ''containers-storage:'' @ imageTag])
            (\<lambda>r. [HLoad layoutDir imageTag (snd r = None)]);
     State_Monad.return (case r of
         (_, None) \<Rightarrow> None
       | (output, Some err) \<Rightarrow> Some (ErrorString (''skopeo copy: '' @ err_text err @ '': '' @ output)))
   }"

section \<open>localLoad and registryPush\<close>

text \<open>Everything after the temporary directory exists; the directory is removed when this returns.\<close>

definition loadFrom :: "('w, 'layer, 'img, 'file) host \<Rightarrow> string \<Rightarrow> 'img \<Rightarrow> string \<Rightarrow> ('w, go_error option) hgo" where
  "loadFrom H layoutDir img imageTag = do {
     e \<leftarrow> writeLayout H layoutDir img;
     case e of
       Some (msg, err) \<Rightarrow> State_Monad.return (Some (Wrapped msg err))
     | None \<Rightarrow> skopeoCopy H layoutDir imageTag
   }"

definition localLoad ::
    "('w, 'layer, 'img, 'file) host \<Rightarrow> string \<Rightarrow> string \<Rightarrow> string \<Rightarrow> ('w, go_error option) hgo" where
  "localLoad H tarPath containerName imageTag = do {
     b \<leftarrow> buildImage H tarPath containerName;
     case b of
       Inl err \<Rightarrow> State_Monad.return (Some (Wrapped ''build image'' err))
     | Inr img \<Rightarrow> do {
         d \<leftarrow> host_call (h_mkdirTemp H ''swap-oci-*'') (\<lambda>r. case r of Inl _ \<Rightarrow> [] | Inr dir \<Rightarrow> [HMake dir True]);
         case d of
           Inl err \<Rightarrow> State_Monad.return (Some (Wrapped ''mkdirtemp'' err))
         | Inr layoutDir \<Rightarrow> do {
             r \<leftarrow> loadFrom H layoutDir img imageTag;
             _ \<leftarrow> host_call (h_removeAll H layoutDir) (\<lambda>e. [HRemove layoutDir (e = None)]);
             State_Monad.return r
           }
       }
   }"

definition registryPush ::
    "('w, 'layer, 'img, 'file) host \<Rightarrow> string \<Rightarrow> string \<Rightarrow> string \<Rightarrow> bool \<Rightarrow> ('w, go_error option) hgo" where
  "registryPush H tarPath containerName imageRef insecure = do {
     b \<leftarrow> buildImage H tarPath containerName;
     case b of
       Inl err \<Rightarrow> State_Monad.return (Some (Wrapped ''build image'' err))
     | Inr img \<Rightarrow> do {
         e \<leftarrow> host_call (h_cranePush H img imageRef insecure) (\<lambda>e. [HPush imageRef insecure (e = None)]);
         State_Monad.return (map_option (Wrapped ''push image'') e)
       }
   }"

section \<open>The HTTP handlers\<close>

text \<open>A reply is the status code and the body; \<open>http.Error\<close> ends the body with a new line.\<close>

definition http_error :: "string \<Rightarrow> int \<Rightarrow> int \<times> string" where
  "http_error msg code = (code, msg @ [CHR 0x0A])"

definition error_reply :: "string \<Rightarrow> go_error \<Rightarrow> int \<Rightarrow> int \<times> string" where
  "error_reply what err code = http_error (what @ '': '' @ err_text err) code"

definition method_not_allowed :: "int \<times> string" where
  "method_not_allowed = http_error ''method not allowed'' 405"

text \<open>
  The members of a request body: \<open>encoding/json\<close> fills a field from the last member whose name is that of the field up to
  the case of letters; null leaves the field alone and a value of another type is an error.
\<close>

datatype member_value = MString string | MBool bool | MNull | MOther

definition lower_char :: "char \<Rightarrow> char" where
  "lower_char c = (if 65 \<le> (of_char c :: nat) \<and> (of_char c :: nat) \<le> 90 then char_of ((of_char c :: nat) + 32) else c)"

definition field_name :: "string \<Rightarrow> string \<Rightarrow> bool" where
  "field_name f k \<longleftrightarrow> map lower_char k = map lower_char f"

fun fill_string :: "(string \<times> member_value) list \<Rightarrow> string \<Rightarrow> string \<Rightarrow> string option" where
  "fill_string [] f v = Some v"
| "fill_string ((k, MString s) # ms) f v = fill_string ms f (if field_name f k then s else v)"
| "fill_string ((k, MNull) # ms) f v = fill_string ms f v"
| "fill_string ((k, _) # ms) f v = (if field_name f k then None else fill_string ms f v)"

fun fill_bool :: "(string \<times> member_value) list \<Rightarrow> string \<Rightarrow> bool \<Rightarrow> bool option" where
  "fill_bool [] f v = Some v"
| "fill_bool ((k, MBool b) # ms) f v = fill_bool ms f (if field_name f k then b else v)"
| "fill_bool ((k, MNull) # ms) f v = fill_bool ms f v"
| "fill_bool ((k, _) # ms) f v = (if field_name f k then None else fill_bool ms f v)"

text \<open>
  A request: its method, the members of its body (or the error of the decoder), and what \<open>ParseMultipartForm\<close>, \<open>FormFile\<close> and
  \<open>FormValue\<close> find in it.
\<close>

record 'file request =
  rq_method :: string
  rq_body :: "go_error + (string \<times> member_value) list"
  rq_typeError :: go_error
  rq_parseForm :: "go_error option"
  rq_file :: "go_error + 'file"
  rq_containerName :: string

definition handleLocalLoad ::
    "('w, 'layer, 'img, 'file) host \<Rightarrow> 'file request \<Rightarrow> ('w, int \<times> string) hgo" where
  "handleLocalLoad H r =
     (if rq_method r \<noteq> ''POST'' then State_Monad.return method_not_allowed
      else case rq_body r of
        Inl err \<Rightarrow> State_Monad.return (error_reply ''decode request'' err 400)
      | Inr ms \<Rightarrow> (case (fill_string ms ''tarPath'' '''', fill_string ms ''containerName'' '''', fill_string ms ''imageTag'' '''') of
          (Some tarPath, Some containerName, Some imageTag) \<Rightarrow> do {
            e \<leftarrow> localLoad H tarPath containerName imageTag;
            State_Monad.return (case e of
                Some err \<Rightarrow> error_reply ''local-load'' err 500
              | None \<Rightarrow> (200, ''local-load completed successfully''))
          }
        | _ \<Rightarrow> State_Monad.return (error_reply ''decode request'' (rq_typeError r) 400)))"

definition handleRegistryPush ::
    "('w, 'layer, 'img, 'file) host \<Rightarrow> 'file request \<Rightarrow> ('w, int \<times> string) hgo" where
  "handleRegistryPush H r =
     (if rq_method r \<noteq> ''POST'' then State_Monad.return method_not_allowed
      else case rq_body r of
        Inl err \<Rightarrow> State_Monad.return (error_reply ''decode request'' err 400)
      | Inr ms \<Rightarrow> (case (fill_string ms ''tarPath'' '''', fill_string ms ''containerName'' '''',
            fill_string ms ''imageRef'' '''', fill_bool ms ''insecure'' False) of
          (Some tarPath, Some containerName, Some imageRef, Some insecure) \<Rightarrow> do {
            e \<leftarrow> registryPush H tarPath containerName imageRef insecure;
            State_Monad.return (case e of
                Some err \<Rightarrow> error_reply ''registry-push'' err 500
              | None \<Rightarrow> (200, ''registry-push completed successfully''))
          }
        | _ \<Rightarrow> State_Monad.return (error_reply ''decode request'' (rq_typeError r) 400)))"

text \<open>The upload of a checkpoint by the transfer tool (Direct mode).\<close>

definition uploadImage ::
    "('w, 'layer, 'img, 'file) host \<Rightarrow> string \<Rightarrow> string \<Rightarrow> bool \<Rightarrow> ('w, (int \<times> string) option) hgo" where
  "uploadImage H tarPath containerName skipLoad = do {
     b \<leftarrow> buildImage H tarPath containerName;
     case b of
       Inl err \<Rightarrow> State_Monad.return (Some (error_reply ''build image'' err 500))
     | Inr img \<Rightarrow> do {
         let layoutDir = tarPath @ ''-oci'';
         d \<leftarrow> host_call (h_mkdirAll H layoutDir) (\<lambda>e. [HMake layoutDir (e = None)]);
         case d of
           Some err \<Rightarrow> State_Monad.return (Some (error_reply ''mkdir'' err 500))
         | None \<Rightarrow> do {
             e \<leftarrow> writeLayout H layoutDir img;
             case e of
               Some (msg, err) \<Rightarrow> State_Monad.return (Some (error_reply msg err 500))
             | None \<Rightarrow>
                 if \<not> skipLoad then do {
                   s \<leftarrow> skopeoCopy H layoutDir (''localhost/checkpoint/'' @ containerName @ '':latest'');
                   State_Monad.return (map_option (\<lambda>err. http_error (err_text err) 500) s)
                 } else State_Monad.return None
           }
       }
   }"

definition storeUpload ::
    "('w, 'layer, 'img, 'file) host \<Rightarrow> string \<Rightarrow> bool \<Rightarrow> 'file \<Rightarrow> string \<Rightarrow> ('w, int \<times> string) hgo" where
  "storeUpload H storageDir skipLoad file containerName = do {
     t \<leftarrow> host_call (h_unixNano H) (\<lambda>_. []);
     let tarPath = h_join H storageDir (''checkpoint-'' @ show_int t @ ''.tar'');
     c \<leftarrow> host_call (h_create H tarPath) (\<lambda>e. [HMake tarPath (e = None)]);
     case c of
       Some err \<Rightarrow> State_Monad.return (error_reply ''create file'' err 500)
     | None \<Rightarrow> do {
         w \<leftarrow> host_call (h_copy H tarPath file) (\<lambda>_. []);
         case w of
           Some err \<Rightarrow> State_Monad.return (error_reply ''write file'' err 500)
         | None \<Rightarrow> do {
             u \<leftarrow> uploadImage H tarPath containerName skipLoad;
             case u of
               Some reply \<Rightarrow> State_Monad.return reply
             | None \<Rightarrow> do {
                 _ \<leftarrow> host_call (h_remove H tarPath) (\<lambda>e. [HRemove tarPath (e = None)]);
                 _ \<leftarrow> host_call (h_removeAll H (tarPath @ ''-oci'')) (\<lambda>e. [HRemove (tarPath @ ''-oci'') (e = None)]);
                 State_Monad.return (200, ''checkpoint loaded successfully'')
               }
           }
       }
   }"

definition serveCheckpoint ::
    "('w, 'layer, 'img, 'file) host \<Rightarrow> string \<Rightarrow> bool \<Rightarrow> 'file request \<Rightarrow> ('w, int \<times> string) hgo" where
  "serveCheckpoint H storageDir skipLoad r =
     (if rq_method r \<noteq> ''POST'' then State_Monad.return method_not_allowed
      else case rq_parseForm r of
        Some err \<Rightarrow> State_Monad.return (error_reply ''parse form'' err 400)
      | None \<Rightarrow> (case rq_file r of
            Inl err \<Rightarrow> State_Monad.return (error_reply ''get file'' err 400)
          | Inr file \<Rightarrow> storeUpload H storageDir skipLoad file (rq_containerName r)))"

section \<open>The server and the command line\<close>

definition agent_mux ::
    "('w, 'layer, 'img, 'file) host \<Rightarrow> string \<Rightarrow> string \<Rightarrow> 'file request \<Rightarrow> ('w, int \<times> string) hgo" where
  "agent_mux H storageDir path r =
     (if path = ''/checkpoint'' then serveCheckpoint H storageDir False r
      else if path = ''/local-load'' then handleLocalLoad H r
      else if path = ''/registry-push'' then handleRegistryPush H r
      else State_Monad.return (http_error ''404 page not found'' 404))"

definition env_or :: "('w, 'layer, 'img, 'file) host \<Rightarrow> string \<Rightarrow> string \<Rightarrow> string" where
  "env_or H name fallback = (if h_getenv H name = '''' then fallback else h_getenv H name)"

text \<open>\<open>main\<close>, from the arguments of the process to its exit code.\<close>

definition agent_main :: "('w, 'layer, 'img, 'file) host \<Rightarrow> string list \<Rightarrow> ('w, int) hgo" where
  "agent_main H args =
     (if 1 < length args \<and> args ! 1 = ''local-load'' then
        if length args \<noteq> 5 then State_Monad.return 1
        else do {
          e \<leftarrow> localLoad H (args ! 2) (args ! 3) (args ! 4);
          State_Monad.return (if e = None then 0 else 1)
        }
      else do {
        let storageDir = env_or H ''STORAGE_DIR'' ''/var/lib/ms2m/incoming'';
        _ \<leftarrow> host_call (h_mkdirAll H storageDir) (\<lambda>e. [HMake storageDir (e = None)]);
        e \<leftarrow> host_call (h_listen H ('':'' @ env_or H ''PORT'' ''9443'')) (\<lambda>_. []);
        State_Monad.return (if e = None then 0 else 1)
      })"

section \<open>What is left on the node\<close>

lemma leaves_buildImage [leaves_intro]:
  "(\<And>r. leaves (g r) Q) \<Longrightarrow> leaves (State_Monad.bind (buildImage H p n) g) Q"
  by (simp add: leaves_def buildImage_def)

lemma leaves_writeLayout [leaves_intro]:
  "(\<And>r. leaves (g r) Q) \<Longrightarrow> leaves (State_Monad.bind (writeLayout H d img) g) Q"
  by (rule leaves_bind [where R = "\<lambda>_ es. es = []"]) (auto simp: writeLayout_def intro!: leaves_intro)

lemma leaves_skopeoCopy:
  "leaves (skopeoCopy H d tag) (\<lambda>r es. es = [HLoad d tag (r = None)])"
  unfolding skopeoCopy_def by (intro leaves_intro) (auto split: option.splits)

lemma leaves_loadFrom:
  "leaves (loadFrom H d img tag) (\<lambda>r es. es = [HLoad d tag (r = None)] \<or> es = [] \<and> r \<noteq> None)"
  unfolding loadFrom_def by (intro leaves_intro leaves_mono [OF leaves_skopeoCopy]) simp_all

text \<open>
  C32: The local load, on every path: it makes one temporary directory, loads the image from it under the given tag, and
  removes the directory whatever happened; it succeeds exactly when the image has been loaded.
\<close>

theorem local_load_outcomes:
  "leaves (localLoad H tarPath containerName imageTag) (\<lambda>r es.
     (es = [] \<and> r \<noteq> None) \<or>
     (\<exists>dir loaded removed. es = HMake dir True # loaded @ [HRemove dir removed] \<and>
        (loaded = [HLoad dir imageTag (r = None)] \<or> loaded = [] \<and> r \<noteq> None)))"
  unfolding localLoad_def
proof (intro leaves_intro leaves_bind [OF leaves_loadFrom], goal_cases)
  case (3 b img d dir a es r)
  then show ?case by auto
qed auto

text \<open>The upload makes two paths, the tar file and the directory of the layout next to it.\<close>

definition made :: "host_event list \<Rightarrow> string set" where
  "made es = {p. HMake p True \<in> set es}"

definition removal_tried :: "host_event list \<Rightarrow> string set" where
  "removal_tried es = {p. \<exists>ok. HRemove p ok \<in> set es}"

lemma made_simps [simp]:
  "made [] = {}" "made (HMake p ok # es) = (if ok then insert p (made es) else made es)"
  "made (HLoad d t ok # es) = made es" "made (HRemove p ok # es) = made es" "made (HPush i b ok # es) = made es"
  "made (xs @ ys) = made xs \<union> made ys"
  by (auto simp: made_def)

lemma removal_tried_simps [simp]:
  "removal_tried [] = {}" "removal_tried (HRemove p ok # es) = insert p (removal_tried es)"
  "removal_tried (HMake p ok # es) = removal_tried es" "removal_tried (HLoad d t ok # es) = removal_tried es"
  "removal_tried (HPush i b ok # es) = removal_tried es"
  "removal_tried (xs @ ys) = removal_tried xs \<union> removal_tried ys"
  by (auto simp: removal_tried_def)

lemma leaves_uploadImage:
  "leaves (uploadImage H tarPath n skip) (\<lambda>r es. removal_tried es = {} \<and>
     (case r of Some reply \<Rightarrow> fst reply = 500 \<and> made es \<subseteq> {tarPath @ ''-oci''}
      | None \<Rightarrow> made es = {tarPath @ ''-oci''} \<and>
          (skip \<or> HLoad (tarPath @ ''-oci'') (''localhost/checkpoint/'' @ n @ '':latest'') True \<in> set es)))"
  unfolding uploadImage_def Let_def
  by (intro leaves_intro leaves_bind [OF leaves_skopeoCopy])
    (auto simp: error_reply_def http_error_def split: option.splits)

text \<open>
  C31: An upload answered with 200 has loaded the image and has tried to remove both paths it made. Any other answer removes
  nothing: once the tar file is there, every error leaves it, and the directory if it was made, on the node.
\<close>

theorem upload_cleans_up_iff_ok:
  "leaves (serveCheckpoint H storageDir skip r) (\<lambda>reply es. \<exists>tarPath. made es \<subseteq> {tarPath, tarPath @ ''-oci''} \<and>
     (if fst reply = 200 then
        made es = {tarPath, tarPath @ ''-oci''} \<and> removal_tried es = made es \<and>
        (skip \<or> HLoad (tarPath @ ''-oci'') (''localhost/checkpoint/'' @ rq_containerName r @ '':latest'') True \<in> set es)
      else fst reply \<in> {400, 405, 500} \<and> removal_tried es = {}))"
  unfolding serveCheckpoint_def storeUpload_def Let_def method_not_allowed_def
  by (intro leaves_intro leaves_bind [OF leaves_uploadImage])
    (auto simp: error_reply_def http_error_def split: option.splits)

end
