(* ===== verification/TransferTool.thy ===== *)
theory TransferTool
  imports Agent
begin

text \<open>
  The transfer tool, \<open>cmd/checkpoint-transfer/main.go\<close>, which the transfer job runs on the source node: its command line,
  the push to a registry, and the direct upload, whose form is written by a goroutine into a pipe that the HTTP
  client reads. The node is the record \<open>host\<close> of theory \<open>Agent\<close>; the upload is one more parameter.
\<close>

section \<open>The registry\<close>

definition registryTransfer ::
    "('w, 'layer, 'img, 'file) host \<Rightarrow> string \<Rightarrow> string \<Rightarrow> string \<Rightarrow> ('w, go_error option) hgo" where
  "registryTransfer H checkpointPath imageRef containerName = do {
     b \<leftarrow> buildImage H checkpointPath containerName;
     case b of
       Inl err \<Rightarrow> State_Monad.return (Some (Wrapped ''building image'' err))
     | Inr img \<Rightarrow> do {
         let insecure = (h_getenv H ''INSECURE_REGISTRY'' \<noteq> '''');
         e \<leftarrow> host_call (h_cranePush H img imageRef insecure) (\<lambda>e. [HPush imageRef insecure (e = None)]);
         State_Monad.return (map_option (Wrapped ''pushing image'') e)
       }
   }"

section \<open>The direct upload\<close>

text \<open>The writes of the goroutine, and the message each error is wrapped with.\<close>

datatype form_write = WriteName string | CreatePart | CopyFile | CloseForm

definition form_writes :: "string \<Rightarrow> form_write list" where
  "form_writes containerName =
     (if containerName \<noteq> '''' then [WriteName containerName] else []) @ [CreatePart, CopyFile, CloseForm]"

fun wrap_write :: "form_write \<Rightarrow> go_error \<Rightarrow> go_error" where
  "wrap_write (WriteName _) e = Wrapped ''writing containerName field'' e"
| "wrap_write CreatePart e = Wrapped ''creating form file'' e"
| "wrap_write CopyFile e = Wrapped ''copying checkpoint data'' e"
| "wrap_write CloseForm e = e"

text \<open>
  The goroutine: \<open>out\<close> tells how each write ends. The result is the list of the values sent on the channel \<open>errCh\<close>, where
  \<open>None\<close> is nil.
\<close>

fun write_form :: "(form_write \<Rightarrow> go_error option) \<Rightarrow> form_write list \<Rightarrow> go_error option list" where
  "write_form out [] = []"
| "write_form out (CloseForm # ws) = [out CloseForm]"
| "write_form out (w # ws) = (case out w of Some e \<Rightarrow> [Some (wrap_write w e)] | None \<Rightarrow> write_form out ws)"

text \<open>
  The HTTP client reads the pipe while the goroutine writes into it. What comes of the two together is decided outside: the
  answer of the server or an error, and how each write ends.
\<close>

type_synonym 'w upload =
  "string \<Rightarrow> form_write list \<Rightarrow> 'w \<Rightarrow> ((go_error + int \<times> string) \<times> (form_write \<Rightarrow> go_error option)) \<times> 'w"

text \<open>\<open>None\<close> as a result: the receive from \<open>errCh\<close> blocks forever.\<close>

definition upload_result ::
    "(go_error + int \<times> string) \<Rightarrow> go_error option list \<Rightarrow> go_error option option" where
  "upload_result resp errCh = (case resp of
      Inl err \<Rightarrow> Some (Some (Wrapped ''posting checkpoint'' err))
    | Inr (code, body) \<Rightarrow> (case errCh of
          [] \<Rightarrow> None
        | Some writeErr # _ \<Rightarrow> Some (Some writeErr)
        | None # _ \<Rightarrow> Some (if code \<noteq> 200
            then Some (ErrorString (''server returned '' @ show_int code @ '': '' @ body)) else None)))"

definition directTransfer ::
    "('w \<Rightarrow> string \<Rightarrow> go_error option) \<Rightarrow> 'w upload \<Rightarrow> string \<Rightarrow> string \<Rightarrow> string \<Rightarrow> ('w, go_error option option) hgo" where
  "directTransfer openErr upload checkpointPath targetURL containerName = State (\<lambda>w.
     case openErr (nd_ext w) checkpointPath of
       Some err \<Rightarrow> (Some (Some (Wrapped ''opening checkpoint file'' err)), w)
     | None \<Rightarrow> (case upload targetURL (form_writes containerName) (nd_ext w) of
           ((resp, out), x) \<Rightarrow> (upload_result resp (write_form out (form_writes containerName)), w\<lparr>nd_ext := x\<rparr>)))"

section \<open>The command line\<close>

text \<open>\<open>main\<close>, from the arguments to the exit code; \<open>None\<close> is a process that hangs.\<close>

definition is_url :: "string \<Rightarrow> bool" where
  "is_url target \<longleftrightarrow> take 4 target = ''http''"

definition exit_code :: "go_error option \<Rightarrow> int" where
  "exit_code e = (if e = None then 0 else 1)"

definition transfer_main ::
    "('w, 'layer, 'img, 'file) host \<Rightarrow> ('w \<Rightarrow> string \<Rightarrow> go_error option) \<Rightarrow> 'w upload \<Rightarrow> string list \<Rightarrow> ('w, int option) hgo" where
  "transfer_main H openErr upload args =
     (if length args < 3 \<or> 4 < length args then State_Monad.return (Some 1)
      else do {
        let target = args ! 2;
        let containerName = (if length args = 4 then args ! 3 else '''');
        if is_url target then do {
          e \<leftarrow> directTransfer openErr upload (args ! 1) target containerName;
          State_Monad.return (map_option exit_code e)
        } else do {
          e \<leftarrow> registryTransfer H (args ! 1) target containerName;
          State_Monad.return (Some (exit_code e))
        }
      })"

section \<open>The upload cannot hang\<close>

lemma write_form_one:
  "CloseForm \<in> set ws \<Longrightarrow> \<exists>e. write_form out ws = [e]"
  by (induction out ws rule: write_form.induct) (auto split: option.splits)

lemma write_form_ok:
  "CloseForm \<notin> set ws \<Longrightarrow> write_form out (ws @ [CloseForm]) = [None] \<longleftrightarrow> (\<forall>w \<in> set (ws @ [CloseForm]). out w = None)"
  by (induction out ws rule: write_form.induct) (auto split: option.splits)


end
