(* ===== verification/AgentCalls.thy ===== *)
theory AgentCalls
  imports TransferTool SwapCutoff
begin

text \<open>
  The controller and its tools together: what the controller posts to the node agent is what the agent runs, and the
  arguments of the two jobs the controller creates are those their programs accept.
\<close>

section \<open>Requests to the agent\<close>

fun member_of :: "json_val \<Rightarrow> member_value" where
  "member_of (JString s) = MString s"
| "member_of (JBool b) = MBool b"

text \<open>
  The request the agent sees. Marshalling a map of strings and booleans and decoding the bytes gives back its members, which
  is documented behaviour of \<open>encoding/json\<close>.
\<close>

definition posted :: "(string \<times> json_val) list \<Rightarrow> 'file request" where
  "posted body = \<lparr>rq_method = ''POST'', rq_body = Inr (map (map_prod id member_of) body),
     rq_typeError = ErrorString ''json: cannot unmarshal'', rq_parseForm = Some (ErrorString ''request Content-Type is not multipart/form-data''),
     rq_file = Inl (ErrorString ''request Content-Type is not multipart/form-data''), rq_containerName = ''''\<rparr>"

text \<open>The agent at address \<open>ip\<close> is reachable, and serves the requests the controller sends there.\<close>

definition agent_at :: "('w node) env \<Rightarrow> ('w, 'layer, 'img, 'file) host \<Rightarrow> string \<Rightarrow> string \<Rightarrow> bool" where
  "agent_at E H storageDir ip \<longleftrightarrow>
     (\<forall>path body x. http_newRequestErr E (''http://'' @ ip @ '':9443'' @ path) = None \<and>
        http_post E (''http://'' @ ip @ '':9443'' @ path) body x =
          (case run_state (agent_mux H storageDir path (posted body)) x of (reply, x') \<Rightarrow> (Inr reply, x')))"

lemma protocol_fields:
  "field_name ''tarPath'' ''tarPath''" "\<not> field_name ''tarPath'' ''containerName''" "\<not> field_name ''tarPath'' ''imageTag''"
  "\<not> field_name ''tarPath'' ''imageRef''" "\<not> field_name ''tarPath'' ''insecure''"
  "field_name ''containerName'' ''containerName''" "\<not> field_name ''containerName'' ''tarPath''"
  "\<not> field_name ''containerName'' ''imageTag''" "\<not> field_name ''containerName'' ''imageRef''"
  "\<not> field_name ''containerName'' ''insecure''"
  "field_name ''imageTag'' ''imageTag''" "\<not> field_name ''imageTag'' ''containerName''" "\<not> field_name ''imageTag'' ''tarPath''"
  "field_name ''imageRef'' ''imageRef''" "\<not> field_name ''imageRef'' ''containerName''" "\<not> field_name ''imageRef'' ''tarPath''"
  "\<not> field_name ''imageRef'' ''insecure''"
  "field_name ''insecure'' ''insecure''" "\<not> field_name ''insecure'' ''containerName''" "\<not> field_name ''insecure'' ''tarPath''"
  "\<not> field_name ''insecure'' ''imageRef''"
  by (simp_all add: field_name_def lower_char_def)

lemma posted_local_load:
  "handleLocalLoad H (posted [(''containerName'', JString n), (''imageTag'', JString tag), (''tarPath'', JString p)]) =
     do {
       e \<leftarrow> localLoad H p n tag;
       State_Monad.return (case e of Some err \<Rightarrow> error_reply ''local-load'' err 500
         | None \<Rightarrow> (200, ''local-load completed successfully''))
     }"
  by (simp add: handleLocalLoad_def posted_def protocol_fields)

lemma posted_registry_push:
  "handleRegistryPush H (posted [(''containerName'', JString n), (''imageRef'', JString ref),
       (''insecure'', JBool b), (''tarPath'', JString p)]) =
     do {
       e \<leftarrow> registryPush H p n ref b;
       State_Monad.return (case e of Some err \<Rightarrow> error_reply ''registry-push'' err 500
         | None \<Rightarrow> (200, ''registry-push completed successfully''))
     }"
  by (simp add: handleRegistryPush_def posted_def protocol_fields)

lemma agent_call:
  assumes "agent_at E H dir ip"
  shows "run_state (callAgent E ip path body) w =
    (let (reply, x) = run_state (agent_mux H dir path (posted body)) (ext w)
     in (if fst reply \<noteq> 200 then Some (ErrorString (''agent returned '' @ show_int (fst reply) @ '': '' @ snd reply)) else None,
         w\<lparr>ext := x, trace := trace w @ [EvHttp (''http://'' @ ip @ '':9443'' @ path) body True]\<rparr>))"
  using assms by (simp add: agent_at_def callAgent_def Let_def httpPost_def run_ext_call split: prod.splits)

text \<open>
  C11: A call of the agent by the controller is the work done on the node: with the agent reachable, \<open>callAgentLocalLoad\<close>
  succeeds exactly when \<open>localLoad\<close> with the same path, container name and tag does, and leaves the node as that leaves it;
  and \<open>callAgentRegistryPush\<close> exactly when the push, to a registry without TLS, does.
\<close>

theorem agent_call_is_node_work:
  assumes "agent_at E H dir ip"
  shows "(fst (run_state (callAgentLocalLoad E ip p n tag) w) = None) =
      (fst (run_state (localLoad H p n tag) (ext w)) = None) \<and>
    ext (snd (run_state (callAgentLocalLoad E ip p n tag) w)) = snd (run_state (localLoad H p n tag) (ext w)) \<and>
    (fst (run_state (callAgentRegistryPush E ip p n ref) w) = None) =
      (fst (run_state (registryPush H p n ref True) (ext w)) = None) \<and>
    ext (snd (run_state (callAgentRegistryPush E ip p n ref) w)) = snd (run_state (registryPush H p n ref True) (ext w))"
  by (auto simp: callAgentLocalLoad_def callAgentRegistryPush_def agent_call [OF assms] agent_mux_def posted_local_load
      posted_registry_push error_reply_def http_error_def Let_def split: prod.splits option.splits)

section \<open>Arguments of the jobs\<close>

text \<open>
  C33: The jobs call their programs as these expect it. The swap's job runs the agent's \<open>localLoad\<close> on the second checkpoint under
  the tag of the replacement. The transfer job uploads to the agent exactly in Direct mode or when the name of the image
  repository starts with \<open>http\<close>; otherwise it pushes the first checkpoint under the image reference that is restored later.
\<close>

theorem jobs_run_their_programs:
  "agent_main H (prog # c_args (hd (job_containers (swapTransferJob E jobName m (swapImageTag m))))) =
     do {
       e \<leftarrow> localLoad H (st_checkpointID (mig_status m)) (st_containerName (mig_status m)) (swapImageTag m);
       State_Monad.return (if e = None then 0 else 1)
     } \<and>
   transfer_main H openErr upload (prog # c_args (hd (job_containers (transferJob E jobName m)))) =
     (if spec_transferMode (mig_spec m) = ''Direct'' \<or> is_url (checkpointImageRef m)
      then do {
        e \<leftarrow> directTransfer openErr upload (st_checkpointID (mig_status m)) (transferArgs m ! 1)
               (st_containerName (mig_status m));
        State_Monad.return (map_option exit_code e)
      } else do {
        e \<leftarrow> registryTransfer H (st_checkpointID (mig_status m)) (checkpointImageRef m) (st_containerName (mig_status m));
        State_Monad.return (Some (exit_code e))
      })"
  by (simp add: agent_main_def transfer_main_def swapTransferJob_def transferJob_def transferArgs_def is_url_def
      numeral_2_eq_2 numeral_3_eq_3 Let_def)

end
