(* ===== verification/DeepCopy.thy ===== *)
theory DeepCopy
  imports KubeTypes
begin

text \<open>
  The deep copies of \<open>api/v1alpha1/deepcopy.go\<close> on a heap. In Go the status of a migration holds five references: the
  slices of conditions and containers, the time pointer and the two maps. The handlers take a snapshot with \<open>DeepCopy\<close>, go on
  writing to the maps of the object, and use the snapshot as the base of a patch. In the other theories objects are values;
  this theory shows that a snapshot followed by writes behaves like that, because the copy shares no reference with the object.
\<close>

section \<open>The heap\<close>

record go_status =
  gs_phase :: string
  gs_sourceNode :: string
  gs_checkpointID :: string
  gs_targetPod :: string
  gs_containerName :: string
  gs_conditions :: "nat option"
  gs_startTime :: "nat option"
  gs_phaseTimings :: "nat option"
  gs_statefulSetName :: string
  gs_deploymentName :: string
  gs_originalReplicas :: int
  gs_sourcePodLabels :: "nat option"
  gs_sourceContainers :: "nat option"
  gs_swapSubPhase :: string
  gs_replacementPod :: string

record go_migration =
  gm_name :: string
  gm_namespace :: string
  gm_uid :: string
  gm_spec :: StatefulMigrationSpec
  gm_status :: go_status

datatype cell =
    CMap smap
  | CTime int
  | CConditions "condition list"
  | CContainers "container list"
  | CItems "go_migration list"

record heap =
  hp_cells :: "nat \<Rightarrow> cell option"
  hp_next :: nat

definition alloc :: "cell \<Rightarrow> heap \<Rightarrow> nat \<times> heap" where
  "alloc c h = (hp_next h, h\<lparr>hp_cells := (hp_cells h)(hp_next h \<mapsto> c), hp_next := Suc (hp_next h)\<rparr>)"

section \<open>The copies\<close>

text \<open>
  The two loops of the code: over the indices of a slice, whose elements the Kubernetes library copies, and over the entries
  of a map. \<open>z\<close> is the zero value that \<open>make\<close> fills the slice with.
\<close>

definition copy_slice :: "'a \<Rightarrow> 'a list \<Rightarrow> 'a list" where
  "copy_slice z xs = fold (\<lambda>i ys. ys[i := xs ! i]) [0..<length xs] (replicate (length xs) z)"

definition copy_map :: "smap \<Rightarrow> smap" where
  "copy_map kvs = fold (\<lambda>(k, v) out. sm_put k v out) kvs []"

definition zero_condition :: condition where
  "zero_condition = \<lparr>cond_type = '''', cond_status = '''', cond_reason = '''', cond_message = '''', cond_lastTransitionTime = 0\<rparr>"

definition zero_container :: container where
  "zero_container = \<lparr>c_name = '''', c_image = '''', c_imagePullPolicy = '''', c_ports = [], c_env = [], c_args = [],
     c_volumeMounts = [], c_securityContext = None\<rparr>"

fun copy_contents :: "cell \<Rightarrow> cell" where
  "copy_contents (CMap kvs) = CMap (copy_map kvs)"
| "copy_contents (CTime t) = CTime t"
| "copy_contents (CConditions cs) = CConditions (copy_slice zero_condition cs)"
| "copy_contents (CContainers cs) = CContainers (copy_slice zero_container cs)"
| "copy_contents (CItems xs) = CItems xs"

text \<open>\<open>if in.F != nil { ... }\<close>: the field of the copy is a new reference, or stays nil.\<close>

definition copy_ref :: "nat option \<Rightarrow> heap \<Rightarrow> nat option \<times> heap" where
  "copy_ref r h = (case Option.bind r (hp_cells h) of
     None \<Rightarrow> (r, h)
   | Some c \<Rightarrow> (case alloc (copy_contents c) h of (b, h') \<Rightarrow> (Some b, h')))"

definition MessageQueueConfig_DeepCopyInto :: "MessageQueueConfig \<Rightarrow> MessageQueueConfig" where
  "MessageQueueConfig_DeepCopyInto c = c"

definition StatefulMigrationSpec_DeepCopyInto :: "StatefulMigrationSpec \<Rightarrow> StatefulMigrationSpec" where
  "StatefulMigrationSpec_DeepCopyInto s =
     (let out = s in out\<lparr>spec_messageQueueConfig := MessageQueueConfig_DeepCopyInto (spec_messageQueueConfig s)\<rparr>)"

definition StatefulMigrationStatus_DeepCopyInto :: "go_status \<Rightarrow> heap \<Rightarrow> go_status \<times> heap" where
  "StatefulMigrationStatus_DeepCopyInto s h =
     (let out = s;
          (conditions, h1) = copy_ref (gs_conditions s) h;
          (startTime, h2) = copy_ref (gs_startTime s) h1;
          (timings, h3) = copy_ref (gs_phaseTimings s) h2;
          (labels, h4) = copy_ref (gs_sourcePodLabels s) h3;
          (containers, h5) = copy_ref (gs_sourceContainers s) h4
      in (out\<lparr>gs_conditions := conditions, gs_startTime := startTime, gs_phaseTimings := timings,
            gs_sourcePodLabels := labels, gs_sourceContainers := containers\<rparr>, h5))"

definition StatefulMigration_DeepCopyInto :: "go_migration \<Rightarrow> heap \<Rightarrow> go_migration \<times> heap" where
  "StatefulMigration_DeepCopyInto m h =
     (case StatefulMigrationStatus_DeepCopyInto (gm_status m) h of
        (s, h') \<Rightarrow> (m\<lparr>gm_spec := StatefulMigrationSpec_DeepCopyInto (gm_spec m), gm_status := s\<rparr>, h'))"

text \<open>A list of migrations; nil stays nil.\<close>

fun copy_items :: "go_migration list \<Rightarrow> heap \<Rightarrow> go_migration list \<times> heap" where
  "copy_items [] h = ([], h)"
| "copy_items (m # ms) h = (case StatefulMigration_DeepCopyInto m h of
     (m', h1) \<Rightarrow> (case copy_items ms h1 of (ms', h2) \<Rightarrow> (m' # ms', h2)))"

definition StatefulMigrationList_DeepCopyInto :: "nat option \<Rightarrow> heap \<Rightarrow> nat option \<times> heap" where
  "StatefulMigrationList_DeepCopyInto items h = (case Option.bind items (hp_cells h) of
     Some (CItems ms) \<Rightarrow> (case copy_items ms h of (ms', h1) \<Rightarrow> (case alloc (CItems ms') h1 of (b, h2) \<Rightarrow> (Some b, h2)))
   | _ \<Rightarrow> (items, h))"

text \<open>
  \<open>DeepCopy\<close> and \<open>DeepCopyObject\<close> on a pointer that may be nil: a new struct that \<open>DeepCopyInto\<close> has filled. A pointer to a
  struct is the struct it points to; \<open>None\<close> is nil.
\<close>

definition copy_pointer :: "('a \<Rightarrow> heap \<Rightarrow> 'a \<times> heap) \<Rightarrow> 'a option \<Rightarrow> heap \<Rightarrow> 'a option \<times> heap" where
  "copy_pointer into p h = (case p of
     None \<Rightarrow> (None, h)
   | Some x \<Rightarrow> (case into x h of (out, h') \<Rightarrow> (Some out, h')))"

definition MessageQueueConfig_DeepCopy :: "MessageQueueConfig option \<Rightarrow> heap \<Rightarrow> MessageQueueConfig option \<times> heap" where
  "MessageQueueConfig_DeepCopy = copy_pointer (\<lambda>c h. (MessageQueueConfig_DeepCopyInto c, h))"

definition StatefulMigrationSpec_DeepCopy :: "StatefulMigrationSpec option \<Rightarrow> heap \<Rightarrow> StatefulMigrationSpec option \<times> heap" where
  "StatefulMigrationSpec_DeepCopy = copy_pointer (\<lambda>s h. (StatefulMigrationSpec_DeepCopyInto s, h))"

definition StatefulMigrationStatus_DeepCopy :: "go_status option \<Rightarrow> heap \<Rightarrow> go_status option \<times> heap" where
  "StatefulMigrationStatus_DeepCopy = copy_pointer StatefulMigrationStatus_DeepCopyInto"

definition StatefulMigration_DeepCopy :: "go_migration option \<Rightarrow> heap \<Rightarrow> go_migration option \<times> heap" where
  "StatefulMigration_DeepCopy = copy_pointer StatefulMigration_DeepCopyInto"

definition StatefulMigration_DeepCopyObject :: "go_migration option \<Rightarrow> heap \<Rightarrow> go_migration option \<times> heap" where
  "StatefulMigration_DeepCopyObject p h = (case StatefulMigration_DeepCopy p h of
     (Some c, h') \<Rightarrow> (Some c, h') | (None, h') \<Rightarrow> (None, h'))"

text \<open>A list is the reference of its slice of items; its metadata has no part in the code.\<close>

definition StatefulMigrationList_DeepCopy :: "nat option option \<Rightarrow> heap \<Rightarrow> nat option option \<times> heap" where
  "StatefulMigrationList_DeepCopy = copy_pointer StatefulMigrationList_DeepCopyInto"

definition StatefulMigrationList_DeepCopyObject :: "nat option option \<Rightarrow> heap \<Rightarrow> nat option option \<times> heap" where
  "StatefulMigrationList_DeepCopyObject p h = (case StatefulMigrationList_DeepCopy p h of
     (Some c, h') \<Rightarrow> (Some c, h') | (None, h') \<Rightarrow> (None, h'))"

section \<open>The values behind the references\<close>

definition the_map :: "heap \<Rightarrow> nat option \<Rightarrow> smap option" where
  "the_map h r = (case Option.bind r (hp_cells h) of Some (CMap kvs) \<Rightarrow> Some kvs | _ \<Rightarrow> None)"

definition the_time :: "heap \<Rightarrow> nat option \<Rightarrow> int option" where
  "the_time h r = (case Option.bind r (hp_cells h) of Some (CTime t) \<Rightarrow> Some t | _ \<Rightarrow> None)"

definition the_conditions :: "heap \<Rightarrow> nat option \<Rightarrow> condition list" where
  "the_conditions h r = (case Option.bind r (hp_cells h) of Some (CConditions cs) \<Rightarrow> cs | _ \<Rightarrow> [])"

definition the_containers :: "heap \<Rightarrow> nat option \<Rightarrow> container list" where
  "the_containers h r = (case Option.bind r (hp_cells h) of Some (CContainers cs) \<Rightarrow> cs | _ \<Rightarrow> [])"

definition status_value :: "heap \<Rightarrow> go_status \<Rightarrow> StatefulMigrationStatus" where
  "status_value h s = \<lparr>st_phase = gs_phase s, st_sourceNode = gs_sourceNode s, st_checkpointID = gs_checkpointID s,
     st_targetPod = gs_targetPod s, st_containerName = gs_containerName s, st_conditions = the_conditions h (gs_conditions s),
     st_startTime = the_time h (gs_startTime s), st_phaseTimings = the_map h (gs_phaseTimings s),
     st_statefulSetName = gs_statefulSetName s, st_deploymentName = gs_deploymentName s,
     st_originalReplicas = gs_originalReplicas s,
     st_sourcePodLabels = (case the_map h (gs_sourcePodLabels s) of None \<Rightarrow> [] | Some l \<Rightarrow> l),
     st_sourceContainers = the_containers h (gs_sourceContainers s), st_swapSubPhase = gs_swapSubPhase s,
     st_replacementPod = gs_replacementPod s\<rparr>"

definition migration_value :: "heap \<Rightarrow> go_migration \<Rightarrow> StatefulMigration" where
  "migration_value h m = \<lparr>mig_name = gm_name m, mig_namespace = gm_namespace m, mig_uid = gm_uid m,
     mig_spec = gm_spec m, mig_status = status_value h (gm_status m)\<rparr>"

definition refs :: "go_migration \<Rightarrow> nat set" where
  "refs m = {a. Some a \<in> {gs_conditions (gm_status m), gs_startTime (gm_status m), gs_phaseTimings (gm_status m),
     gs_sourcePodLabels (gm_status m), gs_sourceContainers (gm_status m)}}"

text \<open>\<open>m.Status.PhaseTimings[k] = v\<close> on the heap.\<close>

definition heap_put :: "string \<Rightarrow> string \<Rightarrow> go_migration \<Rightarrow> heap \<Rightarrow> heap option" where
  "heap_put k v m h = (case gs_phaseTimings (gm_status m) of
     None \<Rightarrow> None
   | Some a \<Rightarrow> (case hp_cells h a of
         Some (CMap kvs) \<Rightarrow> Some (h\<lparr>hp_cells := (hp_cells h)(a \<mapsto> CMap (sm_put k v kvs))\<rparr>)
       | _ \<Rightarrow> None))"

fun heap_puts :: "(string \<times> string) list \<Rightarrow> go_migration \<Rightarrow> heap \<Rightarrow> heap option" where
  "heap_puts [] m h = Some h"
| "heap_puts ((k, v) # kvs) m h = Option.bind (heap_put k v m h) (heap_puts kvs m)"

fun value_puts :: "(string \<times> string) list \<Rightarrow> StatefulMigration \<Rightarrow> StatefulMigration option" where
  "value_puts [] m = Some m"
| "value_puts ((k, v) # kvs) m = Option.bind (timing_put k v m) (value_puts kvs)"

section \<open>A copy has the same value and shares nothing\<close>

lemma copy_slice_id: "copy_slice z xs = xs"
proof -
  have "k \<le> length xs \<Longrightarrow> fold (\<lambda>i ys. ys[i := xs ! i]) [0..<k] (replicate (length xs) z) =
      take k xs @ replicate (length xs - k) z" for k
  proof (induction k)
    case (Suc k)
    then show ?case
      by (simp add: list_update_append take_Suc_conv_app_nth Suc_diff_Suc [symmetric])
  qed simp
  from this [of "length xs"] show ?thesis by (simp add: copy_slice_def)
qed

lemma sm_put_new: "k \<notin> fst ` set m \<Longrightarrow> sm_put k v m = m @ [(k, v)]"
  by (induction m) auto

lemma copy_map_id: "distinct (map fst kvs) \<Longrightarrow> copy_map kvs = kvs"
proof -
  have "distinct (map fst kvs) \<Longrightarrow> fst ` set kvs \<inter> fst ` set out = {} \<Longrightarrow>
      fold (\<lambda>(k, v) out. sm_put k v out) kvs out = out @ kvs" for out
    by (induction kvs arbitrary: out) (auto simp: sm_put_new)
  from this [of "[]"] show "distinct (map fst kvs) \<Longrightarrow> copy_map kvs = kvs" by (simp add: copy_map_def)
qed

definition heap_ok :: "heap \<Rightarrow> bool" where
  "heap_ok h \<longleftrightarrow> (\<forall>a. hp_next h \<le> a \<longrightarrow> hp_cells h a = None) \<and>
     (\<forall>a kvs. hp_cells h a = Some (CMap kvs) \<longrightarrow> distinct (map fst kvs))"

definition extends :: "heap \<Rightarrow> heap \<Rightarrow> bool" where
  "extends h h' \<longleftrightarrow> hp_next h \<le> hp_next h' \<and> (\<forall>a < hp_next h. hp_cells h' a = hp_cells h a)"

definition look :: "heap \<Rightarrow> nat option \<Rightarrow> cell option" where
  "look h r = Option.bind r (hp_cells h)"

definition allocated :: "heap \<Rightarrow> nat option \<Rightarrow> bool" where
  "allocated h r \<longleftrightarrow> r = None \<or> look h r \<noteq> None"

lemma allocated_less: "heap_ok h \<Longrightarrow> allocated h (Some a) \<Longrightarrow> a < hp_next h"
  by (metis allocated_def heap_ok_def linorder_not_less look_def option.distinct(1) bind.bind_lunit)

lemma extends_look:
  assumes "heap_ok h" "extends h h'" "allocated h r"
  shows "look h' r = look h r" "allocated h' r"
  using assms allocated_less [OF assms(1)] by (cases r; auto simp: extends_def look_def allocated_def)+

lemma extends_trans: "extends h h' \<Longrightarrow> extends h' h'' \<Longrightarrow> extends h h''"
  by (auto simp: extends_def)

text \<open>What the copy of one reference gives.\<close>

definition copied :: "heap \<Rightarrow> nat option \<Rightarrow> nat option \<Rightarrow> heap \<Rightarrow> bool" where
  "copied h r r' h' \<longleftrightarrow> heap_ok h' \<and> extends h h' \<and> allocated h' r' \<and> look h' r' = look h r \<and>
     (\<forall>b. r' = Some b \<longrightarrow> hp_next h \<le> b)"

lemma copy_ref_copied:
  assumes h: "heap_ok h" and r: "allocated h r"
  shows "copied h r (fst (copy_ref r h)) (snd (copy_ref r h))"
proof (cases "look h r")
  case None
  then have "r = None" using r by (simp add: allocated_def)
  then show ?thesis using h by (simp add: copied_def copy_ref_def look_def allocated_def extends_def)
next
  case (Some c)
  then obtain a where a: "r = Some a" "hp_cells h a = Some c" by (cases r) (simp_all add: look_def)
  have keys: "distinct (map fst kvs)" if "c = CMap kvs" for kvs
    using h a(2) that unfolding heap_ok_def by blast
  then have same: "copy_contents c = c" by (cases c) (simp_all add: copy_slice_id copy_map_id)
  show ?thesis
    using h keys by (auto simp: a same copied_def copy_ref_def alloc_def look_def allocated_def extends_def heap_ok_def)
qed

definition status_allocated :: "heap \<Rightarrow> go_status \<Rightarrow> bool" where
  "status_allocated h s \<longleftrightarrow> allocated h (gs_conditions s) \<and> allocated h (gs_startTime s) \<and>
     allocated h (gs_phaseTimings s) \<and> allocated h (gs_sourcePodLabels s) \<and> allocated h (gs_sourceContainers s)"

text \<open>The value of a status depends on the cells of its references only.\<close>

lemma value_look:
  "the_map h r = (case look h r of Some (CMap kvs) \<Rightarrow> Some kvs | _ \<Rightarrow> None)"
  "the_time h r = (case look h r of Some (CTime t) \<Rightarrow> Some t | _ \<Rightarrow> None)"
  "the_conditions h r = (case look h r of Some (CConditions cs) \<Rightarrow> cs | _ \<Rightarrow> [])"
  "the_containers h r = (case look h r of Some (CContainers cs) \<Rightarrow> cs | _ \<Rightarrow> [])"
  by (simp_all add: the_map_def the_time_def the_conditions_def the_containers_def look_def)

lemma status_DeepCopy_value:
  assumes h: "heap_ok h" and s: "status_allocated h s"
  defines "s' \<equiv> fst (StatefulMigrationStatus_DeepCopyInto s h)" and "h' \<equiv> snd (StatefulMigrationStatus_DeepCopyInto s h)"
  shows "heap_ok h' \<and> extends h h' \<and> status_allocated h' s' \<and> status_value h' s' = status_value h s \<and>
    (\<forall>b. Some b \<in> {gs_conditions s', gs_startTime s', gs_phaseTimings s', gs_sourcePodLabels s', gs_sourceContainers s'}
       \<longrightarrow> hp_next h \<le> b)"
proof -
  obtain r1 h1 where c1: "copy_ref (gs_conditions s) h = (r1, h1)" by fastforce
  obtain r2 h2 where c2: "copy_ref (gs_startTime s) h1 = (r2, h2)" by fastforce
  obtain r3 h3 where c3: "copy_ref (gs_phaseTimings s) h2 = (r3, h3)" by fastforce
  obtain r4 h4 where c4: "copy_ref (gs_sourcePodLabels s) h3 = (r4, h4)" by fastforce
  obtain r5 h5 where c5: "copy_ref (gs_sourceContainers s) h4 = (r5, h5)" by fastforce
  have 1: "copied h (gs_conditions s) r1 h1" using copy_ref_copied [OF h] s c1 by (metis fst_conv snd_conv status_allocated_def)
  have a1: "heap_ok h1" "extends h h1" using 1 by (simp_all add: copied_def)
  have 2: "copied h1 (gs_startTime s) r2 h2"
    using copy_ref_copied [OF a1(1) extends_look(2) [OF h a1(2)]] s c2 by (metis fst_conv snd_conv status_allocated_def)
  have a2: "heap_ok h2" "extends h1 h2" "extends h h2" using 2 extends_trans [OF a1(2)] by (auto simp: copied_def)
  have 3: "copied h2 (gs_phaseTimings s) r3 h3"
    using copy_ref_copied [OF a2(1) extends_look(2) [OF h a2(3)]] s c3 by (metis fst_conv snd_conv status_allocated_def)
  have a3: "heap_ok h3" "extends h2 h3" "extends h h3" using 3 extends_trans [OF a2(3)] by (auto simp: copied_def)
  have 4: "copied h3 (gs_sourcePodLabels s) r4 h4"
    using copy_ref_copied [OF a3(1) extends_look(2) [OF h a3(3)]] s c4 by (metis fst_conv snd_conv status_allocated_def)
  have a4: "heap_ok h4" "extends h3 h4" "extends h h4" using 4 extends_trans [OF a3(3)] by (auto simp: copied_def)
  have 5: "copied h4 (gs_sourceContainers s) r5 h5"
    using copy_ref_copied [OF a4(1) extends_look(2) [OF h a4(3)]] s c5 by (metis fst_conv snd_conv status_allocated_def)
  have a5: "heap_ok h5" "extends h4 h5" "extends h h5" using 5 extends_trans [OF a4(3)] by (auto simp: copied_def)
  have e: "extends h3 h5" "extends h2 h5" "extends h1 h5"
    using extends_trans a2(2) a3(2) a4(2) a5(2) by blast+
  have looks: "look h5 r1 = look h (gs_conditions s)" "look h5 r2 = look h (gs_startTime s)"
    "look h5 r3 = look h (gs_phaseTimings s)" "look h5 r4 = look h (gs_sourcePodLabels s)"
    "look h5 r5 = look h (gs_sourceContainers s)"
    "allocated h5 r1" "allocated h5 r2" "allocated h5 r3" "allocated h5 r4" "allocated h5 r5"
    using 1 2 3 4 5 s extends_look [OF a1(1) e(3)] extends_look [OF a2(1) e(2)] extends_look [OF a3(1) e(1)]
      extends_look [OF a4(1) a5(2)] extends_look [OF h a1(2)] extends_look [OF h a2(3)] extends_look [OF h a3(3)]
      extends_look [OF h a4(3)]
    by (simp_all add: copied_def status_allocated_def)
  have fresh: "hp_next h \<le> b" if "Some b \<in> {r1, r2, r3, r4, r5}" for b
    using that 1 2 3 4 5 a1(2) a2(3) a3(3) a4(3) unfolding copied_def extends_def by fastforce
  have s': "s' = s\<lparr>gs_conditions := r1, gs_startTime := r2, gs_phaseTimings := r3, gs_sourcePodLabels := r4,
      gs_sourceContainers := r5\<rparr>" "h' = h5"
    by (simp_all add: s'_def h'_def StatefulMigrationStatus_DeepCopyInto_def c1 c2 c3 c4 c5)
  show ?thesis
    using a5 looks fresh by (simp add: s' status_value_def value_look status_allocated_def)
qed

definition migration_allocated :: "heap \<Rightarrow> go_migration \<Rightarrow> bool" where
  "migration_allocated h m \<longleftrightarrow> heap_ok h \<and> status_allocated h (gm_status m) \<and>
     (gs_phaseTimings (gm_status m) = gs_sourcePodLabels (gm_status m) \<longrightarrow> gs_phaseTimings (gm_status m) = None)"

lemma migration_DeepCopy_value:
  assumes "migration_allocated h m" "StatefulMigration_DeepCopyInto m h = (m', h')"
  shows "heap_ok h'" "extends h h'" "migration_value h' m' = migration_value h m" "refs m' \<inter> {..<hp_next h} = {}"
    "status_allocated h' (gm_status m')" "refs m \<subseteq> {..<hp_next h}" "migration_value h' m = migration_value h m"
    "migration_allocated h' m"
proof -
  have h: "heap_ok h" and s: "status_allocated h (gm_status m)" using assms(1) by (simp_all add: migration_allocated_def)
  obtain s' where c: "StatefulMigrationStatus_DeepCopyInto (gm_status m) h = (s', h')"
    and m': "m' = m\<lparr>gm_spec := StatefulMigrationSpec_DeepCopyInto (gm_spec m), gm_status := s'\<rparr>"
    using assms(2) by (auto simp: StatefulMigration_DeepCopyInto_def split: prod.splits)
  note v = status_DeepCopy_value [OF h s, unfolded c fst_conv snd_conv]
  show "heap_ok h'" and e: "extends h h'" and "status_allocated h' (gm_status m')" using v by (simp_all add: m')
  show "migration_value h' m' = migration_value h m"
    using v by (simp add: m' migration_value_def StatefulMigrationSpec_DeepCopyInto_def MessageQueueConfig_DeepCopyInto_def)
  show "refs m' \<inter> {..<hp_next h} = {}" using v by (fastforce simp: m' refs_def)
  show "refs m \<subseteq> {..<hp_next h}"
    using s allocated_less [OF h] by (auto simp: refs_def status_allocated_def)
  show "migration_value h' m = migration_value h m"
    using s extends_look(1) [OF h e] by (simp add: migration_value_def status_value_def value_look status_allocated_def)
  show "migration_allocated h' m"
    using v s assms(1) extends_look(2) [OF h e] by (simp add: migration_allocated_def status_allocated_def)
qed

text \<open>A write to the timings is the value write on the object, and is not seen by an object without that reference.\<close>

lemma heap_put_value:
  assumes m: "migration_allocated h m" and p: "heap_put k v m h = Some h'"
  shows "timing_put k v (migration_value h m) = Some (migration_value h' m)" "migration_allocated h' m"
    and "refs b \<inter> refs m = {} \<Longrightarrow> migration_value h' b = migration_value h b"
proof -
  obtain a kvs where a: "gs_phaseTimings (gm_status m) = Some a" "hp_cells h a = Some (CMap kvs)"
    and h': "h' = h\<lparr>hp_cells := (hp_cells h)(a \<mapsto> CMap (sm_put k v kvs))\<rparr>"
    using p by (auto simp: heap_put_def split: option.splits cell.splits)
  have other: "look h' r = (if r = Some a then Some (CMap (sm_put k v kvs)) else look h r)" for r
    by (cases r) (auto simp: look_def h')
  have map: "look h (Some a) = Some (CMap kvs)" by (simp add: look_def a)
  have labels: "gs_sourcePodLabels (gm_status m) \<noteq> Some a" using m a by (auto simp: migration_allocated_def)
  show "timing_put k v (migration_value h m) = Some (migration_value h' m)"
    using labels by (auto simp: timing_put_def migration_value_def status_value_def value_look other a map)
  show "migration_value h' b = migration_value h b" if "refs b \<inter> refs m = {}"
  proof -
    have "Some a \<notin> {gs_conditions (gm_status b), gs_startTime (gm_status b), gs_phaseTimings (gm_status b),
        gs_sourcePodLabels (gm_status b), gs_sourceContainers (gm_status b)}"
      using that a by (auto simp: refs_def)
    then show ?thesis by (auto simp: migration_value_def status_value_def value_look other)
  qed
  have "distinct (map fst (sm_put k v kvs))"
    using m a by (simp add: migration_allocated_def heap_ok_def sm_put_def distinct_update)
  then have "heap_ok h'"
    using m a by (auto simp: h' migration_allocated_def heap_ok_def)
  then show "migration_allocated h' m"
    using m by (auto simp: migration_allocated_def status_allocated_def allocated_def other)
qed

lemma heap_puts_value:
  "migration_allocated h m \<Longrightarrow> heap_puts kvs m h = Some h' \<Longrightarrow> refs b \<inter> refs m = {} \<Longrightarrow>
    migration_value h' b = migration_value h b \<and> value_puts kvs (migration_value h m) = Some (migration_value h' m)"
proof (induction kvs arbitrary: h)
  case (Cons kv kvs)
  obtain k v where kv: "kv = (k, v)" by fastforce
  obtain h1 where h1: "heap_put k v m h = Some h1" "heap_puts kvs m h1 = Some h'"
    using Cons.prems(2) by (auto simp: kv bind_eq_Some_conv)
  from heap_put_value [OF Cons.prems(1) h1(1)] Cons.IH [OF _ h1(2) Cons.prems(3)] Cons.prems(3)
  show ?case by (simp add: kv)
qed simp

text \<open>
  C10: Snapshots behave as values. After \<open>base := m.DeepCopy()\<close> and any sequence of writes to the phase timings of \<open>m\<close>, the
  snapshot still has the value that \<open>m\<close> had, and \<open>m\<close> has the value that the same writes give in the value
  model; the two share no reference. So the difference that the server merges is exactly what was written.
\<close>

theorem snapshot_refines_values:
  assumes "migration_allocated h m" "StatefulMigration_DeepCopy (Some m) h = (Some base, h1)" "heap_puts kvs m h1 = Some h2"
  shows "migration_value h2 base = migration_value h m \<and>
    value_puts kvs (migration_value h m) = Some (migration_value h2 m) \<and> refs base \<inter> refs m = {}"
proof -
  have into: "StatefulMigration_DeepCopyInto m h = (base, h1)"
    using assms(2) by (auto simp: StatefulMigration_DeepCopy_def copy_pointer_def split: prod.splits)
  note c = migration_DeepCopy_value [OF assms(1) into]
  have apart: "refs base \<inter> refs m = {}" using c(4, 6) by blast
  from heap_puts_value [OF c(8) assms(3) this] c(3, 7) apart show ?thesis by simp
qed

text \<open>The same for the items of a list.\<close>

lemma migration_extends:
  assumes "migration_allocated h m" "extends h h'" "heap_ok h'"
  shows "migration_allocated h' m" "migration_value h' m = migration_value h m"
  using assms extends_look [of h h']
  by (simp_all add: migration_allocated_def status_allocated_def migration_value_def status_value_def value_look)

lemma status_allocated_extends:
  "status_allocated h (gm_status m) \<Longrightarrow> heap_ok h \<Longrightarrow> extends h h' \<Longrightarrow> migration_value h' m = migration_value h m"
  using extends_look [of h h']
  by (simp add: status_allocated_def migration_value_def status_value_def value_look)

lemma disjoint_subset: "A \<inter> C = {} \<Longrightarrow> B \<subseteq> C \<Longrightarrow> A \<inter> B = {}"
  by blast

lemma copy_items_value:
  "list_all (migration_allocated h) ms \<Longrightarrow> heap_ok h \<Longrightarrow> copy_items ms h = (ms', h') \<Longrightarrow>
    heap_ok h' \<and> extends h h' \<and> map (migration_value h') ms' = map (migration_value h) ms \<and>
    list_all (\<lambda>m. refs m \<inter> {..<hp_next h} = {}) ms'"
proof (induction ms arbitrary: ms' h h')
  case Nil
  then show ?case by (simp add: extends_def)
next
  case (Cons m ms)
  obtain m1 h1 where m1: "StatefulMigration_DeepCopyInto m h = (m1, h1)" by fastforce
  obtain ms1 h2 where ms1: "copy_items ms h1 = (ms1, h2)" by fastforce
  from Cons.prems(3) m1 ms1 have res: "ms' = m1 # ms1" "h' = h2" by auto
  from Cons.prems(1) have "migration_allocated h m" by simp
  note c = migration_DeepCopy_value [OF this m1]
  have rest: "list_all (migration_allocated h1) ms" "map (migration_value h1) ms = map (migration_value h) ms"
    using Cons.prems(1) migration_extends [OF _ c(2) c(1)] by (induction ms) auto
  from Cons.IH [OF rest(1) c(1) ms1] have IH: "heap_ok h2" "extends h1 h2"
    "map (migration_value h2) ms1 = map (migration_value h1) ms" "list_all (\<lambda>m. refs m \<inter> {..<hp_next h1} = {}) ms1"
    by simp_all
  have sub: "{..<hp_next h} \<subseteq> {..<hp_next h1}" using c(2) by (simp add: extends_def)
  have "list_all (\<lambda>m. refs m \<inter> {..<hp_next h} = {}) ms1"
    by (rule list.pred_mono_strong [OF IH(4)]) (rule disjoint_subset [OF _ sub])
  moreover have "migration_value h2 m1 = migration_value h1 m1"
    by (rule status_allocated_extends [OF c(5) c(1) IH(2)])
  ultimately show ?case using IH c(3, 4) extends_trans [OF c(2) IH(2)] rest(2) by (simp add: res)
qed

text \<open>
  C39: The copy of a list has the same items, in a new slice, and none of its items shares a reference with anything that was
  on the heap before.
\<close>

theorem list_copy_separate:
  assumes "hp_cells h a = Some (CItems ms)" "list_all (migration_allocated h) ms" "heap_ok h"
    and "StatefulMigrationList_DeepCopyObject (Some (Some a)) h = (r, h')"
  shows "\<exists>b ms'. r = Some (Some b) \<and> hp_next h \<le> b \<and> hp_cells h' b = Some (CItems ms') \<and> hp_cells h' a = Some (CItems ms) \<and>
    map (migration_value h') ms' = map (migration_value h) ms \<and> list_all (\<lambda>m. refs m \<inter> {..<hp_next h} = {}) ms'"
proof -
  obtain ms1 h1 where c: "copy_items ms h = (ms1, h1)" by fastforce
  note v = copy_items_value [OF assms(2, 3) c]
  have h': "r = Some (Some (hp_next h1))" "h' = h1\<lparr>hp_cells := (hp_cells h1)(hp_next h1 \<mapsto> CItems ms1), hp_next := Suc (hp_next h1)\<rparr>"
    using assms(1, 4) c
    by (auto simp: StatefulMigrationList_DeepCopyObject_def StatefulMigrationList_DeepCopy_def copy_pointer_def
      StatefulMigrationList_DeepCopyInto_def alloc_def)
  have a: "a < hp_next h" using assms(1, 3) by (metis heap_ok_def linorder_not_less option.distinct(1))
  have same: "migration_value h' m = migration_value h1 m" for m
  proof -
    have "look h1 (Some (hp_next h1)) = None" using v by (simp add: look_def heap_ok_def)
    then have new: "look h' q = (if q = Some (hp_next h1) then Some (CItems ms1) else look h1 q)"
      "look h1 q = None \<or> q \<noteq> Some (hp_next h1)" for q
      by (cases q; auto simp: look_def h'(2))+
    have "the_map h' q = the_map h1 q" "the_time h' q = the_time h1 q" "the_conditions h' q = the_conditions h1 q"
      "the_containers h' q = the_containers h1 q" for q
      using new(2) [of q] by (auto simp: value_look new(1))
    then show ?thesis by (simp add: migration_value_def status_value_def)
  qed
  have cells: "hp_cells h' (hp_next h1) = Some (CItems ms1)" "hp_cells h' a = Some (CItems ms)" "hp_next h \<le> hp_next h1"
    using v a assms(1) by (auto simp: h'(2) extends_def)
  have "map (migration_value h') ms1 = map (migration_value h1) ms1" by (rule map_cong [OF refl same])
  then show ?thesis using cells v by (simp add: h'(1) del: map_eq_conv)
qed

end
