(* ===== verification/NilMaps.thy ===== *)
theory NilMaps
  imports Reconcile
begin

text \<open>
  No write to a nil map. The phase timings are a Go map that is nil until something is written, and a write to a nil
  map is a run-time panic; most handlers make the map first, but after a patch the object is the server's answer. The triple
  \<open>gives\<close> looks at the result of a computation only.
\<close>

section \<open>What the results of a computation satisfy\<close>

named_theorems gives_intro \<comment> \<open>syntax-directed rules for \<open>gives\<close>\<close>

definition gives :: "('w, 'a) go \<Rightarrow> ('a \<Rightarrow> bool) \<Rightarrow> bool" where
  "gives f Q \<longleftrightarrow> (\<forall>w. Q (fst (run_state f w)))"

lemma gives_return [gives_intro]: "Q a \<Longrightarrow> gives (go_return a) Q"
  by (simp add: gives_def)

lemma gives_bind:
  "gives f R \<Longrightarrow> (\<And>a. R a \<Longrightarrow> gives (g a) Q) \<Longrightarrow> gives (State_Monad.bind f g) Q"
  by (simp add: gives_def split: prod.split) (metis fst_conv)

lemma gives_any: "(\<And>a. gives (g a) Q) \<Longrightarrow> gives (State_Monad.bind f g) Q"
  by (rule gives_bind [where R = "\<lambda>_. True"]) (simp_all add: gives_def)

lemma gives_mono: "gives f R \<Longrightarrow> (\<And>a. R a \<Longrightarrow> Q a) \<Longrightarrow> gives f Q"
  by (simp add: gives_def)

lemma gives_call: "(\<And>w. R (fst (f w))) \<Longrightarrow> gives (ext_call f ev) R"
  by (simp add: gives_def run_ext_call)

lemma gives_cases [gives_intro]:
  "(b \<Longrightarrow> gives f Q) \<Longrightarrow> (\<not> b \<Longrightarrow> gives f' Q) \<Longrightarrow> gives (if b then f else f') Q"
  "(\<And>a. s = Inl a \<Longrightarrow> gives (h a) Q) \<Longrightarrow> (\<And>a. s = Inr a \<Longrightarrow> gives (h' a) Q) \<Longrightarrow> gives (case_sum h h' s) Q"
  "(x = None \<Longrightarrow> gives f Q) \<Longrightarrow> (\<And>a. x = Some a \<Longrightarrow> gives (k a) Q) \<Longrightarrow> gives (case_option f k x) Q"
  "(\<And>a c. y = (a, c) \<Longrightarrow> gives (l a c) Q) \<Longrightarrow> gives (case_prod l y) Q"
  "(xs = [] \<Longrightarrow> gives f Q) \<Longrightarrow> (\<And>z zs. xs = z # zs \<Longrightarrow> gives (n z zs) Q) \<Longrightarrow> gives (case_list f n xs) Q"
  by (cases b; cases s; cases x; cases y; cases xs; simp)+

section \<open>The hypotheses on the calls\<close>

text \<open>
  A library call returns: an error it gives back is a value, not a panic of this program. And the answer to a status patch
  holds what the patch has written: a key that the object has with another value than the base, or
  that the base does not have.
\<close>

definition no_panic :: "go_error + 'a \<Rightarrow> bool" where
  "no_panic r \<longleftrightarrow> r \<noteq> Inl NilMapPanic"

definition calls_return :: "'w env \<Rightarrow> bool" where
  "calls_return E \<longleftrightarrow>
     (\<forall>ns n w. no_panic (fst (api_getMigration E ns n w)) \<and> no_panic (fst (api_getPod E ns n w)) \<and>
        no_panic (fst (api_getJob E ns n w)) \<and> no_panic (fst (api_getSts E ns n w)) \<and>
        no_panic (fst (api_getDeployment E ns n w))) \<and>
     (\<forall>m w. no_panic (fst (api_updateMigration E m w))) \<and>
     (\<forall>b m w. no_panic (fst (api_patchStatus E b m w)))"

definition answers_written :: "'w env \<Rightarrow> bool" where
  "answers_written E \<longleftrightarrow> (\<forall>base m w m' k v. fst (api_patchStatus E base m w) = Inr m' \<and>
     timing_get k m = Some v \<and> timing_get k base \<noteq> Some v \<longrightarrow> timing_get k m' = Some v)"

definition has_timings :: "StatefulMigration \<Rightarrow> bool" where
  "has_timings m \<longleftrightarrow> st_phaseTimings (mig_status m) \<noteq> None"

lemma has_timings_simps [simp]:
  "has_timings (ensurePhaseTimings m)" "has_timings (timing_del k m) = has_timings m"
  "has_timings (timing_dels ks m) = has_timings m"
  "has_timings (mig_status_update (st_swapSubPhase_update f) m) = has_timings m"
  "has_timings (mig_status_update (st_phase_update g) m) = has_timings m"
proof -
  show del: "has_timings (timing_del k m) = has_timings m" for k m
    by (simp add: has_timings_def timing_del_def split: option.split)
  show "has_timings (timing_dels ks m) = has_timings m"
    by (induction ks arbitrary: m) (simp_all add: timing_dels_def del)
qed (simp_all add: has_timings_def ensurePhaseTimings_def split: option.split)

lemma timing_put_has: "has_timings m \<Longrightarrow> \<exists>m'. timing_put k v m = Some m' \<and> has_timings m' \<and> timing_get k m' = Some v"
  by (auto simp: has_timings_def timing_put_def timing_get_def)

lemma timing_put_total: "has_timings m \<Longrightarrow> timing_put k v m = None \<Longrightarrow> False"
  using timing_put_has [of m k v] by auto

lemma timing_put_kept: "timing_put k v m = Some m' \<Longrightarrow> has_timings m \<Longrightarrow> has_timings m'"
  using timing_put_has [of m k v] by auto

lemma timing_get_has: "timing_get k m = Some v \<Longrightarrow> has_timings m"
  by (auto simp: has_timings_def timing_get_def split: option.splits)

section \<open>Rules for the calls\<close>

lemma gives_api:
  assumes "calls_return E"
  shows "gives (getMigration E ns n) no_panic" "gives (getPod E ns n) no_panic" "gives (getJob E ns n) no_panic"
    "gives (getSts E ns n) no_panic" "gives (getDeployment E ns n) no_panic"
    "gives (updateMigration E m) no_panic" "gives (patchStatus E b m) no_panic"
  using assms by (simp_all add: calls_return_def call_defs gives_call)

lemmas gives_api_bind = gives_api [THEN gives_bind]

lemma gives_other [gives_intro]:
  "(\<And>a. gives (g1 a) Q) \<Longrightarrow> gives (State_Monad.bind (now E) g1) Q"
  "(\<And>a. gives (g1 a) Q) \<Longrightarrow> gives (State_Monad.bind (since E t) g1) Q"
  "(\<And>a. gives (g2 a) Q) \<Longrightarrow> gives (State_Monad.bind (elapsedSince E k m) g2) Q"
  "(\<And>a. gives (g1 a) Q) \<Longrightarrow> gives (State_Monad.bind (pollingBackoff E m k) g1) Q"
  "(\<And>a. gives (g3 a) Q) \<Longrightarrow> gives (State_Monad.bind (findAgentPodIP E n) g3) Q"
  "(\<And>a. gives (g4 a) Q) \<Longrightarrow> gives (State_Monad.bind (callAgentRegistryPush E ip p c i) g4) Q"
  "(\<And>a. gives (g4 a) Q) \<Longrightarrow> gives (State_Monad.bind (callAgentLocalLoad E ip p c i) g4) Q"
  "(\<And>a. gives (g4 a) Q) \<Longrightarrow> gives (State_Monad.bind (brokerConnect E u) g4) Q"
  "(\<And>a. gives (g4 a) Q) \<Longrightarrow> gives (State_Monad.bind (brokerClose E) g4) Q"
  "(\<And>a. gives (g3 a) Q) \<Longrightarrow> gives (State_Monad.bind (createSecondaryQueue E q x rk) g3) Q"
  "(\<And>a. gives (g4 a) Q) \<Longrightarrow> gives (State_Monad.bind (unbindQueue E q x) g4) Q"
  "(\<And>a. gives (g4 a) Q) \<Longrightarrow> gives (State_Monad.bind (bindQueue E q x rk) g4) Q"
  "(\<And>a. gives (g4 a) Q) \<Longrightarrow> gives (State_Monad.bind (declareAndBindQueue E q x) g4) Q"
  "(\<And>a. gives (g4 a) Q) \<Longrightarrow> gives (State_Monad.bind (deleteQueue E q) g4) Q"
  "(\<And>a. gives (g4 a) Q) \<Longrightarrow> gives (State_Monad.bind (deleteSecondaryQueue E q q' x) g4) Q"
  "(\<And>a. gives (g4 a) Q) \<Longrightarrow> gives (State_Monad.bind (sendControlMessage E p ty pl) g4) Q"
  "(\<And>a. gives (g5 a) Q) \<Longrightarrow> gives (State_Monad.bind (getQueueDepth E q) g5) Q"
  "(\<And>a. gives (g6 a) Q) \<Longrightarrow> gives (State_Monad.bind (getQueueStats E q) g6) Q"
  "(\<And>a. gives (g7 a) Q) \<Longrightarrow> gives (State_Monad.bind (checkpointContainer ck nd ns p c) g7) Q"
  "(\<And>a. gives (g4 a) Q) \<Longrightarrow> gives (State_Monad.bind (createPod E pd) g4) Q"
  "(\<And>a. gives (g4 a) Q) \<Longrightarrow> gives (State_Monad.bind (createJob E jb) g4) Q"
  "(\<And>a. gives (g4 a) Q) \<Longrightarrow> gives (State_Monad.bind (deletePod E pd gr) g4) Q"
  "(\<And>a. gives (g4 a) Q) \<Longrightarrow> gives (State_Monad.bind (patchSts E s s') g4) Q"
  "(\<And>a. gives (g4 a) Q) \<Longrightarrow> gives (State_Monad.bind (patchPod E pd pd') g4) Q"
  "(\<And>a. gives (g4 a) Q) \<Longrightarrow> gives (State_Monad.bind (patchDeployment E d d') g4) Q"
  by (rule gives_any, blast)+

text \<open>A stamp of an object that has the map does not panic, and after its patch the object still has the map.\<close>

lemma gives_stamp:
  assumes "has_timings m"
    and "\<And>v m1. timing_put k v m = Some m1 \<Longrightarrow> has_timings m1 \<Longrightarrow> timing_get k m1 = Some v \<Longrightarrow> gives (g (Some m1)) Q"
  shows "gives (State_Monad.bind (stampTiming E k m) g) Q"
  unfolding stampTiming_def
proof (rule gives_bind [where R = "\<lambda>s. \<exists>v. s = timing_put k v m"])
  show "gives (State_Monad.bind (now E) (\<lambda>t. go_return (timing_put k (rfc3339_format t) m))) (\<lambda>s. \<exists>v. s = timing_put k v m)"
    by (intro gives_intro) blast
next
  fix s assume "\<exists>v. s = timing_put k v m"
  then obtain v where v: "s = timing_put k v m" ..
  obtain m1 where "timing_put k v m = Some m1" "has_timings m1" "timing_get k m1 = Some v"
    using timing_put_has [OF assms(1)] by blast
  then show "gives (g s) Q" using assms(2) by (simp add: v)
qed

lemma gives_patchIgnore:
  assumes "answers_written E" "has_timings m" "timing_get k m = Some v" "timing_get k base \<noteq> Some v"
  shows "gives (patchStatusIgnore E base m) has_timings"
  unfolding patchStatusIgnore_def
proof (rule gives_bind)
  show "gives (patchStatus E base m) (\<lambda>r. \<forall>m'. r = Inr m' \<longrightarrow> has_timings m')"
    unfolding patchStatus_def
  proof (rule gives_call, intro allI impI)
    fix w m' assume "fst (api_patchStatus E base m w) = Inr m'"
    then have "timing_get k m' = Some v" using assms(1, 3, 4) unfolding answers_written_def by blast
    then show "has_timings m'" by (rule timing_get_has)
  qed
qed (rule gives_return, use assms(2) in \<open>simp split: sum.split\<close>)

section \<open>The phase handlers\<close>

definition ok_reply :: "reply \<Rightarrow> bool" where
  "ok_reply r \<longleftrightarrow> snd r \<noteq> Some NilMapPanic"

lemma ok_reply_simps [simp]: "ok_reply (r, None)" "ok_reply (r, Some e) = (e \<noteq> NilMapPanic)"
  by (simp_all add: ok_reply_def)

lemma no_panic_simps [simp]: "no_panic (Inr a)" "no_panic (Inl e) = (e \<noteq> NilMapPanic)"
  by (simp_all add: no_panic_def)

lemma ignore_not_found_no_panic [simp]: "e \<noteq> NilMapPanic \<Longrightarrow> ignore_not_found e \<noteq> Some NilMapPanic"
  by (simp add: ignore_not_found_def)

lemma gives_transition: "calls_return E \<Longrightarrow> gives (transitionPhase E m base p) ok_reply"
  unfolding transitionPhase_def by (intro gives_api_bind gives_intro) auto

lemma gives_fail: "calls_return E \<Longrightarrow> gives (failMigration E m x) ok_reply"
  unfolding failMigration_def Let_def by (intro gives_api_bind gives_intro) auto

lemmas gives_ends = gives_transition gives_fail

lemma gives_finishStart [gives_intro]:
  "(\<And>d. gives (g (d, timing_del k m)) Q) \<Longrightarrow> gives (State_Monad.bind (finishStart E k m) g) Q"
  by (rule gives_bind [where R = "\<lambda>r. snd r = timing_del k m"])
    (auto simp: finishStart_def intro!: gives_intro)

lemma gives_recordStart_kept:
  assumes "answers_written E" "has_timings m"
  shows "gives (recordStart E k m) (\<lambda>s. \<exists>m1. s = Some m1 \<and> has_timings m1)"
  unfolding recordStart_def Let_def
  by (intro gives_intro gives_stamp assms(2) gives_bind [OF gives_patchIgnore [OF assms(1)]]) (use assms(2) in auto)

lemma gives_recordStart:
  assumes "has_timings m" and "\<And>m1. gives (g (Some m1)) Q"
  shows "gives (State_Monad.bind (recordStart E k m) g) Q"
proof (rule gives_bind)
  show "gives (recordStart E k m) (\<lambda>s. s \<noteq> None)"
    unfolding recordStart_def Let_def by (intro gives_intro gives_stamp assms(1) gives_any) simp_all
qed (use assms(2) in auto)

lemma gives_pending:
  assumes "calls_return E"
  shows "gives (handlePending E m) ok_reply"
proof -
  have strategy: "gives (persistStrategy E m p) no_panic" for p
    unfolding persistStrategy_def Let_def
    by (intro gives_intro gives_api_bind [OF assms] gives_api [OF assms]) auto
  show ?thesis
    unfolding handlePending_def
    by (intro gives_ends assms gives_intro gives_api_bind [OF assms] gives_bind [OF strategy] gives_any) auto
qed

lemma gives_checkpointing: "calls_return E \<Longrightarrow> gives (handleCheckpointing E m) ok_reply"
  unfolding handleCheckpointing_def Let_def
  by (intro gives_ends gives_intro gives_any [where f = "takeCheckpoint E m" for E m])

lemma gives_transferring:
  assumes "calls_return E"
  shows "gives (handleTransferring E m) ok_reply"
proof -
  have job: "gives (createTransferJob E n m) ok_reply" for n m
    unfolding createTransferJob_def by (intro gives_ends assms gives_intro) simp_all
  have "gives (handleTransferringViaJob E (ensurePhaseTimings m)) ok_reply"
    unfolding handleTransferringViaJob_def Let_def
    by (intro gives_ends job assms gives_intro gives_api_bind [OF assms] gives_recordStart has_timings_simps) auto
  then show ?thesis
    unfolding handleTransferring_def Let_def by (intro gives_ends assms gives_intro)
qed

lemma gives_restoring:
  assumes "calls_return E"
  shows "gives (handleRestoring E m) ok_reply"
proof -
  have wait: "gives (waitForSourceRemoval E m) ok_reply" for m
    unfolding waitForSourceRemoval_def
    by (intro gives_ends assms gives_intro gives_api_bind [OF assms] gives_any [where f = "patchStatusIgnore E b x" for b x]) auto
  have present: "gives (targetPodExists E m n p) ok_reply" for m n p
    unfolding targetPodExists_def Let_def by (intro gives_ends wait assms gives_intro) auto
  have create: "gives (createTargetPod E m n) ok_reply" for m n
    unfolding createTargetPod_def
    by (intro gives_ends assms gives_intro gives_any [where f = "gatherSource E m" for m]) simp_all
  show ?thesis
    unfolding handleRestoring_def Let_def
    by (intro present create gives_intro gives_api_bind [OF assms] gives_recordStart has_timings_simps) auto
qed

lemma gives_replaying:
  assumes c: "calls_return E" and a: "answers_written E"
  shows "gives (handleReplaying E m) ok_reply"
proof -
  let ?m = "ensurePhaseTimings m"
  have start: "gives (startReplay E ?m q) (\<lambda>s. case s of Inl r \<Rightarrow> ok_reply r | Inr m1 \<Rightarrow> has_timings m1)" for q
    unfolding startReplay_def Let_def
    by (intro gives_intro gives_stamp gives_bind [OF gives_fail [OF c]] gives_bind [OF gives_patchIgnore [OF a]]
        gives_any [where f = "if b then x else y" for b x y]) auto
  have drained: "gives (replayDrained E m1) ok_reply" for m1
    unfolding replayDrained_def Let_def by (intro gives_ends c gives_intro)
  have cutoff: "gives (replayCutoffCheck E m1) ok_reply" for m1
    unfolding replayCutoffCheck_def Let_def
    by (intro gives_ends c gives_intro gives_any [where f = "if b then x else y" for b x y]) simp_all
  have check: "gives (replayDrainCheck E m1 d) ok_reply" if m1: "has_timings m1" for m1 d
    unfolding replayDrainCheck_def Let_def
    by (intro gives_ends c gives_intro gives_any [where f = "patchStatusIgnore E b x" for b x])
      (auto dest: timing_put_total [OF m1] timing_put_total [OF timing_put_kept [OF _ m1]])
  show ?thesis
    unfolding handleReplaying_def Let_def
    by (rule gives_bind [OF start]) (intro gives_ends c drained cutoff check gives_intro; simp)
qed

section \<open>The stages of the swap\<close>

definition ok_stage :: "swap_result \<Rightarrow> bool" where
  "ok_stage r \<longleftrightarrow> sw_err r \<noteq> Some NilMapPanic"

lemma ok_stage_simps [simp]:
  "ok_stage (sw_wait m d)" "ok_stage (sw_next m)" "ok_stage (sw_finished m)" "ok_stage (sw_fail m e) = (e \<noteq> NilMapPanic)"
  by (simp_all add: ok_stage_def sw_wait_def sw_next_def sw_finished_def sw_fail_def)

text \<open>The early returns of a block are fine, and the object it goes on with has the map.\<close>

definition ok_block :: "swap_result + StatefulMigration \<Rightarrow> bool" where
  "ok_block s \<longleftrightarrow> (case s of Inl r \<Rightarrow> ok_stage r | Inr m \<Rightarrow> has_timings m)"

lemma ok_block_simps [simp]: "ok_block (Inl r) = ok_stage r" "ok_block (Inr m) = has_timings m"
  by (simp_all add: ok_block_def)

lemma gives_swapPatch:
  assumes "calls_return E" and "\<And>m'. ok_stage (k m')"
  shows "gives (swapPatch E base m k) ok_stage"
  unfolding swapPatch_def by (intro gives_api_bind [OF assms(1)] gives_return) (auto simp: assms(2) split: sum.split)

lemma gives_scaleUp:
  "calls_return E \<Longrightarrow> gives (scaleUp E m n) (\<lambda>e. e \<noteq> Some NilMapPanic)"
  unfolding scaleUp_def by (intro gives_api_bind gives_intro) auto

lemma gives_prepare: "calls_return E \<Longrightarrow> gives (handleSwapPrepare E m) ok_stage"
  unfolding handleSwapPrepare_def Let_def
  by (intro gives_swapPatch gives_intro gives_any [where f = "earlyScaleDown E m" for m]) simp_all

lemma gives_recheckpoint:
  assumes "calls_return E" "has_timings m"
  shows "gives (handleSwapReCheckpoint E m) ok_stage"
  unfolding handleSwapReCheckpoint_def Let_def
  by (intro gives_swapPatch assms(1) gives_intro) (auto dest: timing_put_total [rotated] simp: assms(2))

lemma gives_transfer:
  assumes "calls_return E"
  shows "gives (handleSwapTransfer E m) ok_stage"
proof -
  have "gives (handleSwapTransferViaJob E m tag) ok_stage" for tag
    unfolding handleSwapTransferViaJob_def Let_def
    by (intro gives_swapPatch assms gives_intro gives_api_bind [OF assms]) (auto split: option.split)
  then show ?thesis
    unfolding handleSwapTransfer_def Let_def by (intro gives_swapPatch assms gives_intro) simp_all
qed

lemma gives_create:
  assumes c: "calls_return E"
  shows "gives (handleSwapCreateReplacement E m) ok_stage"
proof -
  have down: "gives (scaleDownOriginal E m) (\<lambda>s. case s of Inl r \<Rightarrow> ok_stage r | Inr _ \<Rightarrow> True)"
    unfolding scaleDownOriginal_def
    by (intro gives_intro gives_api_bind [OF c] gives_any [where f = "if b then x else y" for b x y]) (auto split: option.split)
  have remove: "gives (removeOriginalPod E m p) ok_stage" for p
    unfolding removeOriginalPod_def
    by (rule gives_bind [OF down]) (intro gives_intro gives_any [where f = "removeServiceLabels E x y" for x y]; simp)
  have create: "gives (createReplacementPod E m) ok_stage"
    unfolding createReplacementPod_def
    by (intro gives_swapPatch c gives_intro gives_any [where f = "replacementLabels E m"]
        gives_any [where f = "if b then x else y" for b x y]) simp_all
  have running: "gives (replacementRunning E m) ok_stage"
    unfolding replacementRunning_def Let_def by (intro gives_swapPatch c) simp
  show ?thesis
    unfolding handleSwapCreateReplacement_def
    by (intro remove create running gives_intro gives_api_bind [OF c]) auto
qed

lemma gives_trafficSwitch:
  assumes c: "calls_return E"
  shows "gives (handleSwapTrafficSwitch E m) ok_stage"
proof -
  have shadow: "gives (deleteShadowPod E m) (\<lambda>e. e \<noteq> Some NilMapPanic)"
    unfolding deleteShadowPod_def by (intro gives_intro gives_api_bind [OF c]) auto
  have up: "gives (scaleUpForAdoption E m) (\<lambda>e. e \<noteq> Some NilMapPanic)"
    unfolding scaleUpForAdoption_def
    by (intro gives_intro gives_bind [OF gives_scaleUp [OF c]]) (auto simp: bind_eq_Some_conv ignore_not_found_def split: if_splits)
  show ?thesis
    unfolding handleSwapTrafficSwitch_def
    by (intro gives_swapPatch c gives_intro gives_bind [OF shadow] gives_bind [OF up]) auto
qed

lemma gives_miniReplay:
  assumes c: "calls_return E"
  shows "gives (handleSwapMiniReplay E m) ok_stage"
proof -
  have start: "gives (startMiniReplay E (ensurePhaseTimings m) q) (\<lambda>s. case s of Inl r \<Rightarrow> ok_stage r | Inr _ \<Rightarrow> True)" for q
    unfolding startMiniReplay_def Let_def
    by (intro gives_intro gives_stamp gives_any [where f = "patchStatusIgnore E b x" for b x]) simp_all
  show ?thesis
    unfolding handleSwapMiniReplay_def Let_def
    by (rule gives_bind [OF start]) (intro gives_swapPatch c gives_intro; simp)
qed

lemma timing_puts_total:
  "has_timings m \<Longrightarrow> \<exists>m'. timing_puts kvs m = Some m' \<and> has_timings m' \<and>
    (k \<notin> fst ` set kvs \<longrightarrow> timing_get k m' = timing_get k m)"
proof (induction kvs arbitrary: m)
  case (Cons kv kvs)
  obtain k' v' where kv: "kv = (k', v')" by fastforce
  obtain m1 where m1: "timing_put k' v' m = Some m1" "has_timings m1" using timing_put_has [OF Cons.prems] by blast
  from Cons.IH [OF m1(2)] show ?case
    using m1(1) by (auto simp: kv timing_get_put [OF m1(1)])
qed simp

text \<open>Several keys are written after the stamp, and one patch sends them all.\<close>

lemma gives_stamp_puts:
  assumes m: "has_timings m" and "\<And>m1. has_timings m1 \<Longrightarrow> (k \<notin> fst ` set kvs \<Longrightarrow> timing_get k m1 \<noteq> None) \<Longrightarrow> gives (g m1) Q"
  shows "gives (do { s \<leftarrow> stampTiming E k m; case Option.bind s (timing_puts kvs) of None \<Rightarrow> f | Some m1 \<Rightarrow> g m1 }) Q"
proof (rule gives_stamp [OF m])
  fix v m1 assume m1: "has_timings m1" "timing_get k m1 = Some v"
  obtain m2 where "timing_puts kvs m1 = Some m2" "has_timings m2" "k \<notin> fst ` set kvs \<longrightarrow> timing_get k m2 = Some v"
    using timing_puts_total [OF m1(1), of kvs k] m1(2) by metis
  then show "gives (case Option.bind (Some m1) (timing_puts kvs) of None \<Rightarrow> f | Some m1 \<Rightarrow> g m1) Q"
    using assms(2) by simp
qed

lemma gives_preFence:
  assumes c: "calls_return E" and a: "answers_written E"
  shows "gives (handleSwapPreFenceDrain E m) ok_stage"
proof -
  let ?m = "ensurePhaseTimings m" and ?k = "''Swap.PreFence.start''"
  have kept: "gives (State_Monad.bind (patchStatusIgnore E ?m m1) (\<lambda>m2. go_return (Inr m2))) ok_block"
    if "timing_get ?k m = None" "has_timings m1" "timing_get ?k m1 \<noteq> None" for m1
  proof -
    from that(3) obtain v where "timing_get ?k m1 = Some v" by blast
    then show ?thesis
      by (rule gives_bind [OF gives_patchIgnore [OF a that(2)]]) (use that(1) in \<open>simp_all add: gives_return\<close>)
  qed
  have start: "gives (startPreFence E ?m q) ok_block" for q
    unfolding startPreFence_def Let_def by (intro gives_intro gives_stamp_puts kept) simp_all
  have leave: "gives (leavePreFence E cfg m1 q b) ok_stage" if "has_timings m1" for cfg m1 q b
    unfolding leavePreFence_def Let_def by (intro gives_swapPatch c gives_intro gives_stamp) (simp_all add: that)
  show ?thesis
    unfolding handleSwapPreFenceDrain_def Let_def
    by (rule gives_bind [OF start])
      (intro gives_intro gives_any [where f = "decideFence E x y u v" for x y u v] leave; simp)
qed

lemma gives_fence:
  assumes c: "calls_return E"
  shows "gives (handleSwapExchangeFence E m) ok_stage"
proof -
  let ?m = "ensurePhaseTimings m"
  have topology: "gives (applyFence E a b c d) (\<lambda>e. e \<noteq> Some NilMapPanic)" for a b c d
    unfolding applyFence_def by (intro gives_intro) (auto split: option.split)
  have recorded: "gives (recordFence E ?m a b) ok_stage" for a b
    unfolding recordFence_def Let_def by (intro gives_stamp_puts gives_swapPatch c) simp_all
  show ?thesis
    unfolding handleSwapExchangeFence_def Let_def
    by (intro gives_swapPatch c recorded gives_intro gives_bind [OF topology]) auto
qed

lemma gives_rollback:
  assumes c: "calls_return E" and m: "has_timings m"
  shows "gives (handleSwapFenceRollback E m) ok_stage"
  unfolding handleSwapFenceRollback_def Let_def
  by (intro gives_swapPatch c gives_intro gives_stamp) (simp_all add: m)

lemma gives_parallelDrain:
  assumes c: "calls_return E" and a: "answers_written E"
  shows "gives (handleSwapParallelDrain E m) ok_stage"
proof -
  let ?m = "ensurePhaseTimings m"
  have track: "gives (trackDrain E ?m d) (\<lambda>t. case t of Inl (Inl r) \<Rightarrow> ok_stage r | Inl (Inr _) \<Rightarrow> True | Inr m1 \<Rightarrow> has_timings m1)"
    for d
    unfolding trackDrain_def Let_def
  proof (intro gives_intro gives_stamp gives_any [where f = "drainStalled E x" for x], goal_cases)
    case (2)
    then show ?case using timing_put_total has_timings_simps(1) by blast
  next
    case (3 m1)
    then show ?case using timing_put_kept has_timings_simps(1) by blast
  next
    case (5 m1 v m2 m3)
    then have kept: "has_timings m3" "timing_get ''Swap.ParallelDrain.lastDepth'' m3 = Some d"
      by (simp_all add: timing_get_put)
    show ?case
      by (rule gives_bind [OF gives_patchIgnore [OF a, of _ "''Swap.ParallelDrain.lastDepth''" d]])
        (use 5 kept in \<open>auto intro: gives_return\<close>)
  qed (auto split: sum.split)
  show ?thesis
    unfolding handleSwapParallelDrain_def Let_def
    by (intro gives_swapPatch c gives_intro gives_bind [OF track] gives_rollback) auto
qed

lemma gives_cutover:
  assumes c: "calls_return E"
  shows "gives (handleSwapFenceCutover E m) ok_stage"
proof -
  let ?m = "ensurePhaseTimings m"
  have finish: "gives (finishCutover E cfg m1) ok_stage" for cfg m1
    unfolding finishCutover_def Let_def
    by (intro gives_swapPatch c gives_intro gives_any [where f = "if b then x else y" for b x y]) simp
  have stamped: "gives (if timing_get k ?m = None then do {
         _ \<leftarrow> sendControlMessage E p ty pl;
         t \<leftarrow> stampTiming E k ?m;
         case t of None \<Rightarrow> go_return None
         | Some m1 \<Rightarrow> do { m2 \<leftarrow> patchStatusIgnore E ?m m1; go_return (Some m2) }
       } else go_return (Some ?m)) (\<lambda>s. s \<noteq> None)" for k p ty pl
    by (intro gives_intro gives_stamp gives_any [where f = "patchStatusIgnore E b x" for b x]) simp_all
  have drain: "gives (drainBuffer E ?m q) (\<lambda>s. case s of Inl r \<Rightarrow> ok_stage r | Inr _ \<Rightarrow> True)" for q
    unfolding drainBuffer_def Let_def
    by (rule gives_bind [OF stamped]) (intro gives_intro; simp)
  show ?thesis
    unfolding handleSwapFenceCutover_def Let_def
    by (intro finish gives_intro gives_bind [OF drain] gives_any [where f = "killShadowPod E x" for x]) auto
qed

section \<open>The last phase and the reconcile loop\<close>

text \<open>
  The re-checkpoint writes its fall-back key without making the map first. It gets the object either from the last phase, which has made
  the map, or from a fetch; so an object that is stored in this sub-phase has to have timings. The phases before have recorded theirs.
\<close>

definition fetches_timings :: "'w env \<Rightarrow> bool" where
  "fetches_timings E \<longleftrightarrow> (\<forall>ns n w m. fst (api_getMigration E ns n w) = Inr m \<and> subPhase m = ''ReCheckpoint'' \<longrightarrow> has_timings m)"

lemma gives_swapDispatch:
  assumes c: "calls_return E" and a: "answers_written E" and m: "subPhase m = ''ReCheckpoint'' \<longrightarrow> has_timings m"
  shows "gives (swapDispatch E m) ok_stage"
  unfolding swapDispatch_def Let_def
  by (intro gives_prepare gives_recheckpoint gives_transfer gives_create gives_miniReplay gives_trafficSwitch gives_preFence
      gives_fence gives_parallelDrain gives_cutover c a gives_intro) (use m in simp_all)

lemma gives_getMigration:
  assumes "calls_return E" "fetches_timings E"
  shows "gives (getMigration E ns n) (\<lambda>r. no_panic r \<and> (\<forall>m. r = Inr m \<longrightarrow> subPhase m = ''ReCheckpoint'' \<longrightarrow> has_timings m))"
  unfolding getMigration_def
  by (rule gives_call) (use assms in \<open>auto simp: calls_return_def fetches_timings_def\<close>)

lemma gives_identitySwap:
  assumes "calls_return E" "answers_written E" "fetches_timings E"
  shows "(subPhase m = ''ReCheckpoint'' \<longrightarrow> has_timings m) \<Longrightarrow> gives (handleIdentitySwap E n m) ok_stage"
proof (induction n arbitrary: m)
  case 0
  show ?case by (simp add: gives_return)
next
  case (Suc n)
  show ?case
    unfolding handleIdentitySwap.simps
    by (rule gives_bind [OF gives_swapDispatch [OF assms(1, 2) Suc.prems]])
      (intro gives_intro gives_bind [OF gives_getMigration [OF assms(1, 3)]] Suc.IH; auto)
qed

lemma gives_finalizing:
  assumes c: "calls_return E" and a: "answers_written E" and f: "fetches_timings E"
  shows "gives (handleFinalizing E n m) ok_reply"
proof -
  have source: "gives (removeSource E n m1) (\<lambda>s. case s of Inl r \<Rightarrow> ok_reply r | Inr _ \<Rightarrow> True)" if "has_timings m1" for m1
    unfolding removeSource_def
    by (intro gives_intro gives_bind [OF gives_identitySwap [OF c a f]] gives_api_bind [OF c] gives_any [where f = "deletePod E p g" for p g])
      (auto simp: that ok_stage_def split: option.split)
  have pin: "gives (pinDeployment E m1) (\<lambda>e. e \<noteq> Some NilMapPanic)" for m1
    unfolding pinDeployment_def by (intro gives_intro gives_api_bind [OF c]) auto
  have release: "gives (releaseTarget E m1) (\<lambda>e. e \<noteq> Some NilMapPanic)" for m1
    unfolding releaseTarget_def by (intro gives_intro gives_api_bind [OF c]) auto
  have restore: "gives (restoreSts E m1) (\<lambda>e. e \<noteq> Some NilMapPanic)" for m1
    unfolding restoreSts_def
    by (intro gives_intro gives_bind [OF release] gives_bind [OF gives_scaleUp [OF c]])
      (auto simp: bind_eq_Some_conv ignore_not_found_def split: if_splits)
  have complete: "gives (completeMigration E b m1) ok_reply" for b m1
    unfolding completeMigration_def Let_def by (intro gives_intro gives_api_bind [OF c]) (auto split: sum.split)
  have rest: "gives (do {
      _ \<leftarrow> endReplay E m1;
      rs \<leftarrow> removeSource E n m1;
      case rs of Inl r \<Rightarrow> go_return r
      | Inr m2 \<Rightarrow> do {
          d \<leftarrow> pinDeployment E m2;
          case d of Some err \<Rightarrow> go_return (res_done, Some err)
          | None \<Rightarrow> do {
              a \<leftarrow> restoreSts E m2;
              case a of Some err \<Rightarrow> go_return (res_done, Some err) | None \<Rightarrow> completeMigration E m m2
            }
        }
    }) ok_reply" if "has_timings m1" for m1
    by (intro gives_any [where f = "endReplay E m1"] gives_bind [OF source [OF that]] gives_bind [OF pin]
        gives_bind [OF restore] complete gives_intro) auto
  show ?thesis
    unfolding handleFinalizing_def Let_def
    by (rule gives_bind [OF gives_recordStart_kept [OF a has_timings_simps(1)]]) (use rest in auto)
qed

lemma gives_handlePhase:
  assumes "calls_return E" "answers_written E" "fetches_timings E"
  shows "gives (handlePhase E n m) ok_reply"
  unfolding handlePhase_def Let_def
  by (intro gives_pending gives_checkpointing gives_transferring gives_restoring gives_replaying gives_finalizing gives_intro assms)
    simp

lemma gives_reconcileLoop:
  assumes "calls_return E" "answers_written E" "fetches_timings E"
  shows "gives (reconcileLoop E k n ns name m) ok_reply"
proof (induction k arbitrary: m)
  case 0
  show ?case by (simp add: gives_return)
next
  case (Suc k)
  have init: "gives (initPhase E m) ok_reply"
    unfolding initPhase_def by (intro gives_api_bind [OF assms(1)] gives_intro) (auto split: sum.split)
  show ?case
    unfolding reconcileLoop.simps
    by (intro init gives_bind [OF gives_handlePhase [OF assms]] gives_intro gives_api_bind [OF assms(1)] Suc.IH)
      (auto simp: ok_reply_def)
qed


text \<open>The last hypothesis is needed: without timings, the fall-back of the re-checkpoint panics.\<close>

lemma recheckpoint_panics:
  assumes "\<not> has_timings m" "kubelet_checkpoint E = Some ck" "\<And>a b c d x. fst (ck a b c d x) = Inl e"
  shows "sw_err (fst (run_state (handleSwapReCheckpoint E m) w)) = Some NilMapPanic"
proof -
  have "timing_put k v (set_subPhase s m) = None" for k v s
    using assms(1) by (simp add: has_timings_def timing_put_def)
  then show ?thesis
    using assms(2, 3) by (simp add: handleSwapReCheckpoint_def checkpointContainer_def run_ext_call sw_fail_def Let_def)
qed

end
