(* ===== verification/Examples.thy ===== *)
theory Examples
  imports FakeCluster RabbitRouting AgentCalls DeepCopy NilMaps
begin

text \<open>
  The properties with hypotheses at concrete inputs: the store of theory \<open>FakeCluster\<close>, the migration it holds and
  small numbers. Each lemma applies the property of the same name and discharges every hypothesis.
\<close>

section \<open>The objects\<close>

definition direct_migration :: StatefulMigration where
  "direct_migration = fake_migration (fake_spec ''ShadowPod'' ''Direct'' ''Cutoff'') (fake_status PhaseTransferring '''')"

definition swap_migration :: StatefulMigration where
  "swap_migration = fake_migration (fake_spec ''ShadowPod'' ''Registry'' ''Cutoff'') (fake_status PhaseFinalizing ''ReCheckpoint'')"

definition replay_migration :: StatefulMigration where
  "replay_migration = fake_migration (fake_spec ''ShadowPod'' ''Registry'' '''') (fake_status PhaseReplaying '''')"

definition drain_migration :: StatefulMigration where
  "drain_migration = fake_migration (fake_spec ''ShadowPod'' ''Registry'' ''ExchangeFence'') (fake_status PhaseFinalizing ''ParallelDrain'')"

lemmas example_defs = direct_migration_def swap_migration_def replay_migration_def fake_migration_def fake_spec_def
  fake_status_def

lemma fake_clock_start: "fst (clock_now (fake_env items) (ext (fake_world m))) = 1700000000 * second"
  by (simp add: fake_env_def fake_world_def fake_start_def)

section \<open>Helpers and the first phases\<close>

lemma stamp_elapsed_roundtrip_witness:
  "\<exists>m1 d. fst (run_state (stampTiming (fake_env []) ''Replaying.start'' replay_migration) (fake_world replay_migration)) = Some m1 \<and>
    fst (run_state (elapsedSince (fake_env []) ''Replaying.start'' m1) (fake_world replay_migration)) = Some d \<and> 0 \<le> d \<and> d < second"
proof -
  let ?w = "fake_world replay_migration"
  let ?s = "run_state (stampTiming (fake_env []) ''Replaying.start'' replay_migration) ?w"
  have "st_phaseTimings (mig_status replay_migration) \<noteq> None" by (simp add: example_defs)
  moreover have "time_ok (fst (clock_now (fake_env []) (ext ?w)))"
    unfolding fake_clock_start
    by (simp add: time_ok_def second_def unix_epoch_day_def days_before_year_def day_of_date_def)
  ultimately show ?thesis
    using stamp_elapsed_roundtrip [where E = "fake_env []" and k = "''Replaying.start''" and m = replay_migration
        and w = ?w and s = "fst ?s" and ?w1.0 = "snd ?s" and ?w2.0 = ?w]
    by (auto simp: fake_clock_start)
qed

lemma direct_mode_never_pushes_witness:
  "emits (\<lambda>e. \<forall>u b ok. e \<noteq> EvHttp u b ok) (handleTransferring (fake_env []) direct_migration) \<and>
    transferArgs direct_migration = [''/ckpt.tar'', ''http://ms2m-agent.ms2m-system.svc.cluster.local:9443/checkpoint'', ''main'']"
  using direct_mode_never_pushes [of direct_migration "fake_env []"] by (simp add: example_defs)

section \<open>Replaying\<close>

lemma replay_starts_in_order_witness:
  "yields (handleReplaying (fake_env []) replay_migration)
    (\<lambda>r es. replay_started (ensurePhaseTimings replay_migration) es False \<or>
      (\<exists>begun rest. es = begun @ rest \<and> replay_started (ensurePhaseTimings replay_migration) begun True \<and>
        list_all (\<lambda>e. \<not> sends e) rest))"
  by (rule replay_starts_in_order) (simp add: example_defs timing_get_def)


text \<open>Seven messages are left, and the replay has run for longer than its cutoff.\<close>

definition overdue_env :: "fake_cluster env" where
  "overdue_env = (fake_env [])\<lparr>broker := fake_broker\<lparr>br_getQueueDepth := \<lambda>q w. (Inr 7, w)\<rparr>\<rparr>"

definition overdue_migration :: StatefulMigration where
  "overdue_migration = set_status (st_phaseTimings_update (\<lambda>_. Some [(''Replaying.start'', rfc3339_format 0)])) replay_migration"

lemma replay_cutoff_iff_witness:
  "\<exists>obj ok. trace (snd (run_state (handleReplaying overdue_env overdue_migration) (fake_world overdue_migration))) =
     [EvDepth ''orders.ms2m-replay'' (Some 7), EvPatchStatus (ensurePhaseTimings overdue_migration) obj ok] \<and>
     phase obj = PhaseFinalizing"
proof -
  have mode: "\<not> drainMode overdue_migration" "spec_replayCutoffSeconds (mig_spec overdue_migration) = 120"
    "queueName (mqCfg overdue_migration) = ''orders''"
    by (simp_all add: drainMode_def overdue_migration_def example_defs)
  have start: "timing_get ''Replaying.start'' overdue_migration = Some (rfc3339_format 0)"
    by (simp add: overdue_migration_def timing_get_def example_defs)
  have "time_ok 0"
    by (simp add: time_ok_def second_def unix_epoch_day_def days_before_year_def day_of_date_def)
  then have parsed: "rfc3339_parse (rfc3339_format 0) = Some 0" by (simp add: rfc3339_roundtrip)
  have depth: "br_getQueueDepth (broker overdue_env) (replay_queue (queueName (mqCfg overdue_migration)))
      (ext (fake_world overdue_migration)) = (Inr 7, ext (fake_world overdue_migration))"
    by (simp add: overdue_env_def)
  have clock: "fst (clock_now overdue_env (ext (fake_world overdue_migration))) = 1700000000 * second"
    by (simp add: overdue_env_def fake_env_def fake_world_def fake_start_def)
  show ?thesis
    using replay_cutoff_iff [OF mode(1) start parsed depth clock]
    by (auto simp: mode replayCutoff_def second_def replay_queue_def fake_world_def)
qed

section \<open>The swap\<close>


lemma fence_decision_sign_witness: "\<not> adaptiveDecision (3 * second) 100 100 5"
  using fence_decision_sign [of "3 * second" 100 100 5] by (simp add: second_def)

lemma fence_decision_bound_witness: "adaptiveDecision (3 * second) 160 100 50"
proof -
  have "5 \<le> (60 :: rat) * (1 - half_ulp) ^ 9" by (simp add: half_ulp_def power_divide)
  then show ?thesis
    using fence_decision_bound [of "3 * second" 100 160 50 5] by (simp add: second_def)
qed

lemma cutover_iff_swap_queue_empty_witness:
  "yields (handleSwapParallelDrain (fake_env []) drain_migration) (\<lambda>r es. list_ex leaves_for_cutover es =
    (\<exists>primary ready unacked rest. es = EvStats ''orders'' (Some primary) #
       EvStats ''orders.ms2m-replay'' (Some (ready, unacked)) # rest \<and> ready + unacked = 0))"
  using cutover_iff_swap_queue_empty [of drain_migration "fake_env []"]
  by (simp add: drain_migration_def example_defs replay_queue_def)

section \<open>Jobs that have failed\<close>

definition failed_jobs_world :: "fake_cluster world" where
  "failed_jobs_world = (let w = fake_world swap_migration in w\<lparr>ext := (ext w)\<lparr>fk_jobs :=
     [(transferJob (fake_env []) ''mig-transfer'' swap_migration)\<lparr>job_failed := 1\<rparr>,
      (swapTransferJob (fake_env []) ''mig-swap-transfer'' swap_migration ''tag'')\<lparr>job_failed := 1\<rparr>]\<rparr>\<rparr>)"

lemma failed_jobs_found:
  "fst (api_getJob (fake_env []) (mig_namespace swap_migration) (transferJobName swap_migration) (ext failed_jobs_world)) =
     Inr ((transferJob (fake_env []) ''mig-transfer'' swap_migration)\<lparr>job_failed := 1\<rparr>)"
  "fst (api_getJob (fake_env []) (mig_namespace swap_migration) (mig_name swap_migration @ ''-swap-transfer'')
     (ext failed_jobs_world)) = Inr ((swapTransferJob (fake_env []) ''mig-swap-transfer'' swap_migration ''tag'')\<lparr>job_failed := 1\<rparr>)"
  by (simp_all add: fake_env_def failed_jobs_world_def fake_find_def transferJob_def swapTransferJob_def transferJobName_def
      example_defs Let_def)

section \<open>Worlds with little in them\<close>

text \<open>A world in which every call but those on the broker fails.\<close>

definition bare_env :: "'w broker_client \<Rightarrow> 'w env" where
  "bare_env B = \<lparr>
     api_getMigration = \<lambda>ns n w. (Inl fake_not_found, w), api_getPod = \<lambda>ns n w. (Inl fake_not_found, w),
     api_getJob = \<lambda>ns n w. (Inl fake_not_found, w), api_getSts = \<lambda>ns n w. (Inl fake_not_found, w),
     api_getRs = \<lambda>ns n w. (Inl fake_not_found, w), api_getDeployment = \<lambda>ns n w. (Inl fake_not_found, w),
     api_listPods = \<lambda>ns l w. (Inr [], w), api_updateMigration = \<lambda>m w. (Inl fake_not_found, w),
     api_patchStatus = \<lambda>b m w. (Inl fake_not_found, w), api_patchPod = \<lambda>b p w. (Some fake_not_found, w),
     api_patchSts = \<lambda>b s w. (Some fake_not_found, w), api_patchDeployment = \<lambda>b d w. (Some fake_not_found, w),
     api_createJob = \<lambda>j w. (Some fake_not_found, w), api_createPod = \<lambda>p w. (Some fake_not_found, w),
     api_deletePod = \<lambda>p g w. (Some fake_not_found, w), broker = B, kubelet_checkpoint = None,
     http_newRequestErr = \<lambda>_. None, http_post = \<lambda>u b w. (Inl fake_not_found, w), clock_now = \<lambda>w. (0, w),
     setStatusCondition = fake_setCondition, newControllerRef = fake_controllerRef\<rparr>"

text \<open>An AMQP server that is nothing but its bindings.\<close>

definition list_amqp :: "(unit, (string \<times> string) list) amqp" where
  "list_amqp = \<lparr>amqp_dial = \<lambda>u n. (Inr (), n), amqp_channel = \<lambda>c n. (Inr (), n), amqp_closeConn = \<lambda>c n. (None, n),
     amqp_closeChannel = \<lambda>c n. (None, n), amqp_exchangeDeclare = \<lambda>c x t n. (None, n), amqp_queueDeclare = \<lambda>c q n. (None, n),
     amqp_queueBind = \<lambda>c q k x n. (None, (q, x) # n), amqp_queueUnbind = \<lambda>c q k x n. (None, removeAll (q, x) n),
     amqp_queueDelete = \<lambda>c q n. (None, filter (\<lambda>b. fst b \<noteq> q) n), amqp_queueInspect = \<lambda>c q n. (Inr 0, n),
     amqp_queuePurge = \<lambda>c q n. (None, n), amqp_publish = \<lambda>c x k b n. (None, n)\<rparr>"

lemma list_amqp_bindings: "amqp_bindings list_amqp set"
  by (auto simp: amqp_bindings_def list_amqp_def grows_def)

lemma fence_stages_keep_server_routed_witness:
  "serves ''orders'' (bound_queues set ''orders.x'' (ext (snd (run_state
     (handleSwapExchangeFence (bare_env (rabbit_client list_amqp)) drain_migration)
     \<lparr>ext = \<lparr>rb_conn = Some (), rb_ch = Some (), rb_net = [(''orders'', ''orders.x'')]\<rparr>, trace = []\<rparr>))))"
proof -
  let ?E = "bare_env (rabbit_client list_amqp)"
  let ?w = "\<lparr>ext = \<lparr>rb_conn = Some (), rb_ch = Some (), rb_net = [(''orders'', ''orders.x'')]\<rparr>, trace = []\<rparr>"
  have names: "queueName (mqCfg drain_migration) = ''orders''" "exchangeName (mqCfg drain_migration) = ''orders.x''"
    by (simp_all add: drain_migration_def example_defs)
  have "broker ?E = rabbit_client list_amqp" "others_keep ?E (bound_queues set ''orders.x'')"
    by (simp_all add: bare_env_def others_keep_def grows_def)
  moreover have "serves ''orders'' (bound_queues set ''orders.x'' (ext ?w))"
    by (simp add: serves_def bound_queues_def)
  ultimately show ?thesis
    using fence_stages_keep_server_routed [OF list_amqp_bindings, of ?E drain_migration ?w] by (simp only: names)
qed

text \<open>A node on which every operation succeeds, seen from the controller.\<close>

definition calm_images :: "(unit, unit) image_lib" where
  "calm_images = \<lparr>img_layerFromFile = \<lambda>p. Inr (), img_empty = (), img_mediaType = \<lambda>i t. (), img_configMediaType = \<lambda>i t. (),
     img_appendLayers = \<lambda>i l. Inr (), img_annotations = \<lambda>i a. ()\<rparr>"

definition calm_host :: "(unit, unit, unit, unit) host" where
  "calm_host = \<lparr>h_images = \<lambda>_. calm_images, h_join = \<lambda>d f. d @ ''/'' @ f, h_unixNano = \<lambda>w. (0, w), h_create = \<lambda>p w. (None, w),
     h_copy = \<lambda>p f w. (None, w), h_mkdirAll = \<lambda>p w. (None, w), h_mkdirTemp = \<lambda>p w. (Inr ''/tmp/swap-oci-1'', w),
     h_remove = \<lambda>p w. (None, w), h_removeAll = \<lambda>p w. (None, w), h_layoutWrite = \<lambda>d w. (None, w),
     h_appendImage = \<lambda>d i w. (None, w), h_command = \<lambda>c a w. ((''Writing manifest'', None), w),
     h_cranePush = \<lambda>i r b w. (None, w), h_getenv = \<lambda>_. '''', h_listen = \<lambda>a w. (None, w)\<rparr>"

definition dead_broker :: "'w broker_client" where
  "dead_broker = \<lparr>br_connect = \<lambda>u w. (Some fake_not_found, w), br_close = \<lambda>w. (None, w),
     br_createSecondaryQueue = \<lambda>q x k w. (Inl fake_not_found, w), br_unbindQueue = \<lambda>q x w. (Some fake_not_found, w),
     br_deleteSecondaryQueue = \<lambda>q p x w. (Some fake_not_found, w), br_getQueueDepth = \<lambda>q w. (Inl fake_not_found, w),
     br_sendControlMessage = \<lambda>p t l w. (Some fake_not_found, w), br_bindQueue = \<lambda>q x k w. (Some fake_not_found, w),
     br_purgeQueue = \<lambda>q w. (Some fake_not_found, w), br_getQueueStats = \<lambda>q w. (Inl fake_not_found, w),
     br_declareAndBindQueue = \<lambda>q x w. (Some fake_not_found, w), br_deleteQueue = \<lambda>q w. (Some fake_not_found, w)\<rparr>"

text \<open>The part of a URL after the port of the agent.\<close>

definition agent_path :: "string \<Rightarrow> string" where
  "agent_path url = drop (length ''http://10.0.0.7:9443'') url"

definition node_env :: "(unit node) env" where
  "node_env = (bare_env dead_broker)\<lparr>http_post := \<lambda>url body x.
     (case run_state (agent_mux calm_host ''/var/lib/ms2m/incoming'' (agent_path url) (posted body)) x of
        (reply, x') \<Rightarrow> (Inr reply, x'))\<rparr>"

lemma agent_call_is_node_work_witness:
  "fst (run_state (callAgentLocalLoad node_env ''10.0.0.7'' ''/second.tar'' ''main'' ''t'')
     \<lparr>ext = \<lparr>nd_ext = (), nd_trace = []\<rparr>, trace = []\<rparr>) = None"
proof -
  have "agent_at node_env calm_host ''/var/lib/ms2m/incoming'' ''10.0.0.7''"
    by (simp add: agent_at_def node_env_def bare_env_def agent_path_def)
  moreover have "fst (run_state (localLoad calm_host ''/second.tar'' ''main'' ''t'') \<lparr>nd_ext = (), nd_trace = []\<rparr>) = None"
    by (simp add: localLoad_def buildImage_def loadFrom_def writeLayout_def skopeoCopy_def calm_host_def calm_images_def
        BuildCheckpointImage_def run_host_call Let_def)
  ultimately show ?thesis
    using agent_call_is_node_work [where E = node_env and H = calm_host and p = "''/second.tar''" and n = "''main''" and
        tag = "''t''" and w = "\<lparr>ext = \<lparr>nd_ext = (), nd_trace = []\<rparr>, trace = []\<rparr>"]
    by simp
qed

section \<open>A heap\<close>

definition small_status :: go_status where
  "small_status = \<lparr>gs_phase = PhaseReplaying, gs_sourceNode = ''node-a'', gs_checkpointID = '''', gs_targetPod = '''',
     gs_containerName = ''main'', gs_conditions = None, gs_startTime = None, gs_phaseTimings = Some 0,
     gs_statefulSetName = ''app'', gs_deploymentName = '''', gs_originalReplicas = 0, gs_sourcePodLabels = Some 1,
     gs_sourceContainers = None, gs_swapSubPhase = '''', gs_replacementPod = ''''\<rparr>"

definition small_migration :: go_migration where
  "small_migration = \<lparr>gm_name = ''mig'', gm_namespace = ''default'', gm_uid = ''u1'',
     gm_spec = fake_spec ''ShadowPod'' ''Registry'' '''', gm_status = small_status\<rparr>"

definition small_heap :: heap where
  "small_heap = \<lparr>hp_cells = [0 \<mapsto> CMap [(''Pending'', ''2s'')], 1 \<mapsto> CMap [(''app'', ''orders'')],
     2 \<mapsto> CItems [small_migration]], hp_next = 3\<rparr>"

lemma small_heap_ok: "heap_ok small_heap" "migration_allocated small_heap small_migration"
  by (auto simp: heap_ok_def small_heap_def migration_allocated_def status_allocated_def allocated_def look_def
      small_migration_def small_status_def)

lemma snapshot_refines_values_witness:
  "\<exists>base h1 h2. StatefulMigration_DeepCopy (Some small_migration) small_heap = (Some base, h1) \<and>
    heap_puts [(''Replaying.start'', ''t'')] small_migration h1 = Some h2 \<and>
    migration_value h2 base = migration_value small_heap small_migration \<and> refs base \<inter> refs small_migration = {}"
proof -
  obtain base h1 where c: "StatefulMigration_DeepCopyInto small_migration small_heap = (base, h1)" by fastforce
  have "hp_cells h1 0 = Some (CMap [(''Pending'', ''2s'')])"
    using migration_DeepCopy_value(2) [OF small_heap_ok(2) c] by (simp add: extends_def small_heap_def)
  then obtain h2 where p: "heap_puts [(''Replaying.start'', ''t'')] small_migration h1 = Some h2"
    by (simp add: heap_put_def small_migration_def small_status_def)
  have c': "StatefulMigration_DeepCopy (Some small_migration) small_heap = (Some base, h1)"
    by (simp add: StatefulMigration_DeepCopy_def copy_pointer_def c)
  then show ?thesis using snapshot_refines_values [OF small_heap_ok(2) c' p] p by blast
qed

lemma list_copy_separate_witness:
  "\<exists>b ms' h'. StatefulMigrationList_DeepCopyObject (Some (Some 2)) small_heap = (Some (Some b), h') \<and> hp_cells h' b = Some (CItems ms') \<and>
    map (migration_value h') ms' = [migration_value small_heap small_migration]"
proof -
  obtain r h' where c: "StatefulMigrationList_DeepCopyObject (Some (Some 2)) small_heap = (r, h')" by fastforce
  have "hp_cells small_heap 2 = Some (CItems [small_migration])" by (simp add: small_heap_def)
  from list_copy_separate [OF this _ small_heap_ok(1) c] small_heap_ok(2) c show ?thesis by auto
qed

section \<open>Nil maps\<close>

text \<open>A server that stores what it is sent, and a kubelet that cannot take the second checkpoint.\<close>

definition no_checkpoint_env :: "fake_cluster env" where
  "no_checkpoint_env = (fake_env [])\<lparr>
     api_getMigration := \<lambda>ns n w. (Inr swap_migration, w),
     api_patchStatus := \<lambda>b m w. (Inr m, w\<lparr>fk_migration := m\<rparr>),
     kubelet_checkpoint := Some (\<lambda>node ns p c w. (Inl (ErrorString ''CRIU error -52''), w))\<rparr>"


end
