(* ===== verification/Manager.thy ===== *)
theory Manager
  imports Reconcile RabbitMQ Kubelet
begin

text \<open>
  The start of the controller process: \<open>init\<close> and \<open>main\<close> of \<open>cmd/main.go\<close>, \<open>SetupWithManager\<close> and \<open>NewClient\<close>. The manager library
  and the Kubernetes client library are the parameter \<open>manager_lib\<close>; what the code decides is which options they get, which
  reconciler is registered for which kind, in which order the steps come, and the exit code after a step that fails.
\<close>

section \<open>The libraries\<close>

text \<open>
  The flag package together with the flags that the logging library binds is one function: from the defaults and the
  arguments to the values, or the exit code of a process that stops there.
\<close>

record manager_flags =
  fl_metricsAddr :: string
  fl_probeAddr :: string
  fl_leaderElection :: bool

record manager_options =
  mo_metricsAddr :: string
  mo_probeAddr :: string
  mo_leaderElection :: bool
  mo_leaderElectionID :: string

type_synonym 'w reconcile_fn = "string \<Rightarrow> string \<Rightarrow> ('w, reply) go"

record ('p, 'c, 'm, 'w) manager_lib =
  ml_addToScheme :: "string \<Rightarrow> 'p \<Rightarrow> go_error option \<times> 'p"
  ml_parseFlags :: "manager_flags \<Rightarrow> string list \<Rightarrow> int + manager_flags"
  ml_config :: "'p \<Rightarrow> (int + 'c) \<times> 'p"
  ml_newManager :: "'c \<Rightarrow> manager_options \<Rightarrow> 'p \<Rightarrow> (go_error + 'm) \<times> 'p"
  ml_newForConfig :: "'m \<Rightarrow> 'p \<Rightarrow> (go_error + 'w rest_client) \<times> 'p"
  ml_client :: "'m \<Rightarrow> 'w env"
  ml_complete :: "'m \<Rightarrow> string \<Rightarrow> 'w reconcile_fn \<Rightarrow> 'p \<Rightarrow> go_error option \<times> 'p"
  ml_healthz :: "'m \<Rightarrow> string \<Rightarrow> 'p \<Rightarrow> go_error option \<times> 'p"
  ml_readyz :: "'m \<Rightarrow> string \<Rightarrow> 'p \<Rightarrow> go_error option \<times> 'p"
  ml_start :: "'m \<Rightarrow> 'p \<Rightarrow> go_error option \<times> 'p"

section \<open>The reconciler\<close>

text \<open>\<open>kubelet.NewClient\<close> keeps the REST client of the clientset; its only operation is \<open>Checkpoint\<close>.\<close>

definition NewClient ::
    "'w rest_client \<Rightarrow> string \<Rightarrow> string \<Rightarrow> string \<Rightarrow> string \<Rightarrow> 'w \<Rightarrow> (go_error + string list) \<times> 'w" where
  "NewClient clientset = Checkpoint clientset"

text \<open>The reconciler of the process: the client of the manager, with the kubelet client and the RabbitMQ client.\<close>

definition newReconciler ::
    "(('h, 'n) rabbit) env \<Rightarrow> ('h, 'n) amqp \<Rightarrow> (('h, 'n) rabbit) rest_client \<Rightarrow> (('h, 'n) rabbit) env" where
  "newReconciler client A clientset =
     client\<lparr>kubelet_checkpoint := Some (NewClient clientset), broker := rabbit_client A\<rparr>"

definition SetupWithManager ::
    "('p, 'c, 'm, 'w) manager_lib \<Rightarrow> 'm \<Rightarrow> 'w reconcile_fn \<Rightarrow> 'p \<Rightarrow> go_error option \<times> 'p" where
  "SetupWithManager L mgr reconcile p = ml_complete L mgr ''StatefulMigration'' reconcile p"

section \<open>The process\<close>

datatype process_end = Exited int | Panicked go_error

text \<open>\<open>utilruntime.Must\<close> on the two calls of \<open>init\<close>.\<close>

definition init_scheme :: "('p, 'c, 'm, 'w) manager_lib \<Rightarrow> 'p \<Rightarrow> process_end option \<times> 'p" where
  "init_scheme L p0 = (case ml_addToScheme L ''client-go'' p0 of
     (Some err, p1) \<Rightarrow> (Some (Panicked err), p1)
   | (None, p1) \<Rightarrow> (case ml_addToScheme L ''migration.ms2m.io/v1alpha1'' p1 of
       (Some err, p2) \<Rightarrow> (Some (Panicked err), p2)
     | (None, p2) \<Rightarrow> (None, p2)))"

definition default_flags :: manager_flags where
  "default_flags = \<lparr>fl_metricsAddr = '':8080'', fl_probeAddr = '':8081'', fl_leaderElection = False\<rparr>"

definition managerOptions :: "manager_flags \<Rightarrow> manager_options" where
  "managerOptions f = \<lparr>mo_metricsAddr = fl_metricsAddr f, mo_probeAddr = fl_probeAddr f,
     mo_leaderElection = fl_leaderElection f, mo_leaderElectionID = ''a1b2c3d4.ms2m.io''\<rparr>"

text \<open>A step whose error makes the process log it and exit with code 1.\<close>

definition or_exit :: "go_error option \<times> 'p \<Rightarrow> ('p \<Rightarrow> process_end \<times> 'p) \<Rightarrow> process_end \<times> 'p" where
  "or_exit r k = (case r of (Some _, p) \<Rightarrow> (Exited 1, p) | (None, p) \<Rightarrow> k p)"

definition manager_main ::
    "('p, 'c, 'm, ('h, 'n) rabbit) manager_lib \<Rightarrow> ('h, 'n) amqp \<Rightarrow> string list \<Rightarrow> 'p \<Rightarrow> process_end \<times> 'p" where
  "manager_main L A args p0 = (case init_scheme L p0 of
     (Some e, p1) \<Rightarrow> (e, p1)
   | (None, p1) \<Rightarrow> (case ml_parseFlags L default_flags args of
       Inl code \<Rightarrow> (Exited code, p1)
     | Inr flags \<Rightarrow> (case ml_config L p1 of
         (Inl code, p2) \<Rightarrow> (Exited code, p2)
       | (Inr config, p2) \<Rightarrow> (case ml_newManager L config (managerOptions flags) p2 of
           (Inl _, p3) \<Rightarrow> (Exited 1, p3)
         | (Inr mgr, p3) \<Rightarrow> (case ml_newForConfig L mgr p3 of
             (Inl _, p4) \<Rightarrow> (Exited 1, p4)
           | (Inr clientset, p4) \<Rightarrow>
               or_exit (SetupWithManager L mgr (Reconcile (newReconciler (ml_client L mgr) A clientset) 7 10) p4) (\<lambda>p5.
               or_exit (ml_healthz L mgr ''healthz'' p5) (\<lambda>p6.
               or_exit (ml_readyz L mgr ''readyz'' p6) (\<lambda>p7.
               or_exit (ml_start L mgr p7) (\<lambda>p8. (Exited 0, p8))))))))))"

section \<open>What a process that ends well has done\<close>

text \<open>
  The reconciler that \<open>main\<close> registers always has a kubelet client, so the fixed path of the tests is never used, and its
  broker is the RabbitMQ client, so what theory \<open>RabbitRouting\<close> assumes of the broker holds.
\<close>

lemma newReconciler_parts [simp]:
  "broker (newReconciler client A clientset) = rabbit_client A"
  "kubelet_checkpoint (newReconciler client A clientset) = Some (Checkpoint clientset)"
  "api_patchStatus (newReconciler client A clientset) = api_patchStatus client"
  by (simp_all add: newReconciler_def NewClient_def)

lemma or_exit_0: "fst (or_exit r k) = Exited 0 \<longleftrightarrow> fst r = None \<and> fst (k (snd r)) = Exited 0"
  by (simp add: or_exit_def split: prod.split option.split)

text \<open>
  The manager is started only after the reconciler and both probes have been registered at it, and the process then
  ends with code 0 exactly when the manager stops without an error.
\<close>

lemma SetupWithManager_first:
  "fst (or_exit (SetupWithManager L mgr f p4) (\<lambda>p5. or_exit (ml_healthz L mgr a p5) (\<lambda>p6.
     or_exit (ml_readyz L mgr b p6) (\<lambda>p7. or_exit (ml_start L mgr p7) (\<lambda>p8. (Exited 0, p8)))))) = Exited 0 \<longleftrightarrow>
   (\<exists>p5 p6 p7 p8. ml_complete L mgr ''StatefulMigration'' f p4 = (None, p5) \<and> ml_healthz L mgr a p5 = (None, p6) \<and>
      ml_readyz L mgr b p6 = (None, p7) \<and> ml_start L mgr p7 = (None, p8))"
  by (simp add: or_exit_0 SetupWithManager_def prod_eq_iff)

end
