(* ===== verification/Spec2Isabelle.thy ===== *)
theory Spec2Isabelle
  imports Examples Manager
begin

text \<open>
  The verification of the controller of stateful pod migrations.

  \<^bold>\<open>The program.\<close> A custom resource \<open>StatefulMigration\<close> (\<open>src/api/v1alpha1/types.go\<close>) describes the migration of one
  pod. The controller (\<open>src/internal/controller/statefulmigration_controller.go\<close>) drives it through the phases Pending,
  Checkpointing, Transferring, Restoring, Replaying and Finalizing, one call of \<open>Reconcile\<close> after the other; the phase, the
  sub-phase of the identity swap and all other progress are kept in the status of the object at the API server. It
  talks to the API server, to a message broker (\<open>src/internal/messaging\<close>: the interface, the RabbitMQ client, a mock for
  the tests), to the kubelet (\<open>src/internal/kubelet/client.go\<close>) and over HTTP to a node agent.

  \<^bold>\<open>The theories.\<close>
  \<^item> \<open>Prelude\<close>: string maps, errors of the Go code, results of a reconciliation; \<open>GoText\<close>, \<open>GoTime\<close>, \<open>GoFloat\<close>: what the
    code uses of \<open>fmt\<close>, \<open>time\<close> and of \<open>float64\<close>, with the round trips and error bounds it relies on;
  \<^item> \<open>KubeTypes\<close>: the records of the custom resource and of the parts of Kubernetes objects the code reads and writes;
  \<^item> \<open>Broker\<close>: the interface \<open>BrokerClient\<close> as a record of operations and its laws as the locale \<open>broker_contract\<close>,
    interpreted for the mock in \<open>MockBroker\<close> and for the RabbitMQ client in \<open>RabbitMQ\<close>; \<open>Kubelet\<close>: the checkpoint
    request and the image builder \<open>src/internal/checkpoint/image.go\<close>;
  \<^item> \<open>Env\<close>: the outside world as a record of operations on an unknown state, the state monad of the handlers, the trace of
    their calls, and the rules for \<open>yields\<close> and \<open>emits\<close>, which run a handler symbolically on all its paths;
  \<^item> \<open>Helpers\<close>: \<open>transitionPhase\<close>, \<open>failMigration\<close>, \<open>pollingBackoff\<close>, \<open>recordPhaseTiming\<close>, \<open>callAgent\<close> and the others from
    line 2123 on; \<open>Contracts\<close>: the triple \<open>ends\<close>, the hypothesis \<open>single_writer\<close> and the locale \<open>phase_handler\<close>;
  \<^item> \<open>Pending\<close>, \<open>Checkpointing\<close> (with \<open>handleTransferring\<close>), \<open>Restoring\<close>, \<open>Replaying\<close>, \<open>Finalizing\<close>: one handler
    each, a definition per block of the source; every handler interprets \<open>phase_handler\<close>;
  \<^item> \<open>SwapCommon\<close>, \<open>SwapCutoff\<close>, \<open>SwapFence\<close>: the stages of the identity swap, each an interpretation of
    \<open>swap_handler\<close> or \<open>swap_stage\<close>; the dispatch loop \<open>handleIdentitySwap\<close> is in \<open>Finalizing\<close>;
  \<^item> \<open>Reconcile\<close>: the reconcile loop; \<open>Termination\<close>: both loops as inductive relations, and that they end;
    \<open>Tracking\<close>: the abstract machine \<open>migration_step\<close> and the simulation; \<open>Routing\<close>: the broker's bindings along a trace;
  \<^item> \<open>FakeCluster\<close>: a world in memory on which the handlers run and all hypotheses hold; \<open>Examples\<close>: the properties
    with hypotheses applied there, and to small worlds of their own;
  \<^item> \<open>RabbitRouting\<close>: the guarantee of \<open>Routing\<close> carried over to the bindings of an AMQP server behind the RabbitMQ client;
  \<^item> \<open>DeepCopy\<close>: \<open>src/api/v1alpha1/deepcopy.go\<close> on a heap of cells, and that snapshots behave as the values of the other theories;
  \<^item> \<open>Agent\<close>: the node agent \<open>src/cmd/ms2m-agent/main.go\<close>, over the record \<open>host\<close> of the node's operations, with the calculus
    \<open>leaves\<close> of what a call leaves on the node; \<open>TransferTool\<close>: \<open>src/cmd/checkpoint-transfer/main.go\<close>; \<open>AgentCalls\<close>: the
    requests of the controller to the agent, and the arguments of the two jobs, put together with these programs;
  \<^item> \<open>NilMaps\<close>: the triple \<open>gives\<close> on the results of the handlers, and that no run panics on a nil map;
  \<^item> \<open>Manager\<close>: the start of the process, \<open>src/cmd/main.go\<close>, and the reconciler it registers.

  \<^bold>\<open>How code became definitions.\<close> A handler \<open>func (r *Reconciler) h(ctx, m) (Result, error)\<close> is a function of the same name
  from the environment and the object to a state transformer that returns the pair of result and error. An
  object that the Go code mutates in place is a new value for each write; \<open>base\<close> is the snapshot taken by \<open>DeepCopy\<close>. After a
  status patch that succeeds the in-memory object is the server's answer. A write to a nil map is the error \<open>NilMapPanic\<close>.
  Integers are \<open>int\<close>; where 64 bits could matter (the cutoff, depths read back from text) the bound is a theorem or is part
  of the reader. Logging is left out. Time stamps are read and written in UTC.

  \<^bold>\<open>What is shown.\<close> \<open>Reconcile\<close> refines the phase machine and keeps its invariant; its loops end, after at most seven
  rounds and, within one, ten rounds of the swap (the fuel of the executable functions: the longest paths through the two
  machines), unless the kubelet answers without an item, and then the swap never ends; the exchange fence never leaves the
  producers without a bound queue except when its roll-back cannot rebind; which calls each phase makes and in which order;
  the shape of the created pods and jobs; time, depth and rate arithmetic; that snapshots are values; that the
  calls of the node agent and the jobs do what the controller means by them, and what they leave on the node; that no nil map is written to.
  Every hypothesis states documented behaviour of the outside world and holds in one of the worlds of \<open>Examples\<close>.

  \<^bold>\<open>Not modelled.\<close> The registration values of the API group (\<open>src/api/v1alpha1/groupversion_info.go\<close>), log output, and the
  evaluation scripts, manifests and infrastructure descriptions, which are not the program. The libraries of Kubernetes, AMQP,
  the container registry, HTTP and multipart forms are parameters.
\<close>

section \<open>The migration as a whole\<close>





text \<open>
  C13: What a single phase handler can do, on every path and without any assumption on the server's answers: after the
  status patches it made, merged in order, the phase is the one held before or a successor of the handled phase.
\<close>

theorem handler_moves_one_phase:
  "yields (handlePhase E n m) (\<lambda>r es. merged_phase p es \<in> set (p # phase_targets (phase m)))"
  by (rule yields_mono [OF emits_handlePhase_legal [unfolded emits_def]]) (rule merged_phase_legal, assumption, auto)

section \<open>Termination\<close>





text \<open>
  The converse: a kubelet that answers without an item keeps the re-checkpoint in its place, with a result that asks to go on.
\<close>

definition kubelet_gives_none :: "'w env \<Rightarrow> bool" where
  "kubelet_gives_none E \<longleftrightarrow> (\<exists>ck. kubelet_checkpoint E = Some ck \<and> (\<forall>node ns p c w. fst (ck node ns p c w) = Inr []))"

lemma recheckpoint_stays:
  assumes sw: "single_writer E V" and none: "kubelet_gives_none E" and "subPhase m = ''ReCheckpoint''"
    and run: "run_state (swapDispatch E m) w = (r, w1)"
  shows "r = sw_next m \<and> V (ext w1) = V (ext w)"
proof -
  obtain ck where ck: "kubelet_checkpoint E = Some ck" "\<And>a b c d w. fst (ck a b c d w) = Inr []"
    using none unfolding kubelet_gives_none_def by blast
  have "swapDispatch E m = handleSwapReCheckpoint E m" using assms(3) by (simp add: swapDispatch_def)
  moreover have "leaves_view V (ck a b c d)" for a b c d using sw ck(1) by (simp add: single_writer_def)
  ultimately show ?thesis
    using run ck(2) by (auto simp: handleSwapReCheckpoint_def ck(1) checkpointContainer_def run_ext_call leaves_view_def)
qed

text \<open>
  C8: The condition on the kubelet is needed. When it answers every checkpoint request with an empty list and the
  API server answers every read, the loop of the source never comes back from the re-checkpoint: it asks the
  kubelet for a checkpoint again and again, and no amount of fuel is enough.
\<close>

theorem swap_diverges_without_items:
  assumes "single_writer E V" "kubelet_gives_none E" "\<And>ns n x. ok_sum (fst (api_getMigration E ns n x))"
    and "subPhase m = ''ReCheckpoint''" "V (ext w) = view_of m"
  shows "(\<nexists>r w'. swap_loop E m w r w') \<and> sw_err (fst (run_state (handleIdentitySwap E n m) w)) = Some OutOfFuel"
proof
  have refetched: "subPhase m' = ''ReCheckpoint'' \<and> V (ext w2) = view_of m'"
    if "V (ext v) = view_of o'" "subPhase o' = ''ReCheckpoint''" "run_state (swapDispatch E o') v = (r, w1)"
      "run_state (getMigration E ns name) w1 = (Inr m', w2)" for o' v r w1 ns name m' w2
    using recheckpoint_stays [OF assms(1, 2) that(2, 3)] getMigration_shows [OF assms(1) that(4)] that(1, 2)
    by (simp add: view_of_def)
  have read: "\<exists>m'. f = Inr m'" if "run_state (getMigration E ns name) v = (f, w2)" for ns name v f w2
    using that assms(3) [of ns name "ext v"] by (cases f) (auto simp: getMigration_def run_ext_call)
  have "False" if "swap_loop E m w r w'" for r w'
    using that assms(4, 5)
  proof (induction rule: swap_loop.induct)
    case (stop m w r w1)
    then show ?case using recheckpoint_stays [OF assms(1, 2), of m w r w1] by simp
  next
    case (refetch_fails m w r w1 err w2)
    then show ?case using read by blast
  next
    case (again m w r w1 m' w2 r' w3)
    then show ?case using refetched [of w m r w1] by blast
  qed
  then show "\<nexists>r w'. swap_loop E m w r w'" by blast
  show "sw_err (fst (run_state (handleIdentitySwap E n m) w)) = Some OutOfFuel"
    using assms(4, 5)
  proof (induction n arbitrary: m w)
    case 0
    then show ?case by (simp add: sw_fail_def)
  next
    case (Suc n)
    obtain r w1 where d: "run_state (swapDispatch E m) w = (r, w1)" by fastforce
    obtain f w2 where f: "run_state (getMigration E (mig_namespace m) (mig_name m)) w1 = (f, w2)" by fastforce
    from read [OF f] obtain m' where m': "f = Inr m'" by blast
    have r: "r = sw_next m" using recheckpoint_stays [OF assms(1, 2) Suc.prems(1) d] by simp
    have o: "sw_obj (sw_next m) = m" by (simp add: sw_next_def)
    from refetched [OF Suc.prems(2, 1) d f [unfolded m']] Suc.IH [of m' w2]
    show ?case using d f m' by (simp add: r o)
  qed
qed

lemma swap_diverges_without_items_witness:
  "\<not> (\<exists>r w'. swap_loop ((fake_env [])\<lparr>api_getMigration := \<lambda>ns n w. (Inr (fk_migration w), w)\<rparr>) swap_migration
     (fake_world swap_migration) r w')"
proof -
  let ?E = "(fake_env [])\<lparr>api_getMigration := \<lambda>ns n w. (Inr (fk_migration w), w)\<rparr>"
  have "single_writer ?E fake_view"
    using fake_single_writer [of "[]"] by (simp add: single_writer_def patches_view_def shows_view_def fake_view_def)
  moreover have "kubelet_gives_none ?E" by (simp add: kubelet_gives_none_def fake_env_def)
  moreover have "subPhase swap_migration = ''ReCheckpoint''" by (simp add: example_defs)
  ultimately show ?thesis
    using swap_diverges_without_items [of ?E fake_view swap_migration "fake_world swap_migration" 0] by simp
qed

section \<open>Failed jobs\<close>

text \<open>
  C28: The two transfer jobs are treated differently when they have failed. The job of the third phase is polled for ever: as
  long as it has not succeeded, the handler asks for another look in one, two or five seconds and makes no other call, whether the
  job has failed or not. The swap's job makes the handler report an error.
\<close>

theorem failed_jobs_differ:
  assumes "fst (api_getJob E (mig_namespace m) (transferJobName m) (ext w)) = Inr j" "job_succeeded j < 1"
    and "fst (api_getJob E (mig_namespace m) (mig_name m @ ''-swap-transfer'') (ext w)) = Inr j'"
    and "job_succeeded j' < 1" "0 < job_failed j'"
  shows "fst (run_state (handleTransferringViaJob E m) w) \<in> {(res_after (n * second), None) | n. n \<in> {1, 2, 5}} \<and>
    trace (snd (run_state (handleTransferringViaJob E m) w)) = trace w \<and>
    sw_err (fst (run_state (handleSwapTransferViaJob E m tag) w)) \<noteq> None \<and>
    trace (snd (run_state (handleSwapTransferViaJob E m tag) w)) = trace w"
proof -
  let ?w1 = "w\<lparr>ext := snd (api_getJob E (mig_namespace m) (transferJobName m) (ext w))\<rparr>"
  obtain d w2 where p: "run_state (pollingBackoff E m ''Transferring.start'') ?w1 = (d, w2)" by fastforce
  have d: "d \<in> {1 * second, 2 * second, 5 * second}" "trace w2 = trace w"
    using yieldsD [OF yields_polling p] by auto
  show ?thesis
    using assms p d
    by (auto simp: handleTransferringViaJob_def handleSwapTransferViaJob_def getJob_def run_ext_call Let_def sw_fail_def)
qed

lemma failed_jobs_differ_witness:
  "sw_err (fst (run_state (handleSwapTransferViaJob (fake_env []) swap_migration ''tag'') failed_jobs_world)) \<noteq> None"
  using failed_jobs_differ [OF failed_jobs_found(1) _ failed_jobs_found(2), of "''tag''"]
  by (simp add: transferJob_def swapTransferJob_def)

end
